(* ===== verification/Prelude.thy ===== *)
theory Prelude
  imports Complex_Main "HOL-Library.Word"
begin

text \<open>
  Shared vocabulary of the development: the C machine types of the firmware as
  words, the C conversions of \<open>float\<close> values to integers, C's truncating
  remainder, and the generic facts about them that the component theories use.
  C's \<open>float\<close> arithmetic is modelled by exact arithmetic on \<open>real\<close>: rounding
  of single precision is not modelled (see the header of \<open>Spec2Isabelle\<close>).
\<close>

type_synonym u8 = "8 word"
type_synonym u16 = "16 word"
type_synonym u32 = "32 word"

named_theorems c_conv \<open>evaluation facts for the C conversions of this theory\<close>

section \<open>C conversions\<close>

text \<open>
  \<open>(int) x\<close> and \<open>(uint16_t) x\<close> of a \<open>float\<close> truncate toward zero
  (C11 6.3.1.4); the conversion to \<open>uint16_t\<close> is defined by C only for values
  in range, where it is the truncated value.
\<close>

definition c_trunc :: "real \<Rightarrow> int" where
  "c_trunc x = (if 0 \<le> x then \<lfloor>x\<rfloor> else \<lceil>x\<rceil>)"

definition c_f2u16 :: "real \<Rightarrow> u16" where
  "c_f2u16 x = word_of_int (c_trunc x)"

text \<open>C's \<open>%\<close> on \<open>int\<close>: the sign of the result follows the dividend.\<close>

definition c_mod :: "int \<Rightarrow> int \<Rightarrow> int" where
  "c_mod a n = sgn a * (\<bar>a\<bar> mod \<bar>n\<bar>)"

text \<open>C's \<open>/\<close> on integers truncates toward zero.\<close>

definition c_div :: "int \<Rightarrow> int \<Rightarrow> int" where
  "c_div a n = sgn a * sgn n * (\<bar>a\<bar> div \<bar>n\<bar>)"

declare c_trunc_def [c_conv] c_f2u16_def [c_conv] c_mod_def [c_conv] c_div_def [c_conv]

section \<open>Facts on the conversions\<close>

lemma c_trunc_nonneg [simp]: "0 \<le> x \<Longrightarrow> c_trunc x = \<lfloor>x\<rfloor>"
  by (simp add: c_trunc_def)

lemma c_trunc_of_int [simp]: "c_trunc (of_int k) = k"
  by (simp add: c_trunc_def)

lemma c_trunc_zero [simp]: "c_trunc 0 = 0"
  by (simp add: c_trunc_def)

lemma c_trunc_ge0 [intro]: "0 \<le> x \<Longrightarrow> 0 \<le> c_trunc x"
  by simp

lemma c_trunc_le_self: "0 \<le> x \<Longrightarrow> real_of_int (c_trunc x) \<le> x"
  by simp

text \<open>Truncation moves toward zero: between 0 and the value, on either side.\<close>

lemma c_trunc_between:
  "(0 \<le> x \<longrightarrow> 0 \<le> c_trunc x \<and> real_of_int (c_trunc x) \<le> x) \<and>
   (x \<le> 0 \<longrightarrow> c_trunc x \<le> 0 \<and> x \<le> real_of_int (c_trunc x))"
  by (auto simp: c_trunc_def ceiling_le_iff)

lemma c_trunc_mono_nonneg: "0 \<le> x \<Longrightarrow> x \<le> y \<Longrightarrow> c_trunc x \<le> c_trunc y"
  by (simp add: floor_mono)

lemma c_trunc_le_int: "0 \<le> x \<Longrightarrow> x \<le> of_int k \<Longrightarrow> c_trunc x \<le> k"
  by (simp add: floor_le_iff)

lemma c_mod_nonneg [simp]: "0 \<le> a \<Longrightarrow> 0 < n \<Longrightarrow> c_mod a n = a mod n"
  by (cases "a = 0") (auto simp: c_mod_def)

lemma c_div_nonneg [simp]: "0 \<le> a \<Longrightarrow> 0 < n \<Longrightarrow> c_div a n = a div n"
  by (cases "a = 0") (auto simp: c_div_def)

section \<open>Words read back\<close>

text \<open>A value of \<open>int\<close> stored into a word of enough width is read back unchanged.\<close>

lemma uint_word_of_int_small:
  "0 \<le> k \<Longrightarrow> k < 2 ^ LENGTH('a) \<Longrightarrow> uint (word_of_int k :: 'a::len word) = k"
  by (simp add: uint_word_of_int_eq take_bit_int_eq_self)

lemma unat_word_of_nat_small:
  "n < 2 ^ LENGTH('a) \<Longrightarrow> unat (word_of_nat n :: 'a::len word) = n"
  by (simp add: unsigned_of_nat take_bit_nat_eq_self)

lemma unat_le_iff_uint: "unat (w :: 'a::len word) \<le> n \<longleftrightarrow> uint w \<le> int n"
  by (metis nat_le_iff unat_eq_nat_uint)

lemma uint_u16_le: "uint (w :: u16) \<le> 65535"
  using uint_lt2p [of w] by simp

lemma unat_u16_le: "unat (w :: u16) \<le> 65535"
  using unsigned_less [of w, where ?'a = nat] by simp

section \<open>Counting draws\<close>

text \<open>
  How many of the values below \<open>n\<close> fall into one residue class modulo \<open>m\<close>, and
  the count of the words with a property of their value: the tools to read off the
  distribution of a remainder of a random word.
\<close>

lemma card_mod_class_Suc:
  "card {x. x < Suc n \<and> x mod m = i} = card {x. x < n \<and> x mod m = i} + (if n mod m = i then 1 else 0)"
proof -
  have "{x. x < Suc n \<and> x mod m = i} = {x. x < n \<and> x mod m = i} \<union> (if n mod m = i then {n} else {})"
    by (auto simp: less_Suc_eq)
  then show ?thesis by simp
qed

lemma card_mod_class:
  assumes "i < m"
  shows "card {x. x < n \<and> x mod m = i} = n div m + (if i < n mod m then 1 else 0)"
proof (induction n)
  case 0
  then show ?case by simp
next
  case (Suc n)
  have m: "0 < m" using assms by simp
  show ?case
  proof (cases "Suc (n mod m) = m")
    case True
    then have "Suc n mod m = 0" "Suc n div m = Suc (n div m)"
      using m by (simp_all add: mod_Suc div_Suc)
    then show ?thesis using Suc.IH True assms by (simp add: card_mod_class_Suc)
  next
    case False
    then have "Suc n mod m = Suc (n mod m)" "Suc n div m = n div m"
      using m by (simp_all add: mod_Suc div_Suc)
    then show ?thesis using Suc.IH by (auto simp: card_mod_class_Suc)
  qed
qed

lemma card_unat_pred:
  "card {w :: 'a::len word. P (unat w)} = card {x. x < 2 ^ LENGTH('a) \<and> P x}"
proof -
  have "unat ` {w :: 'a word. P (unat w)} = {x. x < 2 ^ LENGTH('a) \<and> P x}"
  proof (intro set_eqI iffI)
    fix x assume "x \<in> {x. x < 2 ^ LENGTH('a) \<and> P x}"
    then have "unat (word_of_nat x :: 'a word) = x" "P x" by (simp_all add: unat_word_of_nat_small)
    then show "x \<in> unat ` {w :: 'a word. P (unat w)}" by (metis (mono_tags) image_eqI mem_Collect_eq)
  qed auto
  then show ?thesis by (metis card_image inj_on_def word_unat_eq_iff)
qed

end
