(* ===== verification/Color.thy ===== *)
theory Color
  imports Prelude
begin

text \<open>
  The colour model of \<open>src/src/transitons.c\<close> and \<open>transitions.h\<close>: the
  \<open>rgb_color_t\<close> struct, the palette \<open>base_colors\<close>, the random palette draw
  \<open>get_random_color\<close> and the ease-in/out interpolation
  \<open>interpolate_easeInOut\<close>. The random source \<open>esp_random()\<close> is an input
  word; the \<open>float\<close> arithmetic is exact real arithmetic and the conversions
  back to \<open>int\<close> and \<open>uint16_t\<close> are written out.
\<close>

section \<open>Data\<close>

text \<open>\<open>rgb_color_t\<close>: three \<open>uint16_t\<close> channels (C fields \<open>r\<close>, \<open>g\<close>, \<open>b\<close>).\<close>

record rgb_color_t =
  rgb_r :: u16
  rgb_g :: u16
  rgb_b :: u16

definition rgb :: "u16 \<Rightarrow> u16 \<Rightarrow> u16 \<Rightarrow> rgb_color_t" where
  "rgb x y z = \<lparr>rgb_r = x, rgb_g = y, rgb_b = z\<rparr>"

definition white :: rgb_color_t where
  "white = rgb 4095 4095 4095"

definition base_colors :: "rgb_color_t list" where
  "base_colors =
    [rgb 4095 0 0, rgb 4095 1650 0, rgb 4095 4095 0, rgb 0 4095 0,
     rgb 0 0 4095, rgb 75 0 130, rgb 148 0 211, rgb 4095 2048 0,
     rgb 4095 0 2048, rgb 2048 4095 0, rgb 0 4095 2048, rgb 0 2048 4095]"

text \<open>\<open>base_colors[esp_random() % 12]\<close>: an unsigned remainder of the 32-bit draw.\<close>

definition get_random_color :: "u32 \<Rightarrow> rgb_color_t" where
  "get_random_color rnd = base_colors ! (unat rnd mod 12)"

section \<open>Ease-in/out interpolation\<close>

text \<open>The shaping of the progress, the local \<open>p\<close> of \<open>interpolate_easeInOut\<close>.\<close>

definition ease_in_out :: "real \<Rightarrow> real" where
  "ease_in_out q = (if q < 0.5 then 2 * q * q else -1 + (4 - 2 * q) * q)"

text \<open>
  One channel: \<open>start + (int)((end - start) * p)\<close>. The difference is an \<open>int\<close>
  (both operands are promoted), the product a \<open>float\<close>, the cast truncates, and
  the sum is stored into a \<open>uint16_t\<close> field, modulo \<open>2^16\<close>.
\<close>

definition ease_channel :: "u16 \<Rightarrow> u16 \<Rightarrow> real \<Rightarrow> u16" where
  "ease_channel s e p =
     word_of_int (uint s + c_trunc (real_of_int (uint e - uint s) * p))"

definition interpolate_easeInOut :: "rgb_color_t \<Rightarrow> rgb_color_t \<Rightarrow> real \<Rightarrow> rgb_color_t" where
  "interpolate_easeInOut s e progress =
     (let p = ease_in_out progress
      in \<lparr>rgb_r = ease_channel (rgb_r s) (rgb_r e) p,
          rgb_g = ease_channel (rgb_g s) (rgb_g e) p,
          rgb_b = ease_channel (rgb_b s) (rgb_b e) p\<rparr>)"

text \<open>A colour whose channels are all within the 12-bit PWM range.\<close>

definition color_ok :: "rgb_color_t \<Rightarrow> bool" where
  "color_ok c \<longleftrightarrow> unat (rgb_r c) \<le> 4095 \<and> unat (rgb_g c) \<le> 4095 \<and> unat (rgb_b c) \<le> 4095"

lemmas color_defs = rgb_def white_def base_colors_def get_random_color_def
  ease_in_out_def ease_channel_def interpolate_easeInOut_def color_ok_def

section \<open>Lemmas on the shaping function\<close>

lemma ease_in_out_0 [simp]: "ease_in_out 0 = 0"
  by (simp add: ease_in_out_def)

lemma ease_in_out_1 [simp]: "ease_in_out 1 = 1"
  by (simp add: ease_in_out_def)

lemma ease_in_out_range:
  assumes "0 \<le> q" "q \<le> 1"
  shows "0 \<le> ease_in_out q \<and> ease_in_out q \<le> 1"
proof (cases "q < 0.5")
  case True
  have "2 * q * q \<le> 2 * 0.5 * 0.5"
    using True assms by (intro mult_mono) auto
  with True assms show ?thesis by (simp add: ease_in_out_def)
next
  case False
  have eq: "-1 + (4 - 2 * q) * q = 1 - 2 * (1 - q) * (1 - q)"
    by (simp add: algebra_simps)
  have "2 * (1 - q) * (1 - q) \<le> 2 * 0.5 * 0.5"
    using False assms by (intro mult_mono) auto
  moreover have "0 \<le> 2 * (1 - q) * (1 - q)"
    using assms by simp
  ultimately have "0 \<le> -1 + (4 - 2 * q) * q \<and> -1 + (4 - 2 * q) * q \<le> 1"
    unfolding eq by linarith
  with False show ?thesis
    by (simp only: ease_in_out_def if_False)
qed

section \<open>Lemmas on one channel\<close>

lemma ease_channel_0 [simp]: "ease_channel s e 0 = s"
  by (simp add: ease_channel_def)

lemma ease_channel_1 [simp]: "ease_channel s e 1 = e"
  by (simp only: ease_channel_def mult_1_right c_trunc_of_int) simp

lemma ease_channel_same [simp]: "ease_channel s s p = s"
  by (simp add: ease_channel_def)

text \<open>
  For a shaped progress in \<open>[0, 1]\<close>, the truncated step lies between 0 and the
  difference, so the sum lies between the two endpoints and is stored without
  wrapping.
\<close>

lemma trunc_step_between:
  assumes "0 \<le> p" "p \<le> 1"
  shows "min 0 d \<le> c_trunc (real_of_int d * p) \<and> c_trunc (real_of_int d * p) \<le> max 0 d"
proof (cases "0 \<le> d")
  case True
  then have nn: "0 \<le> real_of_int d * p" using assms by simp
  have "real_of_int d * p \<le> real_of_int d"
    using True assms by (simp add: mult_left_le)
  then have "c_trunc (real_of_int d * p) \<le> d"
    using nn by (rule c_trunc_le_int [rotated])
  with True nn show ?thesis by auto
next
  case False
  then have np: "real_of_int d * p \<le> 0" using assms by (simp add: mult_nonpos_nonneg)
  have "real_of_int d \<le> real_of_int d * p"
    using False assms by (simp add: mult_left_le_one_le mult_le_cancel_left1)
  then have "real_of_int d \<le> real_of_int (c_trunc (real_of_int d * p))"
    using c_trunc_between [of "real_of_int d * p"] np by linarith
  with False np c_trunc_between [of "real_of_int d * p"] show ?thesis by auto
qed

lemma ease_channel_between:
  assumes "0 \<le> p" "p \<le> 1"
  shows "min (uint s) (uint e) \<le> uint (ease_channel s e p) \<and>
         uint (ease_channel s e p) \<le> max (uint s) (uint e)"
proof -
  define d where "d = uint e - uint s"
  define t where "t = c_trunc (real_of_int d * p)"
  have bt: "min 0 d \<le> t \<and> t \<le> max 0 d"
    unfolding t_def by (rule trunc_step_between [OF assms])
  have "0 \<le> uint s" "0 \<le> uint e" by simp_all
  with bt have lo: "0 \<le> uint s + t" unfolding d_def by linarith
  have hi: "uint s + t < 2 ^ LENGTH(16)"
    using bt uint_u16_le [of s] uint_u16_le [of e] unfolding d_def by auto
  have "uint (ease_channel s e p) = uint s + t"
    unfolding ease_channel_def d_def [symmetric] t_def [symmetric]
    using lo hi by (rule uint_word_of_int_small)
  with bt show ?thesis unfolding d_def by auto
qed

lemma color_ok_interpolate:
  assumes "0 \<le> p" "p \<le> 1" "color_ok a" "color_ok b"
  shows "color_ok (interpolate_easeInOut a b p)"
proof -
  have q: "0 \<le> ease_in_out p" "ease_in_out p \<le> 1"
    using ease_in_out_range [OF assms(1,2)] by auto
  have ch: "unat (ease_channel x y (ease_in_out p)) \<le> 4095"
    if "unat x \<le> 4095" "unat y \<le> 4095" for x y
  proof -
    have "uint (ease_channel x y (ease_in_out p)) \<le> max (uint x) (uint y)"
      using ease_channel_between [OF q] by blast
    with that show ?thesis by (simp add: unat_le_iff_uint)
  qed
  from assms(3,4) show ?thesis
    unfolding color_ok_def interpolate_easeInOut_def Let_def
    by (simp add: ch)
qed

lemma color_ok_base_colors: "c \<in> set base_colors \<Longrightarrow> color_ok c"
  by (auto simp: base_colors_def color_ok_def rgb_def)

lemma color_ok_white [simp]: "color_ok white"
  by (simp add: white_def rgb_def color_ok_def)

lemma distinct_base_colors: "distinct base_colors"
  by (simp add: base_colors_def rgb_def)

section \<open>Properties of the colour model\<close>

text \<open>
  C1: Interpolation starts at the start colour and ends at the end colour exactly:
  \<open>interpolate_easeInOut(a, b, 0) = a\<close> and \<open>interpolate_easeInOut(a, b, 1) = b\<close>.
\<close>

theorem interpolate_easeInOut_endpoints:
  "interpolate_easeInOut a b 0 = a \<and> interpolate_easeInOut a b 1 = b"
  by (simp add: interpolate_easeInOut_def)

text \<open>Interpolating a colour to itself gives that colour, at any progress.\<close>

theorem interpolate_easeInOut_self: "interpolate_easeInOut c c p = c"
  by (simp add: interpolate_easeInOut_def)

text \<open>
  C3: For a progress in \<open>[0, 1]\<close> each channel of the result lies between the
  channels of the two endpoints, so no channel wraps around its \<open>uint16_t\<close>.
\<close>

theorem interpolate_easeInOut_between:
  assumes "0 \<le> p" "p \<le> 1"
  shows "min (uint (rgb_r a)) (uint (rgb_r b)) \<le> uint (rgb_r (interpolate_easeInOut a b p)) \<and>
         uint (rgb_r (interpolate_easeInOut a b p)) \<le> max (uint (rgb_r a)) (uint (rgb_r b)) \<and>
         min (uint (rgb_g a)) (uint (rgb_g b)) \<le> uint (rgb_g (interpolate_easeInOut a b p)) \<and>
         uint (rgb_g (interpolate_easeInOut a b p)) \<le> max (uint (rgb_g a)) (uint (rgb_g b)) \<and>
         min (uint (rgb_b a)) (uint (rgb_b b)) \<le> uint (rgb_b (interpolate_easeInOut a b p)) \<and>
         uint (rgb_b (interpolate_easeInOut a b p)) \<le> max (uint (rgb_b a)) (uint (rgb_b b))"
proof -
  have q: "0 \<le> ease_in_out p" "ease_in_out p \<le> 1"
    using ease_in_out_range [OF assms] by auto
  show ?thesis
    unfolding interpolate_easeInOut_def Let_def
    using ease_channel_between [OF q, of "rgb_r a" "rgb_r b"]
      ease_channel_between [OF q, of "rgb_g a" "rgb_g b"]
      ease_channel_between [OF q, of "rgb_b a" "rgb_b b"]
    by simp
qed

theorem interpolate_easeInOut_between_witness:
  "(0::real) \<le> 1 / 2 \<and> (1::real) / 2 \<le> 1 \<and>
   interpolate_easeInOut (rgb 4095 0 0) (rgb 0 0 4095) (1 / 2) = rgb 2048 0 2047 \<and>
   uint (rgb_r (interpolate_easeInOut (rgb 4095 0 0) (rgb 0 0 4095) (1 / 2))) \<le>
     max (uint (rgb_r (rgb 4095 0 0))) (uint (rgb_r (rgb 0 0 4095)))"
proof -
  have "interpolate_easeInOut (rgb 4095 0 0) (rgb 0 0 4095) (1 / 2) = rgb 2048 0 2047"
    by (simp add: interpolate_easeInOut_def ease_in_out_def ease_channel_def rgb_def c_conv)
  moreover have "uint (rgb_r (interpolate_easeInOut (rgb 4095 0 0) (rgb 0 0 4095) (1 / 2))) \<le>
     max (uint (rgb_r (rgb 4095 0 0))) (uint (rgb_r (rgb 0 0 4095)))"
    using interpolate_easeInOut_between [of "1 / 2" "rgb 4095 0 0" "rgb 0 0 4095"] by simp
  ultimately show ?thesis by simp
qed

text \<open>
  C4: The code's shaping \<open>-1 + (4 - 2p) p\<close> is the ease-in/out curve the
  specification writes, \<open>2p\<^sup>2\<close> below one half and \<open>1 - 2(1 - p)\<^sup>2\<close> above.
\<close>

theorem ease_in_out_spec_formula:
  "ease_in_out p = (if p < 1 / 2 then 2 * p\<^sup>2 else 1 - 2 * (1 - p)\<^sup>2)"
  by (simp add: ease_in_out_def power2_eq_square algebra_simps)

text \<open>
  C5: A random draw is an entry of the twelve-colour palette, and every palette
  entry is within the 12-bit range, for every value of \<open>esp_random()\<close>.
\<close>

theorem get_random_color_in_palette:
  "get_random_color rnd \<in> set base_colors \<and> color_ok (get_random_color rnd)"
proof -
  have "unat rnd mod 12 < length base_colors"
    by (simp add: base_colors_def)
  then have "get_random_color rnd \<in> set base_colors"
    unfolding get_random_color_def by (rule nth_mem)
  then show ?thesis by (simp add: color_ok_base_colors)
qed

text \<open>
  C26: How often each palette entry is drawn: of the \<open>2 ^ 32\<close> values of
  \<open>esp_random()\<close>, \<open>% 12\<close> sends 357913942 to each of the first four entries
  and 357913941 to each of the other eight (\<open>2 ^ 32 = 12 * 357913941 + 4\<close>).
  The draw is nearly, not exactly, the uniform draw of the specification.
\<close>

theorem get_random_color_distribution:
  assumes "i < 12"
  shows "card {rnd. get_random_color rnd = base_colors ! i} = (if i < 4 then 357913942 else 357913941)"
proof -
  have len: "length base_colors = 12" by (simp add: base_colors_def)
  have "get_random_color rnd = base_colors ! i \<longleftrightarrow> unat rnd mod 12 = i" for rnd
    unfolding get_random_color_def using assms len distinct_base_colors
    by (simp add: nth_eq_iff_index_eq)
  then have "card {rnd. get_random_color rnd = base_colors ! i} = card {x. x < 2 ^ 32 \<and> x mod 12 = i}"
    using card_unat_pred [where 'a = 32 and P = "\<lambda>x. x mod 12 = i"] by simp
  then show ?thesis using card_mod_class [OF assms, of "2 ^ 32"] by simp
qed

theorem get_random_color_distribution_witness:
  "card {rnd. get_random_color rnd = base_colors ! 0} = 357913942"
  using get_random_color_distribution [of 0] by simp

text \<open>
  Outside \<open>[0, 1]\<close> the interpolation does not extrapolate as an
  unbounded value: the sum is stored into \<open>uint16_t\<close> and wraps. From black
  to white at progress 2 the shaped progress is \<open>-1\<close> and every channel
  becomes \<open>-4095 mod 2^16 = 61441\<close>.
\<close>

theorem interpolate_easeInOut_extrapolation_wraps:
  "interpolate_easeInOut (rgb 0 0 0) white 2 = rgb 61441 61441 61441"
  by (simp add: interpolate_easeInOut_def ease_in_out_def ease_channel_def white_def rgb_def c_conv)

end
