(* ===== verification/Pwm.thy ===== *)
theory Pwm
  imports Prelude
begin

text \<open>
  The brightness shaper and the PWM transport of \<open>src/src/main_app.c\<close>:
  \<open>brightness_vals\<close>, \<open>set_pwm_duty\<close> (scaling by the brightness level, the
  full-off encoding of a zero duty and the inversion for common-anode fixtures),
  \<open>pca9685_set_pwm\<close> (the five bytes of one I2C write), \<open>set_rgb_led\<close> (the
  channel mapping and the index check) and \<open>turn_off_all_leds\<close>. Each function
  returns the I2C buffers it writes, in order: the write itself is fire and forget
  in the code (a failure is only logged), so the bus is a log of buffers. The
  decoding functions read a buffer back as (channel, ON, OFF); they state what
  the bytes mean and are not code.
\<close>

unbundle bit_operations_syntax

section \<open>Constants\<close>

definition NUM_LEDS :: nat where
  "NUM_LEDS = 5"

definition CHANNELS_PER_LED :: nat where
  "CHANNELS_PER_LED = 3"

text \<open>\<open>brightness_vals[3] = {4000, 2000, 800}\<close>, indexed by \<open>brightness_level\<close>.\<close>

definition brightness_vals :: "u16 list" where
  "brightness_vals = [4000, 2000, 800]"

section \<open>One PWM write\<close>

text \<open>
  \<open>pca9685_set_pwm(channel, on, off)\<close>: register address \<open>0x06 + 4 * channel\<close>
  stored into a \<open>uint8_t\<close>, then ON and OFF as low and high bytes.
\<close>

definition pca9685_set_pwm :: "u8 \<Rightarrow> u16 \<Rightarrow> u16 \<Rightarrow> u8 list" where
  "pca9685_set_pwm channel on off =
     [0x06 + 4 * channel,
      ucast (on AND 0xFF), ucast (drop_bit 8 on AND 0xFF),
      ucast (off AND 0xFF), ucast (drop_bit 8 off AND 0xFF)]"

text \<open>
  \<open>duty * brightness_vals[brightness_level] / 4095\<close>: both operands are
  promoted to \<open>int\<close>, the quotient truncates, the result is stored into a
  \<open>uint16_t\<close>. The code indexes \<open>brightness_vals\<close> without a check; the level
  is within range in every reachable state (theory \<open>Control\<close>).
\<close>

definition adjusted_duty :: "int \<Rightarrow> u16 \<Rightarrow> u16" where
  "adjusted_duty brightness_level duty =
     word_of_nat (unat duty * unat (brightness_vals ! nat brightness_level) div 4095)"

definition set_pwm_duty :: "int \<Rightarrow> u8 \<Rightarrow> u16 \<Rightarrow> u8 list" where
  "set_pwm_duty brightness_level channel duty =
     (let adj = adjusted_duty brightness_level duty
      in if adj = 0 then pca9685_set_pwm channel 4096 0
         else pca9685_set_pwm channel 0 (4095 - adj))"

text \<open>
  \<open>set_rgb_led(led_index, r, g, b)\<close>: an index at or past \<open>NUM_LEDS\<close> returns
  without writing; otherwise the three channels \<open>3 * led_index + 0, 1, 2\<close>.
\<close>

definition set_rgb_led :: "int \<Rightarrow> u8 \<Rightarrow> u16 \<Rightarrow> u16 \<Rightarrow> u16 \<Rightarrow> u8 list list" where
  "set_rgb_led brightness_level led_index r g b =
     (if NUM_LEDS \<le> unat led_index then []
      else let base_channel = led_index * of_nat CHANNELS_PER_LED
           in [set_pwm_duty brightness_level base_channel r,
               set_pwm_duty brightness_level (base_channel + 1) g,
               set_pwm_duty brightness_level (base_channel + 2) b])"

definition turn_off_all_leds :: "int \<Rightarrow> u8 list list" where
  "turn_off_all_leds brightness_level =
     concat (map (\<lambda>i. set_rgb_led brightness_level (of_nat i) 0 0 0) [0..<NUM_LEDS])"

lemmas pwm_defs = NUM_LEDS_def CHANNELS_PER_LED_def brightness_vals_def pca9685_set_pwm_def
  adjusted_duty_def set_pwm_duty_def set_rgb_led_def turn_off_all_leds_def

section \<open>Reading a buffer back\<close>

text \<open>
  The PCA9685 register block of channel \<open>n\<close> starts at \<open>0x06 + 4 n\<close>
  (\<open>LEDn_ON_L, LEDn_ON_H, LEDn_OFF_L, LEDn_OFF_H\<close>).
\<close>

definition buf_channel :: "u8 list \<Rightarrow> nat" where
  "buf_channel buf = (unat (buf ! 0) - 6) div 4"

definition buf_word :: "u8 \<Rightarrow> u8 \<Rightarrow> u16" where
  "buf_word lo hi = ucast lo OR push_bit 8 (ucast hi)"

definition buf_on :: "u8 list \<Rightarrow> u16" where
  "buf_on buf = buf_word (buf ! 1) (buf ! 2)"

definition buf_off :: "u8 list \<Rightarrow> u16" where
  "buf_off buf = buf_word (buf ! 3) (buf ! 4)"

text \<open>The (ON, OFF) pair \<open>set_pwm_duty\<close> sends for a duty at a level.\<close>

definition pwm_drive :: "int \<Rightarrow> u16 \<Rightarrow> u16 \<times> u16" where
  "pwm_drive l duty =
     (if adjusted_duty l duty = 0 then (4096, 0) else (0, 4095 - adjusted_duty l duty))"

definition decode_pwm :: "u8 list \<Rightarrow> nat \<times> u16 \<times> u16" where
  "decode_pwm buf = (buf_channel buf, buf_on buf, buf_off buf)"

text \<open>A buffer that addresses the first register of some channel block.\<close>

definition pwm_buf_ok :: "u8 list \<Rightarrow> bool" where
  "pwm_buf_ok buf \<longleftrightarrow> length buf = 5 \<and> 6 \<le> unat (buf ! 0) \<and> 4 dvd (unat (buf ! 0) - 6)"

section \<open>Helper lemmas\<close>

lemma byte_mask: "(0xFF :: 'a::len word) = mask 8"
  by (simp add: mask_eq_exp_minus_1)

lemma buf_word_split [simp]:
  "buf_word (ucast (v AND 0xFF)) (ucast (drop_bit 8 v AND 0xFF)) = (v :: u16)"
  unfolding buf_word_def byte_mask
  by (rule bit_word_eqI) (auto simp: bit_simps)

lemma register_address_channel:
  assumes "unat (channel :: u8) \<le> 62"
  shows "(unat ((0x06 :: u8) + 4 * channel) - 6) div 4 = unat channel"
  using assms by (simp add: unat_word_ariths)

lemma length_pca9685_set_pwm [simp]: "length (pca9685_set_pwm ch on off) = 5"
  by (simp add: pca9685_set_pwm_def)

lemma decode_pca9685_set_pwm:
  "unat ch \<le> 62 \<Longrightarrow> decode_pwm (pca9685_set_pwm ch on off) = (unat ch, on, off)"
  by (simp add: decode_pwm_def buf_channel_def buf_on_def buf_off_def
      pca9685_set_pwm_def register_address_channel)

text \<open>The scaled duty: the product of two \<open>uint16_t\<close> values over 4095.\<close>

lemma level_cases:
  assumes "0 \<le> l" "l < (3::int)"
  shows "l = 0 \<or> l = 1 \<or> l = 2"
  using assms by arith

lemma brightness_val_le:
  "0 \<le> l \<Longrightarrow> l < 3 \<Longrightarrow> unat (brightness_vals ! nat l) \<le> 4000"
  by (drule (1) level_cases) (auto simp: brightness_vals_def)

lemma unat_adjusted_duty:
  assumes "0 \<le> l" "l < 3"
  shows "unat (adjusted_duty l duty) = unat duty * unat (brightness_vals ! nat l) div 4095"
proof -
  have "unat duty * unat (brightness_vals ! nat l) \<le> 65535 * 4000"
    using brightness_val_le [OF assms] unat_u16_le [of duty]
    by (intro mult_mono) auto
  then have "unat duty * unat (brightness_vals ! nat l) div 4095 < 2 ^ LENGTH(16)"
    by simp
  then show ?thesis
    unfolding adjusted_duty_def by (rule unat_word_of_nat_small)
qed

lemma byte_of_buf_word_lo [simp]: "ucast (buf_word lo hi AND 0xFF) = lo"
  unfolding buf_word_def byte_mask
  by (rule bit_word_eqI) (auto simp: bit_simps)

lemma byte_of_buf_word_hi [simp]: "ucast (drop_bit 8 (buf_word lo hi) AND 0xFF) = hi"
  unfolding buf_word_def byte_mask
  by (rule bit_word_eqI) (auto simp: bit_simps dest: bit_imp_le_length)

lemma register_address_of_channel:
  assumes "6 \<le> unat (a :: u8)" "4 dvd (unat a - 6)"
  shows "(0x06 :: u8) + 4 * of_nat ((unat a - 6) div 4) = a"
proof -
  have "6 + 4 * ((unat a - 6) div 4) = unat a"
    using assms by (auto elim!: dvdE)
  then have "word_of_nat (6 + 4 * ((unat a - 6) div 4)) = a"
    by simp
  then show ?thesis by simp
qed

lemma adjusted_duty_le:
  assumes "unat duty \<le> 4095" "0 \<le> l" "l < 3"
  shows "unat (adjusted_duty l duty) \<le> 4000"
proof -
  have "unat duty * unat (brightness_vals ! nat l) \<le> 4095 * 4000"
    using assms brightness_val_le [OF assms(2,3)] by (intro mult_mono) auto
  then show ?thesis
    using unat_adjusted_duty [OF assms(2,3)] by simp
qed

lemma brightness_vals_antimono:
  "0 \<le> l \<Longrightarrow> l \<le> l' \<Longrightarrow> l' < 3 \<Longrightarrow>
   unat (brightness_vals ! nat l') \<le> unat (brightness_vals ! nat l)"
proof -
  assume a: "0 \<le> l" "l \<le> l'" "l' < 3"
  then have "l = 0 \<or> l = 1 \<or> l = 2" "l' = 0 \<or> l' = 1 \<or> l' = 2" by arith+
  with a show ?thesis by (auto simp: brightness_vals_def)
qed

lemma adjusted_duty_mono:
  assumes "0 \<le> l" "l \<le> l'" "l' < 3" "d \<le> d'"
  shows "unat (adjusted_duty l' d) \<le> unat (adjusted_duty l d')"
proof -
  have "unat d * unat (brightness_vals ! nat l') \<le> unat d' * unat (brightness_vals ! nat l)"
    using assms brightness_vals_antimono [OF assms(1-3)] by (intro mult_mono) (simp_all add: word_le_nat_alt)
  then show ?thesis
    using unat_adjusted_duty [of l' d] unat_adjusted_duty [of l d'] assms by (simp add: div_le_mono)
qed

lemma decode_set_pwm_duty:
  assumes "unat ch \<le> 62"
  shows "decode_pwm (set_pwm_duty l ch duty) = (unat ch, pwm_drive l duty)"
  using assms by (simp add: set_pwm_duty_def pwm_drive_def Let_def decode_pca9685_set_pwm)

lemma set_pwm_duty_zero_full_off_bytes:
  "set_pwm_duty l ch 0 = [0x06 + 4 * ch, 0, 0x10, 0, 0]"
  by (simp add: set_pwm_duty_def adjusted_duty_def pca9685_set_pwm_def)

lemma set_rgb_led_in_range:
  "unat i < NUM_LEDS \<Longrightarrow> set_rgb_led l i r g b =
     [set_pwm_duty l (i * 3) r, set_pwm_duty l (i * 3 + 1) g, set_pwm_duty l (i * 3 + 2) b]"
  by (simp add: set_rgb_led_def CHANNELS_PER_LED_def Let_def)

lemma unat_led_channel:
  assumes "unat (i :: u8) < NUM_LEDS" "k < 3"
  shows "unat (i * 3 + of_nat k) = 3 * unat i + k"
proof -
  have "3 * unat i + k < 2 ^ LENGTH(8)"
    using assms by (simp add: NUM_LEDS_def)
  then have "unat (word_of_nat (3 * unat i + k) :: u8) = 3 * unat i + k"
    by (rule unat_word_of_nat_small)
  then show ?thesis by (simp add: mult.commute)
qed

lemma turn_off_all_leds_eq:
  "turn_off_all_leds l = map (\<lambda>k. [0x06 + 4 * of_nat k, 0, 0x10, 0, 0]) [0..<15]"
  by (simp add: turn_off_all_leds_def NUM_LEDS_def upt_rec set_rgb_led_def CHANNELS_PER_LED_def
      set_pwm_duty_zero_full_off_bytes)

lemma decode_turn_off_all_leds:
  "map decode_pwm (turn_off_all_leds l) = map (\<lambda>k. (k, 4096, 0)) [0..<15]"
  by (simp add: turn_off_all_leds_eq decode_pwm_def buf_channel_def buf_on_def buf_off_def
      buf_word_def upt_rec)

section \<open>Properties of the shaper and the transport\<close>

text \<open>
  C7: A zero duty, at any brightness level, is sent as the dedicated full-scale
  encoding and never as a near-zero inverted duty: the buffer is
  \<open>[0x06 + 4 ch, 0x00, 0x10, 0x00, 0x00]\<close>, ON = 4096 and OFF = 0. The flag
  bit is bit 4 of the \<open>LEDn_ON_H\<close> byte.
\<close>

theorem set_pwm_duty_zero_full_off:
  "set_pwm_duty l ch 0 = [0x06 + 4 * ch, 0, 0x10, 0, 0] \<and> pwm_drive l 0 = (4096, 0)"
  by (simp add: set_pwm_duty_zero_full_off_bytes pwm_drive_def adjusted_duty_def)

text \<open>
  For the same logical duty, a brighter level never scales to a smaller duty:
  the scaled duty of level 2 (dim) is at most that of level 1, which is at most that
  of level 0 (bright).
\<close>

theorem adjusted_duty_tier_order:
  "unat (adjusted_duty 2 d) \<le> unat (adjusted_duty 1 d) \<and>
   unat (adjusted_duty 1 d) \<le> unat (adjusted_duty 0 d)"
  using unat_adjusted_duty [of 2 d] unat_adjusted_duty [of 1 d] unat_adjusted_duty [of 0 d]
  by (simp add: brightness_vals_def div_le_mono)

text \<open>
  C9: For a duty within the 12-bit range and a valid level, the write is either the
  full-off encoding (exactly when the scaled duty is 0) or an inverted OFF count in
  \<open>[95, 4094]\<close> with ON = 0: the inversion never wraps.
\<close>

theorem set_pwm_duty_bounds:
  assumes "unat duty \<le> 4095" "0 \<le> l" "l < 3" "unat ch \<le> 62"
  shows "(adjusted_duty l duty = 0 \<and> decode_pwm (set_pwm_duty l ch duty) = (unat ch, 4096, 0)) \<or>
         (\<exists>off. decode_pwm (set_pwm_duty l ch duty) = (unat ch, 0, off) \<and>
                95 \<le> unat off \<and> unat off \<le> 4094)"
proof (cases "adjusted_duty l duty = 0")
  case True
  then show ?thesis using decode_set_pwm_duty [OF assms(4)] by (simp add: pwm_drive_def)
next
  case False
  let ?a = "adjusted_duty l duty"
  have le: "unat ?a \<le> 4000" by (rule adjusted_duty_le [OF assms(1-3)])
  have pos: "1 \<le> unat ?a" using False by (simp add: unat_gt_0 Suc_le_eq)
  have "unat ((4095 :: u16) - ?a) = 4095 - unat ?a"
    using le by (subst unat_sub) (simp_all add: word_le_nat_alt)
  with le pos have "95 \<le> unat (4095 - ?a) \<and> unat (4095 - ?a) \<le> 4094" by linarith
  with False show ?thesis using decode_set_pwm_duty [OF assms(4)] by (auto simp: pwm_drive_def)
qed

theorem set_pwm_duty_bounds_witness:
  "(adjusted_duty 1 0 = 0 \<and> decode_pwm (set_pwm_duty 1 4 0) = (unat (4::u8), 4096, 0)) \<or>
   (\<exists>off. decode_pwm (set_pwm_duty 1 4 0) = (unat (4::u8), 0, off) \<and>
          95 \<le> unat off \<and> unat off \<le> 4094)"
  by (rule set_pwm_duty_bounds) simp_all

text \<open>
  The brightness scenario of the specification, level 2 (dim) and logical 4095:
  the code scales by \<open>800/4095\<close> and writes OFF = \<open>4095 - 800 = 3295\<close>.
\<close>

lemma set_pwm_duty_low_full_scale:
  "set_pwm_duty 2 ch 4095 = pca9685_set_pwm ch 0 3295"
  by (simp add: set_pwm_duty_def adjusted_duty_def brightness_vals_def)

text \<open>
  C10: The drive value is monotone, as the specification requires: for 12-bit
  duties \<open>d \<le> d'\<close> and levels \<open>l \<le> l'\<close> (level 0 the brightest), the write
  for the dimmer setting \<open>(l', d)\<close> is either full off, or both writes are
  inverted counts with ON = 0 and the brighter setting's OFF edge comes no later,
  so its common-anode fixture is lit for at least as long in every period.
\<close>

theorem set_pwm_duty_monotone:
  assumes "0 \<le> l" "l \<le> l'" "l' < 3" "d \<le> d'" "unat d' \<le> 4095" "unat ch \<le> 62"
  shows "decode_pwm (set_pwm_duty l' ch d) = (unat ch, 4096, 0) \<or>
         (\<exists>off off'. decode_pwm (set_pwm_duty l' ch d) = (unat ch, 0, off) \<and>
                     decode_pwm (set_pwm_duty l ch d') = (unat ch, 0, off') \<and> off' \<le> off)"
proof (cases "adjusted_duty l' d = 0")
  case True
  then show ?thesis using decode_set_pwm_duty [OF assms(6)] by (simp add: pwm_drive_def)
next
  case False
  let ?a = "adjusted_duty l' d" and ?b = "adjusted_duty l d'"
  have ab: "unat ?a \<le> unat ?b" by (rule adjusted_duty_mono [OF assms(1-4)])
  have b0: "?b \<noteq> 0" using False ab by (auto simp: unat_eq_zero)
  have "unat ?b \<le> 4000" using assms by (intro adjusted_duty_le) simp_all
  then have "4095 - ?b \<le> 4095 - ?a" using ab by (simp add: word_le_nat_alt unat_sub)
  then show ?thesis using decode_set_pwm_duty [OF assms(6)] False b0 by (simp add: pwm_drive_def)
qed

theorem set_pwm_duty_monotone_witness:
  "(0 \<le> (1::int) \<and> 1 \<le> (2::int) \<and> 2 < (3::int) \<and> (100::u16) \<le> 2000 \<and> unat (2000::u16) \<le> 4095 \<and>
    unat (7::u8) \<le> 62) \<and>
   (decode_pwm (set_pwm_duty 2 7 100) = (unat (7::u8), 4096, 0) \<or>
    (\<exists>off off'. decode_pwm (set_pwm_duty 2 7 100) = (unat (7::u8), 0, off) \<and>
                decode_pwm (set_pwm_duty 1 7 2000) = (unat (7::u8), 0, off') \<and> off' \<le> off))"
  using set_pwm_duty_monotone [of 1 2 100 2000 7] by simp

text \<open>
  C11: The I2C buffer of \<open>pca9685_set_pwm\<close> reads back as the channel, ON and
  OFF it was given (for channels whose register address fits a byte), and every
  buffer that addresses a channel block is the one written for what it reads back as.
\<close>

theorem pca9685_buffer_roundtrip:
  "(unat ch \<le> 62 \<longrightarrow> decode_pwm (pca9685_set_pwm ch on off) = (unat ch, on, off)) \<and>
   (pwm_buf_ok buf \<longrightarrow>
      pca9685_set_pwm (of_nat (buf_channel buf)) (buf_on buf) (buf_off buf) = buf)"
proof (intro conjI impI)
  assume "unat ch \<le> 62"
  then show "decode_pwm (pca9685_set_pwm ch on off) = (unat ch, on, off)"
    by (rule decode_pca9685_set_pwm)
next
  assume ok: "pwm_buf_ok buf"
  then obtain a b1 b2 b3 b4 where buf: "buf = [a, b1, b2, b3, b4]"
    by (auto simp: pwm_buf_ok_def numeral_eq_Suc length_Suc_conv)
  have "(0x06 :: u8) + 4 * of_nat ((unat a - 6) div 4) = a"
    using ok by (intro register_address_of_channel) (simp_all add: pwm_buf_ok_def buf)
  then show "pca9685_set_pwm (of_nat (buf_channel buf)) (buf_on buf) (buf_off buf) = buf"
    by (simp add: buf pca9685_set_pwm_def buf_channel_def buf_on_def buf_off_def)
qed

theorem pca9685_buffer_roundtrip_witness:
  "decode_pwm (pca9685_set_pwm 14 0 3295) = (14, 0, 3295) \<and>
   pca9685_set_pwm (of_nat (buf_channel [62, 0, 0, 223, 12])) (buf_on [62, 0, 0, 223, 12])
     (buf_off [62, 0, 0, 223, 12]) = [62, 0, 0, 223, 12]"
  using pca9685_buffer_roundtrip [of "14 :: u8" 0 3295 "[62, 0, 0, 223, 12]"]
  by (simp add: pwm_buf_ok_def)

text \<open>
  C12: \<open>set_rgb_led\<close> with an index at or past \<open>NUM_LEDS\<close> writes nothing: an
  out-of-range fixture is a silent no-op.
\<close>

theorem set_rgb_led_out_of_range:
  "NUM_LEDS \<le> unat i \<Longrightarrow> set_rgb_led l i r g b = []"
  by (simp add: set_rgb_led_def)

theorem set_rgb_led_out_of_range_witness:
  "NUM_LEDS \<le> unat (7 :: u8) \<and> set_rgb_led 1 7 4095 4095 4095 = []"
  using set_rgb_led_out_of_range [of "7 :: u8" 1 4095 4095 4095]
  by (simp add: NUM_LEDS_def)

text \<open>
  Fixture \<open>i\<close> (in range) is driven through channels \<open>3i\<close>, \<open>3i+1\<close>,
  \<open>3i+2\<close>, in that order, each with the shaped duty of its own colour channel.
\<close>

theorem set_rgb_led_channel_map:
  assumes "unat i < NUM_LEDS"
  shows "map decode_pwm (set_rgb_led l i r g b) =
           [(3 * unat i, pwm_drive l r), (3 * unat i + 1, pwm_drive l g),
            (3 * unat i + 2, pwm_drive l b)]"
proof -
  have "unat (i * 3 + of_nat 0) = 3 * unat i + 0" "unat (i * 3 + of_nat 1) = 3 * unat i + 1"
    "unat (i * 3 + of_nat 2) = 3 * unat i + 2"
    by (rule unat_led_channel [OF assms], simp)+
  then have ch: "unat (i * 3) = 3 * unat i" "unat (i * 3 + 1) = 3 * unat i + 1"
    "unat (i * 3 + 2) = 3 * unat i + 2"
    by simp_all
  have le: "3 * unat i + 2 \<le> 62" using assms by (simp add: NUM_LEDS_def)
  show ?thesis
    using assms le by (simp add: set_rgb_led_in_range decode_set_pwm_duty ch)
qed

theorem set_rgb_led_channel_map_witness:
  "unat (4 :: u8) < NUM_LEDS \<and>
   map decode_pwm (set_rgb_led 0 4 0 4095 2048) =
     [(12, pwm_drive 0 0), (13, pwm_drive 0 4095), (14, pwm_drive 0 2048)]"
  using set_rgb_led_channel_map [of "4 :: u8" 0 0 4095 2048]
  by (simp add: NUM_LEDS_def)

text \<open>
  \<open>turn_off_all_leds\<close> writes fifteen buffers, to channels 0 to 14 in
  order, each with the full-off encoding (ON = 4096, OFF = 0), at any brightness
  level.
\<close>

theorem turn_off_all_leds_full_off:
  "map buf_channel (turn_off_all_leds l) = [0..<15] \<and>
   map tl (turn_off_all_leds l) = replicate 15 [0, 0x10, 0, 0]"
proof
  show "map buf_channel (turn_off_all_leds l) = [0..<15]"
    by (simp add: turn_off_all_leds_eq buf_channel_def upt_rec)
  have "map tl (turn_off_all_leds l) = map (\<lambda>_. [0, 0x10, 0, 0]) [0..<15]"
    by (simp add: turn_off_all_leds_eq)
  then show "map tl (turn_off_all_leds l) = replicate 15 [0, 0x10, 0, 0]"
    by (simp add: map_replicate_const)
qed

end
