(* ===== verification/Control.thy ===== *)
theory Control
  imports Pwm
begin

text \<open>
  The process-wide control state and the input path: the globals
  \<open>brightness_level\<close>, \<open>led_on\<close>, \<open>transition_mode\<close> (\<open>src/src/main_app.c\<close>)
  and \<open>mode_changed\<close> (\<open>src/src/buttons.c\<close>) as one record; the button
  interrupt handler \<open>button_isr_handler\<close> with its debounce table and the event
  queue it posts to; and one iteration of \<open>button_task\<close>, which takes the head of
  the queue and runs the matching case of its \<open>switch\<close>. The FreeRTOS queue
  primitives are modelled from their documented behaviour (a full queue drops the
  item sent from an interrupt).
\<close>

section \<open>Control state\<close>

record ctrl_state =
  brightness_level :: int
  led_on :: bool
  transition_mode :: int
  mode_changed :: bool

text \<open>The initialisers of the globals.\<close>

definition ctrl_init :: ctrl_state where
  "ctrl_init = \<lparr>brightness_level = 1, led_on = True, transition_mode = 0, mode_changed = False\<rparr>"

text \<open>The range the code relies on: the level indexes \<open>brightness_vals\<close>.\<close>

definition ctrl_ok :: "ctrl_state \<Rightarrow> bool" where
  "ctrl_ok c \<longleftrightarrow> 0 \<le> transition_mode c \<and> transition_mode c < 3 \<and>
                0 \<le> brightness_level c \<and> brightness_level c < 3"

section \<open>Button events\<close>

text \<open>
  \<open>button_event_t\<close>; the ISR casts its button index to it, so a value outside
  the enumeration is representable, and the task's \<open>default:\<close> branch handles it.
\<close>

datatype button_event_t =
  BTN_EVENT_MODE | BTN_EVENT_TOGGLE | BTN_EVENT_BRIGHT | BTN_EVENT_OTHER int

definition button_event_of_idx :: "int \<Rightarrow> button_event_t" where
  "button_event_of_idx i =
     (if i = 0 then BTN_EVENT_MODE else if i = 1 then BTN_EVENT_TOGGLE
      else if i = 2 then BTN_EVENT_BRIGHT else BTN_EVENT_OTHER i)"

text \<open>
  The body of \<open>switch (evt)\<close> in \<open>button_task\<close>: the new control state and the
  I2C buffers written (\<open>turn_off_all_leds()\<close> when the toggle switches off).
\<close>

fun handle_button_event :: "ctrl_state \<Rightarrow> button_event_t \<Rightarrow> ctrl_state \<times> u8 list list" where
  "handle_button_event c BTN_EVENT_MODE =
     (c\<lparr>transition_mode := c_mod (transition_mode c + 1) 3, mode_changed := True\<rparr>, [])"
| "handle_button_event c BTN_EVENT_TOGGLE =
     (let c' = c\<lparr>led_on := \<not> led_on c\<rparr>
      in (c', if \<not> led_on c' then turn_off_all_leds (brightness_level c') else []))"
| "handle_button_event c BTN_EVENT_BRIGHT =
     (c\<lparr>brightness_level := c_mod (brightness_level c + 1) 3\<rparr>, [])"
| "handle_button_event c (BTN_EVENT_OTHER _) = (c, [])"

section \<open>Interrupt handler and queue\<close>

definition DEBOUNCE_TIME :: int where
  "DEBOUNCE_TIME = 400"

text \<open>\<open>xQueueCreate(10, sizeof(button_event_t))\<close>.\<close>

definition QUEUE_LENGTH :: nat where
  "QUEUE_LENGTH = 10"

text \<open>\<open>xQueueSendFromISR\<close>: appends, or drops the item when the queue is full.\<close>

definition xQueueSendFromISR :: "button_event_t list \<Rightarrow> button_event_t \<Rightarrow> button_event_t list" where
  "xQueueSendFromISR q e = (if length q < QUEUE_LENGTH then q @ [e] else q)"

record btn_state =
  last_btn_press_time :: "int list"
  button_evt_queue :: "button_event_t list"

definition btn_init :: btn_state where
  "btn_init = \<lparr>last_btn_press_time = [0, 0, 0], button_evt_queue = []\<rparr>"

text \<open>
  \<open>button_isr_handler(arg)\<close> at timer value \<open>now_us\<close> (microseconds, from
  \<open>esp_timer_get_time()\<close>): the press is taken when more than
  \<open>DEBOUNCE_TIME\<close> milliseconds passed since the last press taken for that
  button; the time is then recorded whether or not the queue had room.
\<close>

definition debounce_ok :: "int \<Rightarrow> int \<Rightarrow> btn_state \<Rightarrow> bool" where
  "debounce_ok now_us btn_idx s \<longleftrightarrow>
     c_div now_us 1000 - last_btn_press_time s ! nat btn_idx > DEBOUNCE_TIME"

definition button_isr_handler :: "int \<Rightarrow> int \<Rightarrow> btn_state \<Rightarrow> btn_state" where
  "button_isr_handler now_us btn_idx s =
     (let current_time = c_div now_us 1000
      in if debounce_ok now_us btn_idx s
         then s\<lparr>button_evt_queue :=
                   xQueueSendFromISR (button_evt_queue s) (button_event_of_idx btn_idx),
                 last_btn_press_time := (last_btn_press_time s)[nat btn_idx := current_time]\<rparr>
         else s)"

section \<open>Button wiring\<close>

text \<open>The GPIO pins of the three buttons (\<open>buttons.h\<close>).\<close>

definition BTN_MODE :: int where
  "BTN_MODE = 3"

definition BTN_TOGGLE :: int where
  "BTN_TOGGLE = 1"

definition BTN_BRIGHT :: int where
  "BTN_BRIGHT = 10"

text \<open>
  The GPIO interrupt table: for each pin with a registered handler, the argument
  \<open>button_isr_handler\<close> receives on a falling edge of that pin.
\<close>

type_synonym isr_table = "int \<rightharpoonup> int"

text \<open>
  \<open>setup_button_interrupt(gpio, btn_idx)\<close>: \<open>gpio_config\<close> makes the pin a
  pulled-up input interrupting on the falling edge and \<open>gpio_isr_handler_add\<close>
  registers \<open>button_isr_handler\<close> with argument \<open>btn_idx\<close> for it, replacing an
  earlier handler of the pin. The driver calls' results are ignored by the code.
\<close>

definition setup_button_interrupt :: "int \<Rightarrow> int \<Rightarrow> isr_table \<Rightarrow> isr_table" where
  "setup_button_interrupt gpio btn_idx t = t(gpio \<mapsto> btn_idx)"

text \<open>\<open>buttons_init()\<close>: the three registrations (the function is declared but never called).\<close>

definition buttons_init :: "isr_table \<Rightarrow> isr_table" where
  "buttons_init t =
     setup_button_interrupt BTN_BRIGHT 2 (setup_button_interrupt BTN_TOGGLE 1 (setup_button_interrupt BTN_MODE 0 t))"

text \<open>
  One iteration of \<open>button_task\<close>: \<open>xQueueReceive(..., portMAX_DELAY)\<close>
  blocks while the queue is empty (\<open>None\<close>: no step), otherwise takes the head.
\<close>

definition button_task_step :: "ctrl_state \<Rightarrow> btn_state \<Rightarrow> (ctrl_state \<times> btn_state \<times> u8 list list) option" where
  "button_task_step c s =
     (case button_evt_queue s of
        [] \<Rightarrow> None
      | evt # rest \<Rightarrow>
          (let (c', w) = handle_button_event c evt
           in Some (c', s\<lparr>button_evt_queue := rest\<rparr>, w)))"

text \<open>
  A sequence of presses \<open>(now_us, btn_idx)\<close> through the handler, with the
  presses that passed the debounce test, as \<open>(btn_idx, time in ms)\<close>.
\<close>

fun isr_run :: "(int \<times> int) list \<Rightarrow> btn_state \<Rightarrow> btn_state \<times> (int \<times> int) list" where
  "isr_run [] s = (s, [])"
| "isr_run ((t, i) # ps) s =
     (let (s', acc) = isr_run ps (button_isr_handler t i s)
      in (s', if debounce_ok t i s then (i, c_div t 1000) # acc else acc))"

text \<open>
  The input path as a sequence of its two kinds of steps: an interrupt for a press
  of button \<open>btn_idx\<close> at \<open>now_us\<close>, or one iteration of \<open>button_task\<close>;
  the I2C buffers the task writes are collected in order.
\<close>

datatype input_action = Press int int | Serve

fun input_apply ::
  "ctrl_state \<times> btn_state \<times> u8 list list \<Rightarrow> input_action \<Rightarrow> ctrl_state \<times> btn_state \<times> u8 list list" where
  "input_apply (c, s, w) (Press t i) = (c, button_isr_handler t i s, w)"
| "input_apply (c, s, w) Serve =
     (case button_task_step c s of
        None \<Rightarrow> (c, s, w)
      | Some (c', s', w') \<Rightarrow> (c', s', w @ w'))"

definition input_run ::
  "ctrl_state \<times> btn_state \<times> u8 list list \<Rightarrow> input_action list \<Rightarrow> ctrl_state \<times> btn_state \<times> u8 list list" where
  "input_run st acts = foldl input_apply st acts"

definition press_ok :: "input_action \<Rightarrow> bool" where
  "press_ok a = (case a of Press t i \<Rightarrow> 0 \<le> i \<and> i < 3 | Serve \<Rightarrow> True)"

definition btn_ok :: "btn_state \<Rightarrow> bool" where
  "btn_ok s \<longleftrightarrow> length (last_btn_press_time s) = 3 \<and> length (button_evt_queue s) \<le> QUEUE_LENGTH"

lemmas control_defs = ctrl_init_def ctrl_ok_def button_event_of_idx_def DEBOUNCE_TIME_def
  QUEUE_LENGTH_def xQueueSendFromISR_def btn_init_def debounce_ok_def button_isr_handler_def
  button_task_step_def btn_ok_def

section \<open>Lemmas\<close>

lemma ctrl_ok_init [simp]: "ctrl_ok ctrl_init"
  by (simp add: ctrl_ok_def ctrl_init_def)

lemma c_mod_succ_range: "0 \<le> x \<Longrightarrow> 0 \<le> c_mod (x + 1) 3 \<and> c_mod (x + 1) 3 < 3"
  by simp

lemma handle_button_event_ctrl_ok:
  "ctrl_ok c \<Longrightarrow> ctrl_ok (fst (handle_button_event c e))"
  by (cases e) (auto simp: ctrl_ok_def Let_def)

lemma button_isr_handler_cases:
  "button_isr_handler t i s =
     (if debounce_ok t i s
      then s\<lparr>button_evt_queue := xQueueSendFromISR (button_evt_queue s) (button_event_of_idx i),
             last_btn_press_time := (last_btn_press_time s)[nat i := c_div t 1000]\<rparr>
      else s)"
  by (simp add: button_isr_handler_def Let_def)

lemma length_xQueueSendFromISR:
  "length q \<le> QUEUE_LENGTH \<Longrightarrow> length (xQueueSendFromISR q e) \<le> QUEUE_LENGTH"
  by (simp add: xQueueSendFromISR_def)

text \<open>The wiring: each button's pin delivers its own event index, and no other pin has a handler.\<close>

lemma buttons_init_table:
  "buttons_init Map.empty BTN_MODE = Some 0 \<and> buttons_init Map.empty BTN_TOGGLE = Some 1 \<and>
   buttons_init Map.empty BTN_BRIGHT = Some 2 \<and> dom (buttons_init Map.empty) = {BTN_MODE, BTN_TOGGLE, BTN_BRIGHT}"
  by (auto simp: buttons_init_def setup_button_interrupt_def BTN_MODE_def BTN_TOGGLE_def BTN_BRIGHT_def)

lemma buttons_init_range: "buttons_init Map.empty g = Some i \<Longrightarrow> 0 \<le> i \<and> i < 3"
  by (auto simp: buttons_init_def setup_button_interrupt_def split: if_splits)

lemma btn_ok_isr: "btn_ok s \<Longrightarrow> btn_ok (button_isr_handler t i s)"
  by (simp add: button_isr_handler_cases btn_ok_def length_xQueueSendFromISR)

lemma btn_ok_task:
  "button_task_step c s = Some (c', s', w) \<Longrightarrow> btn_ok s \<Longrightarrow> btn_ok s'"
  by (auto simp: button_task_step_def btn_ok_def split: list.splits prod.splits)

lemma button_task_step_ctrl_ok:
  "button_task_step c s = Some (c', s', w) \<Longrightarrow> ctrl_ok c \<Longrightarrow> ctrl_ok c'"
  by (auto simp: button_task_step_def split: list.splits prod.splits
      dest: handle_button_event_ctrl_ok [where e = "hd (button_evt_queue s)"])

lemma input_apply_ok:
  assumes "ctrl_ok c" "btn_ok s"
  shows "ctrl_ok (fst (input_apply (c, s, w) a)) \<and> btn_ok (fst (snd (input_apply (c, s, w) a)))"
proof (cases a)
  case (Press t i)
  then show ?thesis using assms by (simp add: btn_ok_isr)
next
  case Serve
  show ?thesis
  proof (cases "button_task_step c s")
    case None
    then show ?thesis using assms Serve by simp
  next
    case (Some r)
    then obtain c' s' w' where r: "button_task_step c s = Some (c', s', w')"
      by (cases r) auto
    then show ?thesis
      using assms Serve button_task_step_ctrl_ok [OF r] btn_ok_task [OF r] by simp
  qed
qed

lemma isr_run_Cons [simp]:
  "fst (isr_run ((t, i) # ps) s) = fst (isr_run ps (button_isr_handler t i s))"
  "snd (isr_run ((t, i) # ps) s) =
     (if debounce_ok t i s then [(i, c_div t 1000)] else []) @ snd (isr_run ps (button_isr_handler t i s))"
  by (simp_all add: Let_def split_def)

declare isr_run.simps(2) [simp del]

lemma isr_last_mono:
  assumes "0 \<le> j" "j < 3" "length (last_btn_press_time s) = 3"
  shows "last_btn_press_time s ! k \<le> last_btn_press_time (button_isr_handler t j s) ! k"
  using assms
  by (auto simp: button_isr_handler_cases debounce_ok_def DEBOUNCE_TIME_def nth_list_update)

lemma isr_len [simp]:
  "length (last_btn_press_time (button_isr_handler t j s)) = length (last_btn_press_time s)"
  by (simp add: button_isr_handler_cases)

text \<open>Every press taken during a run came more than 400 ms after the initial entry.\<close>

lemma isr_run_accepted_after:
  assumes "length (last_btn_press_time s) = 3" "\<forall>(t, i) \<in> set ps. 0 \<le> i \<and> i < 3"
    and "(i, t) \<in> set (snd (isr_run ps s))"
  shows "last_btn_press_time s ! nat i + DEBOUNCE_TIME < t"
  using assms
proof (induction ps arbitrary: s)
  case Nil
  then show ?case by simp
next
  case (Cons p ps)
  obtain t0 i0 where p: "p = (t0, i0)" by (cases p)
  let ?s1 = "button_isr_handler t0 i0 s"
  have r0: "0 \<le> i0" "i0 < 3" using Cons.prems(2) p by auto
  show ?case
  proof (cases "(i, t) \<in> set (snd (isr_run ps ?s1))")
    case True
    have "last_btn_press_time ?s1 ! nat i + DEBOUNCE_TIME < t"
      using Cons.IH [of ?s1] Cons.prems True by simp
    moreover have "last_btn_press_time s ! nat i \<le> last_btn_press_time ?s1 ! nat i"
      using isr_last_mono [OF r0 Cons.prems(1)] .
    ultimately show ?thesis by simp
  next
    case False
    then have "debounce_ok t0 i0 s \<and> i = i0 \<and> t = c_div t0 1000"
      using Cons.prems(3) p by (auto simp: isr_run_Cons split: if_splits)
    then show ?thesis by (auto simp: debounce_ok_def)
  qed
qed

section \<open>Properties of the input path\<close>

text \<open>
  C15: A mode-advance event sets \<open>transition_mode\<close> to \<open>(mode + 1) mod 3\<close>, raises
  \<open>mode_changed\<close>, changes nothing else and writes nothing; three of them bring the
  mode back to where it was.
\<close>

theorem mode_event_advances:
  assumes "ctrl_ok c"
  shows "handle_button_event c BTN_EVENT_MODE =
           (c\<lparr>transition_mode := (transition_mode c + 1) mod 3, mode_changed := True\<rparr>, []) \<and>
         transition_mode (fst (handle_button_event (fst (handle_button_event
           (fst (handle_button_event c BTN_EVENT_MODE)) BTN_EVENT_MODE)) BTN_EVENT_MODE)) =
           transition_mode c"
proof -
  have "transition_mode c = 0 \<or> transition_mode c = 1 \<or> transition_mode c = 2"
    using assms by (auto simp: ctrl_ok_def)
  then show ?thesis using assms by (auto simp: ctrl_ok_def)
qed

theorem mode_event_advances_witness:
  "ctrl_ok ctrl_init \<and>
   handle_button_event ctrl_init BTN_EVENT_MODE =
     (ctrl_init\<lparr>transition_mode := 1, mode_changed := True\<rparr>, [])"
  using mode_event_advances [of ctrl_init] by (simp add: ctrl_init_def ctrl_ok_def)

text \<open>
  C16: A power-toggle event that switches the fixtures off clears \<open>led_on\<close> and
  writes the full-off encoding to all fifteen channels; one that switches them on
  sets \<open>led_on\<close> and writes nothing.
\<close>

theorem toggle_event_power:
  "(led_on c \<longrightarrow> \<not> led_on (fst (handle_button_event c BTN_EVENT_TOGGLE)) \<and>
      map decode_pwm (snd (handle_button_event c BTN_EVENT_TOGGLE)) = map (\<lambda>k. (k, 4096, 0)) [0..<15]) \<and>
   (\<not> led_on c \<longrightarrow> led_on (fst (handle_button_event c BTN_EVENT_TOGGLE)) \<and>
      snd (handle_button_event c BTN_EVENT_TOGGLE) = [])"
  by (simp add: decode_turn_off_all_leds)

theorem toggle_event_power_witness:
  "led_on ctrl_init \<and> \<not> led_on (fst (handle_button_event ctrl_init BTN_EVENT_TOGGLE)) \<and>
   map decode_pwm (snd (handle_button_event ctrl_init BTN_EVENT_TOGGLE)) = map (\<lambda>k. (k, 4096, 0)) [0..<15]"
  using toggle_event_power [of ctrl_init] by (simp add: ctrl_init_def)

text \<open>
  C17: Every run of the input path (interrupts and iterations of the button task,
  in any interleaving) keeps the mode and the brightness level in \<open>{0, 1, 2}\<close>,
  the debounce table at three entries and the event queue within its ten slots.
\<close>

theorem input_run_invariant:
  assumes "ctrl_ok c" "btn_ok s"
  shows "ctrl_ok (fst (input_run (c, s, w) acts)) \<and> btn_ok (fst (snd (input_run (c, s, w) acts)))"
  using assms
proof (induction acts arbitrary: c s w rule: rev_induct)
  case Nil
  then show ?case by (simp add: input_run_def)
next
  case (snoc a acts)
  obtain c1 s1 w1 where r: "input_run (c, s, w) acts = (c1, s1, w1)"
    by (cases "input_run (c, s, w) acts")
  from snoc.IH [OF snoc.prems, of w] r have "ctrl_ok c1" "btn_ok s1" by simp_all
  then show ?case using input_apply_ok r by (simp add: input_run_def)
qed

theorem input_run_invariant_witness:
  "ctrl_ok ctrl_init \<and> btn_ok btn_init \<and>
   ctrl_ok (fst (input_run (ctrl_init, btn_init, []) [Press 500000 0, Serve])) \<and>
   btn_ok (fst (snd (input_run (ctrl_init, btn_init, []) [Press 500000 0, Serve])))"
  using input_run_invariant [of ctrl_init btn_init "[]" "[Press 500000 0, Serve]"]
  by (simp add: btn_ok_def btn_init_def QUEUE_LENGTH_def)

text \<open>
  C18: Debouncing: along any sequence of interrupts with valid button indices, two
  presses of the same button that pass the debounce test are more than
  \<open>DEBOUNCE_TIME\<close> = 400 ms apart, in the order they occurred.
\<close>

theorem debounce_min_interval:
  assumes "length (last_btn_press_time s) = 3" "\<forall>(t, i) \<in> set ps. 0 \<le> i \<and> i < 3"
  shows "sorted_wrt (\<lambda>(i1, t1) (i2, t2). i1 = i2 \<longrightarrow> DEBOUNCE_TIME < t2 - t1) (snd (isr_run ps s))"
  using assms
proof (induction ps arbitrary: s)
  case Nil
  then show ?case by simp
next
  case (Cons p ps)
  obtain t0 i0 where p: "p = (t0, i0)" by (cases p)
  let ?s1 = "button_isr_handler t0 i0 s"
  have len1: "length (last_btn_press_time ?s1) = 3" using Cons.prems(1) by simp
  have rng: "\<forall>(t, i) \<in> set ps. 0 \<le> i \<and> i < 3" using Cons.prems(2) by simp
  have r0: "0 \<le> i0" "i0 < 3" using Cons.prems(2) p by auto
  have tail: "sorted_wrt (\<lambda>(i1, t1) (i2, t2). i1 = i2 \<longrightarrow> DEBOUNCE_TIME < t2 - t1)
                (snd (isr_run ps ?s1))"
    using Cons.IH [OF len1 rng] .
  have later: "DEBOUNCE_TIME < t - c_div t0 1000"
    if "debounce_ok t0 i0 s" "(i0, t) \<in> set (snd (isr_run ps ?s1))" for t
  proof -
    have "last_btn_press_time ?s1 ! nat i0 + DEBOUNCE_TIME < t"
      using isr_run_accepted_after [OF len1 rng that(2)] .
    moreover have "last_btn_press_time ?s1 ! nat i0 = c_div t0 1000"
      using that(1) r0 Cons.prems(1) by (simp add: button_isr_handler_cases)
    ultimately show ?thesis by simp
  qed
  show ?case using tail later by (auto simp: p isr_run_Cons)
qed

theorem debounce_min_interval_witness:
  "snd (isr_run [(500000, 0), (700000, 0), (1000000, 0)] btn_init) = [(0, 500), (0, 1000)] \<and>
   sorted_wrt (\<lambda>(i1, t1) (i2, t2). i1 = i2 \<longrightarrow> DEBOUNCE_TIME < t2 - t1)
     (snd (isr_run [(500000, 0), (700000, 0), (1000000, 0)] btn_init))"
proof -
  have "snd (isr_run [(500000, 0), (700000, 0), (1000000, 0)] btn_init) = [(0, 500), (0, 1000)]"
    by (simp add: isr_run_Cons button_isr_handler_cases debounce_ok_def DEBOUNCE_TIME_def
        btn_init_def xQueueSendFromISR_def QUEUE_LENGTH_def)
  moreover have "sorted_wrt (\<lambda>(i1, t1) (i2, t2). i1 = i2 \<longrightarrow> DEBOUNCE_TIME < t2 - t1)
     (snd (isr_run [(500000, 0), (700000, 0), (1000000, 0)] btn_init))"
    by (rule debounce_min_interval) (simp_all add: btn_init_def)
  ultimately show ?thesis by simp
qed

text \<open>
  The debounce table starts at 0 ms, so a press within the first 400 ms after
  boot is never taken: the handler leaves the state unchanged.
\<close>

theorem early_press_ignored:
  assumes "0 \<le> now_us" "now_us < 401000" "0 \<le> i" "i < 3"
  shows "button_isr_handler now_us i btn_init = btn_init"
proof -
  have "c_div now_us 1000 \<le> 400" using assms(1,2) by simp
  moreover have "last_btn_press_time btn_init ! nat i = 0"
    using level_cases [OF assms(3,4)] by (auto simp: btn_init_def)
  ultimately show ?thesis by (simp add: button_isr_handler_cases debounce_ok_def DEBOUNCE_TIME_def)
qed

theorem early_press_ignored_witness:
  "button_isr_handler 400999 0 btn_init = btn_init"
  by (rule early_press_ignored) simp_all

text \<open>
  C20: A press that passes the debounce test while the queue is full is dropped,
  yet its time is recorded: it restarts the 400 ms window although no event was
  posted.
\<close>

theorem dropped_press_restarts_debounce:
  assumes "length (button_evt_queue s) = QUEUE_LENGTH" "debounce_ok t i s"
  shows "button_evt_queue (button_isr_handler t i s) = button_evt_queue s \<and>
         last_btn_press_time (button_isr_handler t i s) =
           (last_btn_press_time s)[nat i := c_div t 1000]"
  using assms by (simp add: button_isr_handler_cases xQueueSendFromISR_def)

theorem dropped_press_restarts_debounce_witness:
  "button_evt_queue (button_isr_handler 900000 1
      \<lparr>last_btn_press_time = [0, 0, 0], button_evt_queue = replicate 10 BTN_EVENT_MODE\<rparr>) =
     replicate 10 BTN_EVENT_MODE \<and>
   last_btn_press_time (button_isr_handler 900000 1
      \<lparr>last_btn_press_time = [0, 0, 0], button_evt_queue = replicate 10 BTN_EVENT_MODE\<rparr>) =
     [0, 900, 0]"
  using dropped_press_restarts_debounce [of
      "\<lparr>last_btn_press_time = [0, 0, 0], button_evt_queue = replicate 10 BTN_EVENT_MODE\<rparr>" 900000 1]
  by (simp add: QUEUE_LENGTH_def debounce_ok_def DEBOUNCE_TIME_def)

end
