(* ===== verification/Effect.thy ===== *)
theory Effect
  imports Color Control
begin

text \<open>
  What the three effect functions of \<open>src/src/transitons.c\<close> share: the calls they
  make (\<open>set_rgb_led\<close> and \<open>vTaskDelay\<close>), their tuning constants, the shape of
  one step of an effect and a fuel-bounded run of an effect under a fixed control
  state. Each effect is a small-step machine whose steps end at the code's calls:
  a step makes at most one call, and reads the shared globals exactly where the code
  reads them, so the input path may run between any two steps.
\<close>

section \<open>Calls and steps\<close>

text \<open>
  \<open>SetLed i r g b\<close> is the call \<open>set_rgb_led(i, r, g, b)\<close> and \<open>Delay ms\<close> the call
  \<open>vTaskDelay(ms / portTICK_PERIOD_MS)\<close>, kept in milliseconds.
\<close>

datatype anim_out = SetLed nat u16 u16 u16 | Delay nat

text \<open>
  One step of an effect: it goes on in a new state, making at most one call, or the
  effect function returns (with the values of its \<open>static\<close> variables).
\<close>

datatype ('s, 'r) eff_step = Emit 's "anim_out option" | Done 'r

definition FADE_STEPS :: nat where
  "FADE_STEPS = 100"

definition FADE_DELAY_MS :: nat where
  "FADE_DELAY_MS = 40"

definition HOLD_TIME_MIN_MS :: nat where
  "HOLD_TIME_MIN_MS = 1000"

definition HOLD_TIME_MAX_MS :: nat where
  "HOLD_TIME_MAX_MS = 3000"

primrec out_list :: "anim_out option \<Rightarrow> anim_out list" where
  "out_list None = []"
| "out_list (Some a) = [a]"

primrec is_delay :: "anim_out \<Rightarrow> bool" where
  "is_delay (SetLed _ _ _ _) = False"
| "is_delay (Delay _) = True"

text \<open>Milliseconds slept by a call, and by a list of calls.\<close>

primrec out_ms :: "anim_out \<Rightarrow> nat" where
  "out_ms (SetLed _ _ _ _) = 0"
| "out_ms (Delay ms) = ms"

definition delay_total :: "anim_out list \<Rightarrow> nat" where
  "delay_total os = sum_list (map out_ms os)"

text \<open>
  A run of at most \<open>n\<close> steps under a fixed control state, the \<open>k\<close>-th step drawing
  \<open>rnd k\<close> from \<open>esp_random()\<close> if it draws: the calls made, and \<open>Inl\<close> of the
  state reached or \<open>Inr\<close> of what the function returned.
\<close>

fun eff_run ::
  "(ctrl_state \<Rightarrow> u32 \<Rightarrow> 's \<Rightarrow> ('s, 'r) eff_step) \<Rightarrow> nat \<Rightarrow> ctrl_state \<Rightarrow> (nat \<Rightarrow> u32) \<Rightarrow> 's
   \<Rightarrow> anim_out list \<times> ('s + 'r)" where
  "eff_run step 0 c rnd s = ([], Inl s)"
| "eff_run step (Suc n) c rnd s =
     (case step c (rnd 0) s of
        Done r \<Rightarrow> ([], Inr r)
      | Emit s' out \<Rightarrow>
          (let (os, res) = eff_run step n c (\<lambda>k. rnd (Suc k)) s'
           in (out_list out @ os, res)))"

lemmas effect_defs = FADE_STEPS_def FADE_DELAY_MS_def HOLD_TIME_MIN_MS_def HOLD_TIME_MAX_MS_def

section \<open>Runs\<close>

lemma eff_run_Done [simp]:
  "step c (rnd 0) s = Done r \<Longrightarrow> eff_run step (Suc n) c rnd s = ([], Inr r)"
  by simp

lemma eff_run_Emit [simp]:
  "step c (rnd 0) s = Emit s' out \<Longrightarrow>
   eff_run step (Suc n) c rnd s =
     (out_list out @ fst (eff_run step n c (\<lambda>k. rnd (Suc k)) s'),
      snd (eff_run step n c (\<lambda>k. rnd (Suc k)) s'))"
  by (simp add: split_def Let_def)

declare eff_run.simps(2) [simp del]

text \<open>A run of \<open>m + n\<close> steps is a run of \<open>m\<close> steps followed by one of \<open>n\<close>.\<close>

lemma eff_run_add:
  "eff_run step (m + n) c rnd s =
     (case eff_run step m c rnd s of
        (os, Inr r) \<Rightarrow> (os, Inr r)
      | (os, Inl s') \<Rightarrow>
          (os @ fst (eff_run step n c (\<lambda>k. rnd (k + m)) s'),
           snd (eff_run step n c (\<lambda>k. rnd (k + m)) s')))"
proof (induction m arbitrary: rnd s)
  case 0
  then show ?case by simp
next
  case (Suc m)
  show ?case
  proof (cases "step c (rnd 0) s")
    case (Emit s' out)
    obtain os res where Y: "eff_run step m c (\<lambda>k. rnd (Suc k)) s' = (os, res)"
      by (cases "eff_run step m c (\<lambda>k. rnd (Suc k)) s'")
    have IH: "eff_run step (m + n) c (\<lambda>k. rnd (Suc k)) s' =
      (case (os, res) of
         (os, Inr r) \<Rightarrow> (os, Inr r)
       | (os, Inl s'') \<Rightarrow>
           (os @ fst (eff_run step n c (\<lambda>k. rnd (Suc (k + m))) s''),
            snd (eff_run step n c (\<lambda>k. rnd (Suc (k + m))) s'')))"
      using Suc.IH [of "\<lambda>k. rnd (Suc k)" s'] Y by simp
    show ?thesis
    proof (cases res)
      case (Inl s'')
      then show ?thesis using Emit Y IH by simp
    next
      case (Inr r)
      then show ?thesis using Emit Y IH by simp
    qed
  next
    case (Done r)
    then show ?thesis by simp
  qed
qed

text \<open>
  Termination of an effect under a fixed control state: a measure that every step
  from a state in \<open>P\<close> decreases, into \<open>P\<close> again, bounds the number of steps
  before the function returns.
\<close>

lemma eff_run_returns:
  assumes step: "\<And>r s. P s \<Longrightarrow>
     (case step c r s of Done _ \<Rightarrow> True | Emit s' _ \<Rightarrow> P s' \<and> m s' < m s)"
    and "P s"
  shows "\<exists>os r. eff_run step (Suc (m s)) c rnd s = (os, Inr r)"
  using assms(2)
proof (induction "m s" arbitrary: s rnd rule: less_induct)
  case less
  show ?case
  proof (cases "step c (rnd 0) s")
    case (Done r)
    then show ?thesis by simp
  next
    case (Emit s' out)
    with step [OF less.prems, of "rnd 0"] have P': "P s'" and lt: "m s' < m s" by auto
    obtain os r where IH: "eff_run step (Suc (m s')) c (\<lambda>k. rnd (Suc k)) s' = (os, Inr r)"
      using less.hyps [OF lt P'] by blast
    have "eff_run step (Suc (m s') + (m s - Suc (m s'))) c (\<lambda>k. rnd (Suc k)) s' = (os, Inr r)"
      using IH by (simp only: eff_run_add) simp
    then have "eff_run step (m s) c (\<lambda>k. rnd (Suc k)) s' = (os, Inr r)"
      using lt by simp
    with Emit show ?thesis by (cases "m s") auto
  qed
qed

text \<open>
  An exact count: if every step from a state in \<open>P\<close> with a positive measure
  continues, into \<open>P\<close>, and lowers the measure by one, the run of \<open>m s\<close> steps
  has not returned and ends at a state in \<open>P\<close> of measure 0.
\<close>

lemma eff_run_countdown:
  assumes step: "\<And>r s. P s \<Longrightarrow> 0 < m s \<Longrightarrow>
     (case step c r s of Done _ \<Rightarrow> False | Emit s' _ \<Rightarrow> P s' \<and> Suc (m s') = m s)"
    and "P s"
  shows "\<exists>os s'. eff_run step (m s) c rnd s = (os, Inl s') \<and> P s' \<and> m s' = 0"
  using assms(2)
proof (induction "m s" arbitrary: s rnd)
  case 0
  then show ?case by (metis eff_run.simps(1))
next
  case (Suc n)
  have st: "case step c (rnd 0) s of Done _ \<Rightarrow> False | Emit s' _ \<Rightarrow> P s' \<and> Suc (m s') = m s"
    using step [OF Suc.prems] Suc.hyps(2) by simp
  then obtain s' out where E: "step c (rnd 0) s = Emit s' out" "P s'" "Suc (m s') = m s"
    by (cases "step c (rnd 0) s") auto
  obtain os s'' where IH: "eff_run step (m s') c (\<lambda>k. rnd (Suc k)) s' = (os, Inl s'')" "P s''" "m s'' = 0"
    using Suc.hyps(1) [of s' "\<lambda>k. rnd (Suc k)"] E Suc.hyps(2) by auto
  show ?case using E IH by (metis eff_run_Emit fst_conv snd_conv)
qed

text \<open>
  A budget of sleep time: if every step from a state in \<open>P\<close> sleeps at most what
  the budget loses, a run from \<open>s\<close> sleeps at most the budget of \<open>s\<close>.
\<close>

lemma eff_run_delay_budget:
  assumes step: "\<And>r s. P s \<Longrightarrow>
     (case step c r s of Done _ \<Rightarrow> True
      | Emit s' out \<Rightarrow> P s' \<and> delay_total (out_list out) + w s' \<le> w s)"
    and "P s"
  shows "delay_total (fst (eff_run step n c rnd s)) \<le> w s"
  using assms(2)
proof (induction n arbitrary: s rnd)
  case 0
  then show ?case by (simp add: delay_total_def)
next
  case (Suc n)
  show ?case
  proof (cases "step c (rnd 0) s")
    case (Done r)
    then show ?thesis by (simp add: delay_total_def)
  next
    case (Emit s' out)
    with step [OF Suc.prems, of "rnd 0"]
    have P': "P s'" and le: "delay_total (out_list out) + w s' \<le> w s" by auto
    have "delay_total (fst (eff_run step n c (\<lambda>k. rnd (Suc k)) s')) \<le> w s'"
      by (rule Suc.IH [OF P'])
    with Emit le show ?thesis by (simp add: delay_total_def)
  qed
qed

text \<open>
  A frame: from the states \<open>S i\<close>, \<open>i < N\<close>, each step makes the call \<open>f i\<close> and
  moves to \<open>S (i + 1)\<close>; from \<open>S N\<close> the step makes the call \<open>d\<close> and leaves the
  frame. Entered at \<open>S i\<close>, the run makes the rest of the frame's calls.
\<close>

lemma eff_run_frame:
  assumes call: "\<And>j r. i \<le> j \<Longrightarrow> j < N \<Longrightarrow> step c r (S j) = Emit (S (Suc j)) (Some (f j))"
    and last: "\<And>r. step c r (S N) = Emit s' (Some d)"
    and "i \<le> N"
  shows "eff_run step (Suc N - i) c rnd (S i) = (drop i (map f [0..<N] @ [d]), Inl s')"
  using assms(3) call
proof (induction "N - i" arbitrary: i rnd)
  case 0
  then have "i = N" by simp
  then show ?case using last by simp
next
  case (Suc k)
  then have i: "i < N" by simp
  have IH: "eff_run step (Suc N - Suc i) c (\<lambda>j. rnd (Suc j)) (S (Suc i)) =
              (drop (Suc i) (map f [0..<N] @ [d]), Inl s')"
    using Suc.hyps(1) [of "Suc i"] Suc.hyps(2) Suc.prems(2) i by simp
  have fuel: "Suc N - i = Suc (Suc N - Suc i)" using i by simp
  have "drop i (map f [0..<N] @ [d]) = (map f [0..<N] @ [d]) ! i # drop (Suc i) (map f [0..<N] @ [d])"
    using i by (intro Cons_nth_drop_Suc [symmetric]) simp
  moreover have "(map f [0..<N] @ [d]) ! i = f i" using i by (simp add: nth_append)
  ultimately show ?case
    using IH Suc.prems(2) [of i "rnd 0"] i by (simp only: fuel) simp
qed

text \<open>Once an effect has returned, more fuel changes nothing.\<close>

lemma eff_run_more_fuel:
  "eff_run step n c rnd s = (os, Inr r) \<Longrightarrow> n \<le> n' \<Longrightarrow> eff_run step n' c rnd s = (os, Inr r)"
  using eff_run_add [of step n "n' - n" c rnd s] by simp

text \<open>
  A loop of \<open>N\<close> iterations of \<open>L\<close> steps each, iteration \<open>j\<close> making the calls
  \<open>f j\<close>: the run makes the calls of all iterations in order.
\<close>

lemma eff_run_iter:
  assumes "\<And>j rnd. j < N \<Longrightarrow> eff_run step L c rnd (S j) = (f j, Inl (S (Suc j)))"
  shows "eff_run step (L * N) c rnd (S 0) = (concat (map f [0..<N]), Inl (S N))"
  using assms
proof (induction N arbitrary: rnd)
  case 0
  then show ?case by simp
next
  case (Suc N)
  have "eff_run step (L * N) c rnd (S 0) = (concat (map f [0..<N]), Inl (S N))"
    using Suc.prems by (intro Suc.IH) simp
  moreover have "eff_run step L c (\<lambda>k. rnd (k + L * N)) (S N) = (f N, Inl (S (Suc N)))"
    using Suc.prems by simp
  ultimately show ?case
    by (simp only: mult_Suc_right add.commute [of L] eff_run_add) simp
qed

lemma delay_total_Nil [simp]: "delay_total [] = 0"
  by (simp add: delay_total_def)

lemma delay_total_append [simp]: "delay_total (xs @ ys) = delay_total xs + delay_total ys"
  by (simp add: delay_total_def)

lemma delay_total_Cons [simp]: "delay_total (x # xs) = out_ms x + delay_total xs"
  by (simp add: delay_total_def)

lemma delay_total_concat: "delay_total (concat xss) = sum_list (map delay_total xss)"
  by (induction xss) simp_all

end
