(* ===== verification/Rainbow.thy ===== *)
theory Rainbow
  imports Effect
begin

text \<open>
  Mode 1, \<open>rainbow_transition_mode\<close> of \<open>src/src/transitons.c\<close>: a hue kept in the
  \<open>static float hue\<close> across calls; each frame converts \<open>hue + 60 i\<close> for fixture
  \<open>i\<close> to RGB through the six sectors of HSV with \<open>s = v = 1\<close>, sends it, advances the
  hue by 3 degrees with a wrap at 360 and sleeps 50 ms. The loop is re-entered while
  \<open>led_on && transition_mode == 1\<close>; \<open>mode_changed\<close> is not read.
\<close>

section \<open>Colour of one fixture\<close>

text \<open>\<open>fmodf(x, y)\<close>: the remainder of the quotient truncated toward zero, exact.\<close>

definition c_fmod :: "real \<Rightarrow> real \<Rightarrow> real" where
  "c_fmod x y = x - real_of_int (c_trunc (x / y)) * y"

text \<open>\<open>int h = ((int)(hue + i * 60) % 360);\<close>\<close>

definition rainbow_h :: "real \<Rightarrow> nat \<Rightarrow> int" where
  "rainbow_h hue i = c_mod (c_trunc (hue + real i * 60)) 360"

text \<open>The \<open>if\<close> chain choosing \<open>(r, g, b)\<close> by the sector of \<open>h\<close>.\<close>

definition hsv_sector :: "int \<Rightarrow> real \<Rightarrow> real \<Rightarrow> real \<times> real \<times> real" where
  "hsv_sector h c x =
     (if h < 60 then (c, x, 0)
      else if h < 120 then (x, c, 0)
      else if h < 180 then (0, c, x)
      else if h < 240 then (0, x, c)
      else if h < 300 then (x, 0, c)
      else (c, 0, x))"

text \<open>The three values passed to \<open>set_rgb_led(i, ...)\<close> in one frame.\<close>

definition rainbow_color :: "real \<Rightarrow> nat \<Rightarrow> u16 \<times> u16 \<times> u16" where
  "rainbow_color hue i =
     (let h = rainbow_h hue i; s = 1; v = 1; c = v * s;
          x = c * (1 - \<bar>c_fmod (real_of_int h / 60) 2 - 1\<bar>);
          m = v - c;
          (r, g, b) = hsv_sector h c x
      in (c_f2u16 ((r + m) * 4095), c_f2u16 ((g + m) * 4095), c_f2u16 ((b + m) * 4095)))"

text \<open>\<open>hue += 3; if (hue >= 360) hue -= 360;\<close>\<close>

definition hue_advance :: "real \<Rightarrow> real" where
  "hue_advance hue = (let h = hue + 3 in if 360 \<le> h then h - 360 else h)"

section \<open>The effect as a machine\<close>

text \<open>
  Program points: the \<open>while\<close> test, and the body of the \<open>for\<close> loop at fixture
  \<open>i\<close> (\<open>i = NUM_LEDS\<close>: after the loop, where the hue advances and the task sleeps).
\<close>

datatype rainbow_pc = R_While | R_Led nat

record rainbow_st =
  rb_pc :: rainbow_pc
  rb_hue :: real

definition rainbow_start :: "real \<Rightarrow> rainbow_st" where
  "rainbow_start hue = \<lparr>rb_pc = R_While, rb_hue = hue\<rparr>"

fun rainbow_step :: "ctrl_state \<Rightarrow> u32 \<Rightarrow> rainbow_st \<Rightarrow> (rainbow_st, real) eff_step" where
  "rainbow_step c rnd st =
     (case rb_pc st of
        R_While \<Rightarrow>
          (if led_on c \<and> transition_mode c = 1 then Emit (st\<lparr>rb_pc := R_Led 0\<rparr>) None
           else Done (rb_hue st))
      | R_Led i \<Rightarrow>
          (if i < NUM_LEDS
           then Emit (st\<lparr>rb_pc := R_Led (Suc i)\<rparr>)
                  (Some (case rainbow_color (rb_hue st) i of (r, g, b) \<Rightarrow> SetLed i r g b))
           else Emit \<lparr>rb_pc = R_While, rb_hue = hue_advance (rb_hue st)\<rparr> (Some (Delay 50))))"

text \<open>The calls of one frame at hue \<open>hue\<close>.\<close>

definition rainbow_frame :: "real \<Rightarrow> anim_out list" where
  "rainbow_frame hue =
     map (\<lambda>i. case rainbow_color hue i of (r, g, b) \<Rightarrow> SetLed i r g b) [0..<NUM_LEDS] @ [Delay 50]"

text \<open>The program points the machine can be at, and the steps to the loop test.\<close>

definition rainbow_pc_ok :: "rainbow_pc \<Rightarrow> bool" where
  "rainbow_pc_ok pc = (case pc of R_While \<Rightarrow> True | R_Led i \<Rightarrow> i \<le> NUM_LEDS)"

definition rainbow_measure :: "rainbow_pc \<Rightarrow> nat" where
  "rainbow_measure pc = (case pc of R_While \<Rightarrow> 0 | R_Led i \<Rightarrow> Suc NUM_LEDS - i)"

lemmas rainbow_defs = c_fmod_def rainbow_h_def hsv_sector_def rainbow_color_def hue_advance_def
  rainbow_start_def rainbow_frame_def

declare rainbow_step.simps [simp del]

section \<open>Lemmas\<close>

text \<open>The hue modulo 360, as a real.\<close>

lemma hue_advance_mod:
  "hue_advance (x - 360 * real_of_int \<lfloor>x / 360\<rfloor>) =
     (x + 3) - 360 * real_of_int \<lfloor>(x + 3) / 360\<rfloor>"
proof -
  define q where "q = \<lfloor>x / 360\<rfloor>"
  have q: "real_of_int q \<le> x / 360" "x / 360 < real_of_int q + 1"
    unfolding q_def by linarith+
  show ?thesis
  proof (cases "360 \<le> x - 360 * real_of_int q + 3")
    case True
    have "\<lfloor>(x + 3) / 360\<rfloor> = q + 1"
      using q True by (intro floor_unique) (simp_all add: field_simps)
    then show ?thesis using True by (simp add: hue_advance_def q_def [symmetric] algebra_simps)
  next
    case False
    have "\<lfloor>(x + 3) / 360\<rfloor> = q"
      using q False by (intro floor_unique) (simp_all add: field_simps)
    then show ?thesis using False by (simp add: hue_advance_def q_def [symmetric] algebra_simps)
  qed
qed

lemma hue_advance_iter:
  "(hue_advance ^^ n) (x - 360 * real_of_int \<lfloor>x / 360\<rfloor>) =
     (x + 3 * real n) - 360 * real_of_int \<lfloor>(x + 3 * real n) / 360\<rfloor>"
proof (induction n)
  case 0
  then show ?case by simp
next
  case (Suc n)
  let ?y = "x + 3 * real n"
  have "(hue_advance ^^ Suc n) (x - 360 * real_of_int \<lfloor>x / 360\<rfloor>) =
        hue_advance (?y - 360 * real_of_int \<lfloor>?y / 360\<rfloor>)"
    by (simp only: funpow.simps comp_apply Suc.IH)
  also have "\<dots> = (?y + 3) - 360 * real_of_int \<lfloor>(?y + 3) / 360\<rfloor>"
    by (rule hue_advance_mod)
  also have "?y + 3 = x + 3 * real (Suc n)"
    by simp
  finally show ?case .
qed

lemma hue_mod_self:
  assumes "0 \<le> h" "h < 360"
  shows "h - 360 * real_of_int \<lfloor>h / 360\<rfloor> = h"
proof -
  have "\<lfloor>h / 360\<rfloor> = 0" using assms by (intro floor_unique) simp_all
  then show ?thesis by simp
qed

lemma rainbow_h_range:
  assumes "0 \<le> hue"
  shows "0 \<le> rainbow_h hue i \<and> rainbow_h hue i < 360"
proof -
  have "0 \<le> c_trunc (hue + real i * 60)" using assms by simp
  then show ?thesis by (simp add: rainbow_h_def)
qed
lemma c_fmod_range:
  assumes "0 \<le> h"
  shows "0 \<le> c_fmod (real_of_int h / 60) 2 \<and> c_fmod (real_of_int h / 60) 2 < 2"
proof -
  define y where "y = real_of_int h / 60"
  have y0: "0 \<le> y" using assms by (simp add: y_def)
  have f: "real_of_int \<lfloor>y / 2\<rfloor> \<le> y / 2" "y / 2 < real_of_int \<lfloor>y / 2\<rfloor> + 1"
    by linarith+
  have "c_fmod y 2 = y - real_of_int \<lfloor>y / 2\<rfloor> * 2"
    using y0 by (simp add: c_fmod_def)
  with f show ?thesis unfolding y_def [symmetric] by linarith
qed
lemma c_f2u16_unit:
  assumes "0 \<le> v" "v \<le> 1"
  shows "unat (c_f2u16 (v * 4095)) \<le> 4095"
proof -
  have "0 \<le> v * 4095" "v * 4095 \<le> 4095" using assms by simp_all
  then have "0 \<le> \<lfloor>v * 4095\<rfloor>" "\<lfloor>v * 4095\<rfloor> \<le> 4095" by linarith+
  then have "uint (word_of_int \<lfloor>v * 4095\<rfloor> :: u16) = \<lfloor>v * 4095\<rfloor>"
    by (intro uint_word_of_int_small) simp_all
  with \<open>\<lfloor>v * 4095\<rfloor> \<le> 4095\<close> \<open>0 \<le> v * 4095\<close> show ?thesis
    by (simp add: c_f2u16_def unat_le_iff_uint)
qed
lemma c_f2u16_4095 [simp]: "c_f2u16 4095 = 4095"
  by (simp add: c_f2u16_def)
lemma c_f2u16_zero [simp]: "c_f2u16 0 = 0"
  by (simp add: c_f2u16_def)
lemma hsv_sector_cases:
  "hsv_sector h c x \<in> {(c, x, 0), (x, c, 0), (0, c, x), (0, x, c), (x, 0, c), (c, 0, x)}"
  by (simp add: hsv_sector_def)

lemma rainbow_color_eq:
  "rainbow_color hue i =
     (case hsv_sector (rainbow_h hue i) 1 (1 - \<bar>c_fmod (real_of_int (rainbow_h hue i) / 60) 2 - 1\<bar>) of
        (r, g, b) \<Rightarrow> (c_f2u16 (r * 4095), c_f2u16 (g * 4095), c_f2u16 (b * 4095)))"
  by (simp add: rainbow_color_def Let_def split_def)

lemma rainbow_color_sectors:
  assumes "0 \<le> hue"
  obtains x where "0 \<le> x" "x \<le> 1"
    "rainbow_color hue i \<in> {(4095, c_f2u16 (x * 4095), 0), (c_f2u16 (x * 4095), 4095, 0),
       (0, 4095, c_f2u16 (x * 4095)), (0, c_f2u16 (x * 4095), 4095),
       (c_f2u16 (x * 4095), 0, 4095), (4095, 0, c_f2u16 (x * 4095))}"
proof -
  define x where "x = 1 - \<bar>c_fmod (real_of_int (rainbow_h hue i) / 60) 2 - 1\<bar>"
  have h0: "0 \<le> rainbow_h hue i" using rainbow_h_range [OF assms] by blast
  have x: "0 \<le> x" "x \<le> 1" using c_fmod_range [OF h0] unfolding x_def by auto
  have "rainbow_color hue i \<in> {(4095, c_f2u16 (x * 4095), 0), (c_f2u16 (x * 4095), 4095, 0),
       (0, 4095, c_f2u16 (x * 4095)), (0, c_f2u16 (x * 4095), 4095),
       (c_f2u16 (x * 4095), 0, 4095), (4095, 0, c_f2u16 (x * 4095))}"
    using hsv_sector_cases [of "rainbow_h hue i" 1 x] unfolding rainbow_color_eq x_def [symmetric]
    by auto
  with x that show ?thesis by blast
qed

lemma rainbow_led_run:
  assumes "i \<le> NUM_LEDS"
  shows "eff_run rainbow_step (Suc NUM_LEDS - i) c rnd \<lparr>rb_pc = R_Led i, rb_hue = hue\<rparr> =
           (drop i (rainbow_frame hue), Inl \<lparr>rb_pc = R_While, rb_hue = hue_advance hue\<rparr>)"
  unfolding rainbow_frame_def
  by (rule eff_run_frame [where S = "\<lambda>j. \<lparr>rb_pc = R_Led j, rb_hue = hue\<rparr>"])
     (simp_all add: rainbow_step.simps assms)

text \<open>Once the loop condition fails the rainbow returns at the next loop test.\<close>

lemma rainbow_stop_step:
  assumes "\<not> (led_on c \<and> transition_mode c = 1)" "rainbow_pc_ok (rb_pc s)"
  shows "case rainbow_step c r s of
           Done _ \<Rightarrow> True
         | Emit s' out \<Rightarrow> rainbow_pc_ok (rb_pc s') \<and> rainbow_measure (rb_pc s') < rainbow_measure (rb_pc s)"
  using assms
  by (cases "rb_pc s") (auto simp: rainbow_step.simps rainbow_pc_ok_def rainbow_measure_def)

text \<open>Every step keeps the hue in \<open>[0, 360)\<close> and the program point valid.\<close>

lemma hue_advance_range: "0 \<le> h \<Longrightarrow> h < 360 \<Longrightarrow> 0 \<le> hue_advance h \<and> hue_advance h < 360"
  by (simp add: hue_advance_def Let_def)

lemma rainbow_step_ok:
  assumes "rainbow_pc_ok (rb_pc s)" "0 \<le> rb_hue s" "rb_hue s < 360"
  shows "case rainbow_step c r s of
           Done h \<Rightarrow> 0 \<le> h \<and> h < 360
         | Emit s' out \<Rightarrow> rainbow_pc_ok (rb_pc s') \<and> 0 \<le> rb_hue s' \<and> rb_hue s' < 360"
  using assms hue_advance_range [OF assms(2,3)]
  by (cases "rb_pc s") (auto simp: rainbow_step.simps rainbow_pc_ok_def)

section \<open>Properties of the rainbow effect\<close>

text \<open>
  C21: The hue advances by 3 degrees per frame and wraps at 360: after 120 frames
  (\<open>120 * 3 = 360\<close> degrees) a hue in \<open>[0, 360)\<close> is back at its value.
\<close>

theorem rainbow_hue_wrap:
  assumes "0 \<le> h" "h < 360"
  shows "(hue_advance ^^ 120) h = h"
proof -
  have "(hue_advance ^^ 120) (h - 360 * real_of_int \<lfloor>h / 360\<rfloor>) =
          (h + 360) - 360 * real_of_int \<lfloor>(h + 360) / 360\<rfloor>"
    using hue_advance_iter [of 120 h] by simp
  also have "\<lfloor>(h + 360) / 360\<rfloor> = \<lfloor>h / 360\<rfloor> + 1"
    using floor_add_int [of "h / 360" 1] by (simp add: add_divide_distrib)
  finally show ?thesis using hue_mod_self [OF assms] by (simp add: algebra_simps)
qed

theorem rainbow_hue_wrap_witness: "(hue_advance ^^ 120) 0 = 0"
  by (rule rainbow_hue_wrap) simp_all

text \<open>
  C22: For a non-negative hue, the colour sent to every fixture is fully saturated
  and within the 12-bit range: every channel is at most 4095, one channel is 4095
  and one is 0.
\<close>

theorem rainbow_color_bounds:
  assumes "0 \<le> hue" "rainbow_color hue i = (r, g, b)"
  shows "unat r \<le> 4095 \<and> unat g \<le> 4095 \<and> unat b \<le> 4095 \<and>
         (r = 4095 \<or> g = 4095 \<or> b = 4095) \<and> (r = 0 \<or> g = 0 \<or> b = 0)"
proof -
  obtain x where x: "0 \<le> x" "x \<le> 1"
    and mem: "rainbow_color hue i \<in> {(4095, c_f2u16 (x * 4095), 0), (c_f2u16 (x * 4095), 4095, 0),
       (0, 4095, c_f2u16 (x * 4095)), (0, c_f2u16 (x * 4095), 4095),
       (c_f2u16 (x * 4095), 0, 4095), (4095, 0, c_f2u16 (x * 4095))}"
    using rainbow_color_sectors [OF assms(1)] by blast
  have b: "unat (c_f2u16 (x * 4095)) \<le> 4095" using c_f2u16_unit [OF x] .
  from mem assms(2) b show ?thesis by auto
qed

theorem rainbow_color_bounds_witness:
  "rainbow_color 0 1 = (4095, 4095, 0) \<and>
   unat (4095 :: u16) \<le> 4095 \<and> ((4095 :: u16) = 4095 \<or> (4095 :: u16) = 4095 \<or> (0 :: u16) = 4095)"
proof -
  have c: "rainbow_color 0 1 = (4095, 4095, 0)"
    unfolding rainbow_color_def Let_def
    by (simp add: rainbow_h_def hsv_sector_def c_fmod_def c_conv)
  have "unat (4095 :: u16) \<le> 4095 \<and> unat (4095 :: u16) \<le> 4095 \<and> unat (0 :: u16) \<le> 4095 \<and>
         ((4095 :: u16) = 4095 \<or> (4095 :: u16) = 4095 \<or> (0 :: u16) = 4095) \<and>
         ((4095 :: u16) = 0 \<or> (4095 :: u16) = 0 \<or> (0 :: u16) = 0)"
    by (rule rainbow_color_bounds [of 0 1]) (simp, rule c)
  with c show ?thesis by simp
qed

text \<open>
  C23: One frame of the running effect: while \<open>led_on\<close> holds and the mode is 1,
  seven steps send fixture \<open>i\<close> the colour of hue \<open>hue + 60 i\<close> for
  \<open>i = 0 .. 4\<close>, sleep 50 ms, and come back to the loop test with the hue advanced.
\<close>

theorem rainbow_frame_run:
  assumes "led_on c" "transition_mode c = 1"
  shows "eff_run rainbow_step (Suc (Suc NUM_LEDS)) c rnd (rainbow_start hue) =
           (rainbow_frame hue, Inl (rainbow_start (hue_advance hue)))"
proof -
  have "rainbow_step c (rnd 0) (rainbow_start hue) = Emit \<lparr>rb_pc = R_Led 0, rb_hue = hue\<rparr> None"
    using assms by (simp add: rainbow_step.simps rainbow_start_def)
  then show ?thesis
    using rainbow_led_run [of 0 c "\<lambda>k. rnd (Suc k)" hue] by (simp add: rainbow_start_def)
qed

theorem rainbow_frame_run_witness:
  "eff_run rainbow_step (Suc (Suc NUM_LEDS)) (ctrl_init\<lparr>transition_mode := 1\<rparr>) (\<lambda>_. 0) (rainbow_start 0) =
     (rainbow_frame 0, Inl (rainbow_start 3))"
proof -
  have "hue_advance 0 = 3" by (simp add: hue_advance_def)
  then show ?thesis
    using rainbow_frame_run [of "ctrl_init\<lparr>transition_mode := 1\<rparr>" "\<lambda>_. 0" 0]
    by (simp add: ctrl_init_def)
qed

text \<open>
  C24: Once the control state no longer asks for the rainbow (\<open>led_on\<close> false or
  another mode), the effect returns after finishing the current frame: from fixture
  \<open>i\<close> it sends the rest of the frame, sleeps 50 ms once and returns the advanced hue.
\<close>

theorem rainbow_stop_latency:
  assumes "\<not> (led_on c \<and> transition_mode c = 1)" "i \<le> NUM_LEDS"
  shows "eff_run rainbow_step (Suc (Suc NUM_LEDS - i)) c rnd \<lparr>rb_pc = R_Led i, rb_hue = hue\<rparr> =
           (drop i (rainbow_frame hue), Inr (hue_advance hue))"
proof -
  have "eff_run rainbow_step (Suc NUM_LEDS - i + 1) c rnd \<lparr>rb_pc = R_Led i, rb_hue = hue\<rparr> =
           (drop i (rainbow_frame hue), Inr (hue_advance hue))"
    using assms rainbow_led_run [OF assms(2), of c rnd hue]
    by (simp only: eff_run_add) (simp add: rainbow_step.simps)
  then show ?thesis by simp
qed

theorem rainbow_stop_latency_witness:
  "eff_run rainbow_step (Suc (Suc NUM_LEDS - 2)) ctrl_init (\<lambda>_. 0) \<lparr>rb_pc = R_Led 2, rb_hue = 0\<rparr> =
     (drop 2 (rainbow_frame 0), Inr 3)"
proof -
  have "hue_advance 0 = 3" by (simp add: hue_advance_def)
  then show ?thesis
    using rainbow_stop_latency [of ctrl_init 2 "\<lambda>_. 0" 0]
    by (simp add: ctrl_init_def NUM_LEDS_def)
qed

text \<open>
  C25: The rainbow never reads \<open>mode_changed\<close>: while \<open>led_on\<close> holds and the
  mode is 1 the effect does not return, for any number of steps, even with the
  cancellation flag raised (a mode change that comes back to mode 1 before the next
  loop test goes unnoticed).
\<close>

theorem rainbow_ignores_mode_changed:
  assumes "led_on c" "transition_mode c = 1"
  shows "\<exists>s'. snd (eff_run rainbow_step n c rnd st) = Inl s'"
  using assms
proof (induction n arbitrary: rnd st)
  case 0
  then show ?case by simp
next
  case (Suc n)
  have "\<exists>st' out. rainbow_step c (rnd 0) st = Emit st' out"
    using Suc.prems by (cases "rb_pc st") (simp_all add: rainbow_step.simps)
  then obtain st' out where "rainbow_step c (rnd 0) st = Emit st' out" by blast
  then show ?case using Suc.IH [OF Suc.prems] by simp
qed

theorem rainbow_ignores_mode_changed_witness:
  "\<exists>s'. snd (eff_run rainbow_step 1000
     \<lparr>brightness_level = 1, led_on = True, transition_mode = 1, mode_changed = True\<rparr>
     (\<lambda>_. 0) (rainbow_start 0)) = Inl s'"
  by (rule rainbow_ignores_mode_changed) simp_all

end
