(* ===== verification/Breathing.thy ===== *)
theory Breathing
  imports Effect
begin

text \<open>
  Mode 2, \<open>breathing_loop_transition\<close> of \<open>src/src/transitons.c\<close>: all fixtures
  show the palette colour \<open>base_colors[color_idx]\<close> (\<open>static int color_idx\<close>,
  kept across calls) under a raised-cosine brightness. The rise runs \<open>step = 0 ..
  FADE_STEPS\<close> with a gamma of 2.2 applied, the fall runs \<open>step = FADE_STEPS .. 0\<close>
  without it; each step sends one frame and sleeps 40 ms. Then the task sleeps 300 ms
  and the index advances modulo 12. The loop test reads \<open>led_on\<close> and the mode; the
  top of the loop reads \<open>led_on\<close>, \<open>mode_changed\<close> and the mode; each step of a
  phase reads \<open>mode_changed\<close> only.
\<close>

section \<open>Brightness and channels\<close>

text \<open>\<open>b = min_brightness + range * (0.5 - 0.5 * cosf(M_PI * step / FADE_STEPS))\<close>\<close>

definition breath_level :: "nat \<Rightarrow> real" where
  "breath_level step =
     (let min_brightness = 0.1; range = 0.9
      in min_brightness + range * (0.5 - 0.5 * cos (pi * real step / real FADE_STEPS)))"

text \<open>The rise: \<open>(uint16_t)(powf((color.r * b) / 4095.0f, 2.2f) * 4095)\<close>.\<close>

definition gamma_channel :: "u16 \<Rightarrow> real \<Rightarrow> u16" where
  "gamma_channel ch b = c_f2u16 (((real (unat ch) * b) / 4095) powr 2.2 * 4095)"

text \<open>The fall: \<open>(uint16_t)(color.r * b)\<close>.\<close>

definition linear_channel :: "u16 \<Rightarrow> real \<Rightarrow> u16" where
  "linear_channel ch b = c_f2u16 (real (unat ch) * b)"

text \<open>The frames of one step of each phase: the same values to the five fixtures, then the sleep.\<close>

definition rise_frame :: "rgb_color_t \<Rightarrow> nat \<Rightarrow> anim_out list" where
  "rise_frame color step =
     map (\<lambda>i. SetLed i (gamma_channel (rgb_r color) (breath_level step))
                         (gamma_channel (rgb_g color) (breath_level step))
                         (gamma_channel (rgb_b color) (breath_level step))) [0..<NUM_LEDS]
     @ [Delay FADE_DELAY_MS]"

definition fall_frame :: "rgb_color_t \<Rightarrow> nat \<Rightarrow> anim_out list" where
  "fall_frame color step =
     map (\<lambda>i. SetLed i (linear_channel (rgb_r color) (breath_level step))
                         (linear_channel (rgb_g color) (breath_level step))
                         (linear_channel (rgb_b color) (breath_level step))) [0..<NUM_LEDS]
     @ [Delay FADE_DELAY_MS]"

section \<open>The effect as a machine\<close>

text \<open>
  Program points: the \<open>while\<close> test, the test at the top of the loop body, the
  \<open>mode_changed\<close> test of a step of each phase, the call for fixture \<open>i\<close> in a step
  (\<open>i = NUM_LEDS\<close>: the sleep that ends the step) and the 300 ms hold.
\<close>

datatype breathing_pc =
  B_While | B_Top | B_RiseChk nat | B_RiseLed nat nat | B_FallChk nat | B_FallLed nat nat | B_Hold

record breathing_st =
  br_pc :: breathing_pc
  br_color :: rgb_color_t
  br_idx :: int

text \<open>Entry with the static index; the local \<open>color\<close> is written before it is read.\<close>

definition breathing_start :: "int \<Rightarrow> breathing_st" where
  "breathing_start idx = \<lparr>br_pc = B_While, br_color = rgb 0 0 0, br_idx = idx\<rparr>"

fun breathing_step :: "ctrl_state \<Rightarrow> u32 \<Rightarrow> breathing_st \<Rightarrow> (breathing_st, int) eff_step" where
  "breathing_step c rnd st =
     (case br_pc st of
        B_While \<Rightarrow>
          (if led_on c \<and> transition_mode c = 2 then Emit (st\<lparr>br_pc := B_Top\<rparr>) None
           else Done (br_idx st))
      | B_Top \<Rightarrow>
          (if \<not> led_on c \<or> mode_changed c \<or> transition_mode c \<noteq> 2 then Done (br_idx st)
           else Emit (st\<lparr>br_pc := B_RiseChk 0, br_color := base_colors ! nat (br_idx st)\<rparr>) None)
      | B_RiseChk k \<Rightarrow>
          (if mode_changed c then Done (br_idx st) else Emit (st\<lparr>br_pc := B_RiseLed k 0\<rparr>) None)
      | B_RiseLed k i \<Rightarrow>
          (if i < NUM_LEDS
           then Emit (st\<lparr>br_pc := B_RiseLed k (Suc i)\<rparr>)
                  (Some (SetLed i (gamma_channel (rgb_r (br_color st)) (breath_level k))
                                  (gamma_channel (rgb_g (br_color st)) (breath_level k))
                                  (gamma_channel (rgb_b (br_color st)) (breath_level k))))
           else Emit (st\<lparr>br_pc := (if k < FADE_STEPS then B_RiseChk (Suc k) else B_FallChk FADE_STEPS)\<rparr>)
                  (Some (Delay FADE_DELAY_MS)))
      | B_FallChk k \<Rightarrow>
          (if mode_changed c then Done (br_idx st) else Emit (st\<lparr>br_pc := B_FallLed k 0\<rparr>) None)
      | B_FallLed k i \<Rightarrow>
          (if i < NUM_LEDS
           then Emit (st\<lparr>br_pc := B_FallLed k (Suc i)\<rparr>)
                  (Some (SetLed i (linear_channel (rgb_r (br_color st)) (breath_level k))
                                  (linear_channel (rgb_g (br_color st)) (breath_level k))
                                  (linear_channel (rgb_b (br_color st)) (breath_level k))))
           else Emit (st\<lparr>br_pc := (if k = 0 then B_Hold else B_FallChk (k - 1))\<rparr>)
                  (Some (Delay FADE_DELAY_MS)))
      | B_Hold \<Rightarrow>
          Emit (st\<lparr>br_pc := B_While, br_idx := c_mod (br_idx st + 1) 12\<rparr>) (Some (Delay 300)))"

text \<open>The program points the machine can be at.\<close>

definition breathing_pc_ok :: "breathing_pc \<Rightarrow> bool" where
  "breathing_pc_ok pc =
     (case pc of
        B_RiseChk k \<Rightarrow> k \<le> FADE_STEPS
      | B_RiseLed k i \<Rightarrow> k \<le> FADE_STEPS \<and> i \<le> NUM_LEDS
      | B_FallChk k \<Rightarrow> k \<le> FADE_STEPS
      | B_FallLed k i \<Rightarrow> k \<le> FADE_STEPS \<and> i \<le> NUM_LEDS
      | _ \<Rightarrow> True)"

text \<open>
  Steps to the next test of \<open>mode_changed\<close> or of the loop condition, and the sleep
  time on the way there: the measure and the budget of the cancellation bound.
\<close>

definition breathing_measure :: "breathing_pc \<Rightarrow> nat" where
  "breathing_measure pc =
     (case pc of
        B_While \<Rightarrow> 1
      | B_Hold \<Rightarrow> 2
      | B_RiseLed k i \<Rightarrow> 6 - i
      | B_FallLed k i \<Rightarrow> (if k = 0 then 8 - i else 6 - i)
      | _ \<Rightarrow> 0)"

definition breathing_budget :: "breathing_pc \<Rightarrow> nat" where
  "breathing_budget pc =
     (case pc of
        B_Hold \<Rightarrow> 300
      | B_RiseLed k i \<Rightarrow> 40
      | B_FallLed k i \<Rightarrow> (if k = 0 then 340 else 40)
      | _ \<Rightarrow> 0)"

text \<open>
  The same once the loop condition fails with \<open>mode_changed\<close> clear: the rest of
  the breath runs to the loop test.
\<close>

definition breathing_stop_measure :: "breathing_pc \<Rightarrow> nat" where
  "breathing_stop_measure pc =
     (case pc of
        B_Hold \<Rightarrow> 1
      | B_RiseChk k \<Rightarrow> 7 * (Suc FADE_STEPS - k) + 708
      | B_RiseLed k i \<Rightarrow> 6 - i + 7 * (FADE_STEPS - k) + 708
      | B_FallChk k \<Rightarrow> 7 * k + 8
      | B_FallLed k i \<Rightarrow> 6 - i + 7 * k + 1
      | _ \<Rightarrow> 0)"

definition breathing_stop_budget :: "breathing_pc \<Rightarrow> nat" where
  "breathing_stop_budget pc =
     (case pc of
        B_Hold \<Rightarrow> 300
      | B_RiseChk k \<Rightarrow> 40 * (Suc FADE_STEPS - k) + 4340
      | B_RiseLed k i \<Rightarrow> 40 * (Suc FADE_STEPS - k) + 4340
      | B_FallChk k \<Rightarrow> 40 * Suc k + 300
      | B_FallLed k i \<Rightarrow> 40 * Suc k + 300
      | _ \<Rightarrow> 0)"

declare breathing_step.simps [simp del]

section \<open>Lemmas\<close>

lemma breath_level_0: "breath_level 0 = 1 / 10"
  by (simp add: breath_level_def)
lemma breath_level_top: "breath_level FADE_STEPS = 1"
  by (simp add: breath_level_def FADE_STEPS_def)
lemma breath_level_mono:
  assumes "k \<le> k'" "k' \<le> FADE_STEPS"
  shows "breath_level k \<le> breath_level k'"
proof -
  have "cos (pi * real k' / real FADE_STEPS) \<le> cos (pi * real k / real FADE_STEPS)"
    using assms by (intro cos_monotone_0_pi_le) (auto simp: FADE_STEPS_def divide_right_mono)
  then show ?thesis by (simp add: breath_level_def Let_def)
qed
lemma c_f2u16_le_nat:
  assumes "0 \<le> y" "y < real n + 1" "n \<le> 4095"
  shows "unat (c_f2u16 y) \<le> n"
proof -
  have rn: "real n \<le> 4095" using assms(3) by simp
  have "0 \<le> \<lfloor>y\<rfloor>" "\<lfloor>y\<rfloor> \<le> int n" using assms(1,2) by linarith+
  moreover have "\<lfloor>y\<rfloor> < 2 ^ LENGTH(16)" using assms(2) rn by simp
  ultimately have "uint (word_of_int \<lfloor>y\<rfloor> :: u16) = \<lfloor>y\<rfloor>"
    by (intro uint_word_of_int_small) simp_all
  with \<open>\<lfloor>y\<rfloor> \<le> int n\<close> assms(1) show ?thesis
    by (simp add: c_f2u16_def unat_le_iff_uint)
qed
lemma gamma_le:
  assumes "0 \<le> b" "b \<le> 1" "unat ch \<le> 4095"
  shows "unat (gamma_channel ch b) \<le> unat ch"
proof -
  define n where "n = unat ch"
  define x where "x = real n * b / 4095"
  have eq: "gamma_channel ch b = c_f2u16 (x powr 2.2 * 4095)"
    by (simp only: gamma_channel_def x_def n_def)
  have n: "n \<le> 4095" using assms(3) by (simp add: n_def)
  have "real n * b \<le> real n * 1" using assms(2) by (intro mult_left_mono) simp_all
  with n assms(1) have x0: "0 \<le> x" and x1: "x \<le> 1" by (simp_all add: x_def)
  have "x powr 2.2 \<le> x"
  proof (cases "x = 0")
    case True then show ?thesis by simp
  next
    case False then show ?thesis using x0 x1 by (intro powr_le_one_le) auto
  qed
  then have "x powr 2.2 * 4095 \<le> real n * b" by (simp add: x_def)
  also have "\<dots> \<le> real n" using assms(1,2) by (simp add: mult_left_le)
  finally have "unat (c_f2u16 (x powr 2.2 * 4095)) \<le> n"
    using n by (intro c_f2u16_le_nat) simp_all
  then show ?thesis by (simp add: eq n_def)
qed
lemma linear_le:
  assumes "0 \<le> b" "b \<le> 1" "unat ch \<le> 4095"
  shows "unat (linear_channel ch b) \<le> unat ch"
proof -
  define n where "n = unat ch"
  have eq: "linear_channel ch b = c_f2u16 (real n * b)"
    by (simp only: linear_channel_def n_def)
  have n: "n \<le> 4095" using assms(3) by (simp add: n_def)
  have "real n * b \<le> real n" using assms(1,2) by (simp add: mult_left_le)
  moreover have "0 \<le> real n * b" using assms(1) by simp
  ultimately have "unat (c_f2u16 (real n * b)) \<le> n"
    using n by (intro c_f2u16_le_nat) simp_all
  then show ?thesis by (simp add: eq n_def)
qed
lemma peak_gamma_orange:
  "unat (gamma_channel 2048 1) \<le> 1024"
proof -
  define x :: real where "x = 2048 / 4095"
  have eq: "gamma_channel 2048 1 = c_f2u16 (x powr 2.2 * 4095)"
    by (simp add: gamma_channel_def x_def)
  have "x powr 2.2 \<le> x powr 2"
    by (rule powr_mono') (simp_all add: x_def)
  also have "x powr 2 = x ^ 2" by (simp add: x_def)
  finally have a: "x powr 2.2 * 4095 \<le> x ^ 2 * 4095" by simp
  have b: "x ^ 2 * 4095 < 1025" by (simp add: x_def power2_eq_square)
  from a b have "x powr 2.2 * 4095 < real 1024 + 1" by simp
  then have "unat (c_f2u16 (x powr 2.2 * 4095)) \<le> 1024"
    by (intro c_f2u16_le_nat) simp_all
  then show ?thesis by (simp add: eq)
qed
lemma rise_step_run:
  assumes "\<not> mode_changed c" "k \<le> FADE_STEPS"
  shows "eff_run breathing_step (Suc (Suc NUM_LEDS)) c rnd (st\<lparr>br_pc := B_RiseChk k\<rparr>) =
           (rise_frame (br_color st) k,
            Inl (st\<lparr>br_pc := (if k < FADE_STEPS then B_RiseChk (Suc k) else B_FallChk FADE_STEPS)\<rparr>))"
proof -
  have "eff_run breathing_step (Suc NUM_LEDS - 0) c (\<lambda>j. rnd (Suc j)) (st\<lparr>br_pc := B_RiseLed k 0\<rparr>) =
          (drop 0 (rise_frame (br_color st) k),
           Inl (st\<lparr>br_pc := (if k < FADE_STEPS then B_RiseChk (Suc k) else B_FallChk FADE_STEPS)\<rparr>))"
    unfolding rise_frame_def
    by (rule eff_run_frame [where S = "\<lambda>j. st\<lparr>br_pc := B_RiseLed k j\<rparr>"])
       (simp_all add: breathing_step.simps)
  then show ?thesis using assms(1) by (simp add: breathing_step.simps)
qed

lemma fall_step_run:
  assumes "\<not> mode_changed c"
  shows "eff_run breathing_step (Suc (Suc NUM_LEDS)) c rnd (st\<lparr>br_pc := B_FallChk k\<rparr>) =
           (fall_frame (br_color st) k,
            Inl (st\<lparr>br_pc := (if k = 0 then B_Hold else B_FallChk (k - 1))\<rparr>))"
proof -
  have "eff_run breathing_step (Suc NUM_LEDS - 0) c (\<lambda>j. rnd (Suc j)) (st\<lparr>br_pc := B_FallLed k 0\<rparr>) =
          (drop 0 (fall_frame (br_color st) k),
           Inl (st\<lparr>br_pc := (if k = 0 then B_Hold else B_FallChk (k - 1))\<rparr>))"
    unfolding fall_frame_def
    by (rule eff_run_frame [where S = "\<lambda>j. st\<lparr>br_pc := B_FallLed k j\<rparr>"])
       (simp_all add: breathing_step.simps)
  then show ?thesis using assms(1) by (simp add: breathing_step.simps)
qed

lemma rise_phase_run:
  assumes "\<not> mode_changed c" "k \<le> FADE_STEPS"
  shows "eff_run breathing_step (Suc (Suc NUM_LEDS) * (Suc FADE_STEPS - k)) c rnd (st\<lparr>br_pc := B_RiseChk k\<rparr>) =
           (concat (map (rise_frame (br_color st)) [k..<Suc FADE_STEPS]),
            Inl (st\<lparr>br_pc := B_FallChk FADE_STEPS\<rparr>))"
  using assms(2)
proof (induction "FADE_STEPS - k" arbitrary: k rnd)
  case 0
  then have "k = FADE_STEPS" by simp
  then show ?case using rise_step_run [OF assms(1), of FADE_STEPS] by simp
next
  case (Suc n)
  then have k: "k < FADE_STEPS" by simp
  have fuel: "Suc (Suc NUM_LEDS) * (Suc FADE_STEPS - k) =
              Suc (Suc NUM_LEDS) + Suc (Suc NUM_LEDS) * (Suc FADE_STEPS - Suc k)"
  proof -
    have "Suc FADE_STEPS - k = Suc (Suc FADE_STEPS - Suc k)" using k by simp
    then show ?thesis by (simp only: mult_Suc_right)
  qed
  have IH: "eff_run breathing_step (Suc (Suc NUM_LEDS) * (Suc FADE_STEPS - Suc k)) c
      (\<lambda>j. rnd (j + Suc (Suc NUM_LEDS))) (st\<lparr>br_pc := B_RiseChk (Suc k)\<rparr>) =
      (concat (map (rise_frame (br_color st)) [Suc k..<Suc FADE_STEPS]), Inl (st\<lparr>br_pc := B_FallChk FADE_STEPS\<rparr>))"
    using Suc.hyps(1) [of "Suc k"] Suc.hyps(2) k by simp
  have "[k..<Suc FADE_STEPS] = k # [Suc k..<Suc FADE_STEPS]" using k by (simp add: upt_rec)
  then show ?case
    using rise_step_run [OF assms(1) Suc.prems, of rnd st] IH k
    by (simp only: fuel eff_run_add) simp
qed

lemma fall_phase_run:
  assumes "\<not> mode_changed c"
  shows "eff_run breathing_step (Suc (Suc NUM_LEDS) * Suc k) c rnd (st\<lparr>br_pc := B_FallChk k\<rparr>) =
           (concat (map (fall_frame (br_color st)) (rev [0..<Suc k])), Inl (st\<lparr>br_pc := B_Hold\<rparr>))"
proof (induction k arbitrary: rnd)
  case 0
  then show ?case using fall_step_run [OF assms, where rnd = rnd and st = st and k = 0] by simp
next
  case (Suc k)
  have fuel: "Suc (Suc NUM_LEDS) * Suc (Suc k) = Suc (Suc NUM_LEDS) + Suc (Suc NUM_LEDS) * Suc k"
    by (simp only: mult_Suc_right)
  show ?case
    using fall_step_run [OF assms, where rnd = rnd and st = st and k = "Suc k"] Suc.IH [of "\<lambda>j. rnd (j + Suc (Suc NUM_LEDS))"]
    by (simp only: fuel eff_run_add) simp
qed


lemma breathing_cancel_step:
  assumes "mode_changed c" "breathing_pc_ok (br_pc s)"
  shows "case breathing_step c r s of
           Done _ \<Rightarrow> True
         | Emit s' out \<Rightarrow> breathing_pc_ok (br_pc s') \<and> breathing_measure (br_pc s') < breathing_measure (br_pc s)"
  using assms
  by (cases "br_pc s")
     (auto simp: breathing_step.simps breathing_pc_ok_def breathing_measure_def NUM_LEDS_def FADE_STEPS_def)

lemma breathing_budget_step:
  assumes "mode_changed c" "breathing_pc_ok (br_pc s)"
  shows "case breathing_step c r s of
           Done _ \<Rightarrow> True
         | Emit s' out \<Rightarrow> breathing_pc_ok (br_pc s') \<and>
             delay_total (out_list out) + breathing_budget (br_pc s') \<le> breathing_budget (br_pc s)"
  using assms
  by (cases "br_pc s")
     (auto simp: breathing_step.simps breathing_pc_ok_def breathing_budget_def delay_total_def
        NUM_LEDS_def FADE_STEPS_def FADE_DELAY_MS_def)

lemma breathing_measure_le: "breathing_pc_ok pc \<Longrightarrow> breathing_measure pc \<le> 8"
  by (cases pc) (auto simp: breathing_measure_def)

lemma breathing_budget_le: "breathing_budget pc \<le> 340"
  by (cases pc) (auto simp: breathing_budget_def)

lemma breathing_stop_step:
  assumes "\<not> (led_on c \<and> transition_mode c = 2)" "breathing_pc_ok (br_pc s)"
  shows "case breathing_step c r s of
           Done _ \<Rightarrow> True
         | Emit s' out \<Rightarrow> breathing_pc_ok (br_pc s') \<and>
             breathing_stop_measure (br_pc s') < breathing_stop_measure (br_pc s)"
  using assms
  by (cases "br_pc s")
     (auto simp: breathing_step.simps breathing_pc_ok_def breathing_stop_measure_def NUM_LEDS_def FADE_STEPS_def)

lemma breathing_stop_budget_step:
  assumes "\<not> (led_on c \<and> transition_mode c = 2)" "breathing_pc_ok (br_pc s)"
  shows "case breathing_step c r s of
           Done _ \<Rightarrow> True
         | Emit s' out \<Rightarrow> breathing_pc_ok (br_pc s') \<and>
             delay_total (out_list out) + breathing_stop_budget (br_pc s') \<le> breathing_stop_budget (br_pc s)"
  using assms
  by (cases "br_pc s")
     (auto simp: breathing_step.simps breathing_pc_ok_def breathing_stop_budget_def
        NUM_LEDS_def FADE_STEPS_def FADE_DELAY_MS_def)

lemma breathing_stop_countdown:
  assumes "\<not> (led_on c \<and> transition_mode c = 2)" "\<not> mode_changed c" "breathing_pc_ok (br_pc s)"
    "0 < breathing_stop_measure (br_pc s)"
  shows "case breathing_step c r s of Done _ \<Rightarrow> False
         | Emit s' _ \<Rightarrow> breathing_pc_ok (br_pc s') \<and>
             Suc (breathing_stop_measure (br_pc s')) = breathing_stop_measure (br_pc s)"
  using assms
  by (cases "br_pc s")
     (auto simp: breathing_step.simps breathing_pc_ok_def breathing_stop_measure_def NUM_LEDS_def FADE_STEPS_def)

lemma breathing_stop_measure_0:
  "breathing_pc_ok pc \<Longrightarrow> breathing_stop_measure pc = 0 \<longleftrightarrow> pc = B_While \<or> pc = B_Top"
  by (cases pc) (auto simp: breathing_stop_measure_def breathing_pc_ok_def)

lemma breathing_stop_measure_le: "breathing_pc_ok pc \<Longrightarrow> breathing_stop_measure pc \<le> 1415"
  by (cases pc) (auto simp: breathing_stop_measure_def breathing_pc_ok_def FADE_STEPS_def)

lemma breathing_stop_budget_le: "breathing_pc_ok pc \<Longrightarrow> breathing_stop_budget pc \<le> 8380"
  by (cases pc) (auto simp: breathing_stop_budget_def breathing_pc_ok_def FADE_STEPS_def)

text \<open>Every step keeps the colour index in \<open>[0, 12)\<close> and the program point valid.\<close>

lemma breathing_step_ok:
  assumes "breathing_pc_ok (br_pc s)" "0 \<le> br_idx s" "br_idx s < 12"
  shows "case breathing_step c r s of
           Done idx \<Rightarrow> 0 \<le> idx \<and> idx < 12
         | Emit s' out \<Rightarrow> breathing_pc_ok (br_pc s') \<and> 0 \<le> br_idx s' \<and> br_idx s' < 12"
  using assms
  by (cases "br_pc s")
     (auto simp: breathing_step.simps breathing_pc_ok_def NUM_LEDS_def FADE_STEPS_def)

section \<open>Properties of the breathing effect\<close>

text \<open>
  The raised-cosine envelope starts at \<open>min_brightness = 0.1\<close> at step 0,
  reaches \<open>min_brightness + range = 1\<close> at step \<open>FADE_STEPS\<close>, and rises
  monotonically in between.
\<close>

theorem breath_envelope:
  "breath_level 0 = 1 / 10 \<and> breath_level FADE_STEPS = 1 \<and>
   (k \<le> k' \<and> k' \<le> FADE_STEPS \<longrightarrow> breath_level k \<le> breath_level k')"
  using breath_level_0 breath_level_top breath_level_mono by blast

theorem breath_envelope_witness:
  "breath_level 0 = 1 / 10 \<and> breath_level FADE_STEPS = 1 \<and> breath_level 25 \<le> breath_level 50"
  using breath_envelope [of 25 50] by (simp add: FADE_STEPS_def)

text \<open>
  C27: Within the envelope, neither phase wraps a channel or exceeds the palette
  colour: the gamma-corrected rise value and the linear fall value of a 12-bit
  channel are at most the channel.
\<close>

theorem breathing_channel_bounds:
  assumes "k \<le> FADE_STEPS" "unat ch \<le> 4095"
  shows "unat (gamma_channel ch (breath_level k)) \<le> unat ch \<and>
         unat (linear_channel ch (breath_level k)) \<le> unat ch"
proof -
  have "breath_level 0 \<le> breath_level k" "breath_level k \<le> breath_level FADE_STEPS"
    using assms(1) by (simp_all add: breath_level_mono)
  then have b: "0 \<le> breath_level k" "breath_level k \<le> 1"
    by (simp_all add: breath_level_0 breath_level_top)
  show ?thesis using gamma_le [OF b assms(2)] linear_le [OF b assms(2)] by simp
qed

theorem breathing_channel_bounds_witness:
  "unat (gamma_channel 2048 (breath_level 50)) \<le> unat (2048 :: u16) \<and>
   unat (linear_channel 2048 (breath_level 50)) \<le> unat (2048 :: u16)"
  by (rule breathing_channel_bounds) (simp_all add: FADE_STEPS_def)

text \<open>
  C28: One breath, as the code runs it: from the first step of the rise, as long as
  \<open>mode_changed\<close> stays false, the effect sends the 101 gamma-corrected frames of the
  rise and then the 101 linear frames of the fall, 7 steps each, and reaches the
  300 ms hold, whatever \<open>led_on\<close> and the mode are: neither is read inside the
  phases, so switching off does not stop the breath.
\<close>

theorem breathing_cycle_run:
  assumes "\<not> mode_changed c"
  shows "eff_run breathing_step (Suc (Suc NUM_LEDS) * (2 * Suc FADE_STEPS)) c rnd
           (st\<lparr>br_pc := B_RiseChk 0\<rparr>) =
         (concat (map (rise_frame (br_color st)) [0..<Suc FADE_STEPS]) @
          concat (map (fall_frame (br_color st)) (rev [0..<Suc FADE_STEPS])),
          Inl (st\<lparr>br_pc := B_Hold\<rparr>))"
proof -
  have fuel: "Suc (Suc NUM_LEDS) * (2 * Suc FADE_STEPS) =
      Suc (Suc NUM_LEDS) * (Suc FADE_STEPS - 0) + Suc (Suc NUM_LEDS) * Suc FADE_STEPS"
    by simp
  show ?thesis
    using rise_phase_run [OF assms, of 0 rnd st]
      fall_phase_run [OF assms, where st = "st\<lparr>br_pc := B_FallChk FADE_STEPS\<rparr>" and k = FADE_STEPS]
    by (simp only: fuel eff_run_add) simp
qed

theorem breathing_cycle_run_witness:
  "eff_run breathing_step (Suc (Suc NUM_LEDS) * (2 * Suc FADE_STEPS))
     \<lparr>brightness_level = 1, led_on = False, transition_mode = 2, mode_changed = False\<rparr> (\<lambda>_. 0)
     ((breathing_start 0)\<lparr>br_pc := B_RiseChk 0\<rparr>) =
   (concat (map (rise_frame (rgb 0 0 0)) [0..<Suc FADE_STEPS]) @
    concat (map (fall_frame (rgb 0 0 0)) (rev [0..<Suc FADE_STEPS])),
    Inl ((breathing_start 0)\<lparr>br_pc := B_Hold\<rparr>))"
  using breathing_cycle_run [of "\<lparr>brightness_level = 1, led_on = False, transition_mode = 2,
      mode_changed = False\<rparr>" "\<lambda>_. 0" "(breathing_start 0)\<lparr>br_pc := B_RiseChk 0\<rparr>"]
  by (simp add: breathing_start_def)

text \<open>
  The asymmetry of the phases makes the peak jump: for the palette's orange
  \<open>(4095, 2048, 0)\<close>, the green channel of the last rise frame (full brightness,
  gamma applied) is at most 1024, and that of the first fall frame (full
  brightness, no gamma) is 2048.
\<close>

theorem breathing_peak_jump:
  "base_colors ! 7 = rgb 4095 2048 0 \<and>
   unat (gamma_channel (rgb_g (base_colors ! 7)) (breath_level FADE_STEPS)) \<le> 1024 \<and>
   linear_channel (rgb_g (base_colors ! 7)) (breath_level FADE_STEPS) = 2048"
proof -
  have c: "base_colors ! 7 = rgb 4095 2048 0" by (simp add: base_colors_def)
  have "linear_channel 2048 1 = 2048" by (simp add: linear_channel_def c_f2u16_def)
  then show ?thesis using c peak_gamma_orange by (simp add: breath_level_top rgb_def)
qed

text \<open>
  C30: Cancellation during breathing: with \<open>mode_changed\<close> raised, from any
  program point the effect returns within 9 steps, having slept at most 340 ms (the
  rest of a 40 ms frame and the 300 ms hold).
\<close>

theorem breathing_cancel_latency:
  assumes "mode_changed c" "breathing_pc_ok (br_pc st)"
  shows "\<exists>os r. eff_run breathing_step 9 c rnd st = (os, Inr r) \<and> delay_total os \<le> 340"
proof -
  obtain os r where run: "eff_run breathing_step (Suc (breathing_measure (br_pc st))) c rnd st = (os, Inr r)"
    using eff_run_returns [where step = breathing_step and c = c and rnd = rnd and s = st and P = "\<lambda>s. breathing_pc_ok (br_pc s)" and m = "\<lambda>s. breathing_measure (br_pc s)",
        OF breathing_cancel_step [OF assms(1)] assms(2)] by blast
  have run9: "eff_run breathing_step 9 c rnd st = (os, Inr r)"
    using eff_run_more_fuel [OF run] breathing_measure_le [OF assms(2)] by simp
  have "delay_total (fst (eff_run breathing_step 9 c rnd st)) \<le> breathing_budget (br_pc st)"
    using eff_run_delay_budget [where step = breathing_step and c = c and rnd = rnd and s = st and n = 9 and P = "\<lambda>s. breathing_pc_ok (br_pc s)" and w = "\<lambda>s. breathing_budget (br_pc s)",
        OF breathing_budget_step [OF assms(1)] assms(2)] .
  with run9 breathing_budget_le [of "br_pc st"] show ?thesis by auto
qed

theorem breathing_cancel_latency_witness:
  "\<exists>os r. eff_run breathing_step 9
     \<lparr>brightness_level = 1, led_on = True, transition_mode = 0, mode_changed = True\<rparr> (\<lambda>_. 0)
     ((breathing_start 3)\<lparr>br_pc := B_FallLed 0 0\<rparr>) = (os, Inr r) \<and> delay_total os \<le> 340"
  by (rule breathing_cancel_latency) (simp_all add: breathing_start_def breathing_pc_ok_def FADE_STEPS_def NUM_LEDS_def)

text \<open>
  C36: Power-off or a mode change that leaves \<open>mode_changed\<close> clear does not stop a
  breath: once the loop condition fails, with \<open>mode_changed\<close> clear, the effect
  does not return until it reaches the next loop test (the \<open>while\<close> test, or the
  test at the top of the body), within 1415 steps and 8380 ms (a whole breath and
  the hold) from any program point; the step at that test returns, with the
  palette index held there.
\<close>

theorem breathing_stop_latency:
  assumes "\<not> (led_on c \<and> transition_mode c = 2)" "\<not> mode_changed c" "breathing_pc_ok (br_pc st)"
  shows "\<exists>n os s'. n \<le> 1415 \<and> eff_run breathing_step n c rnd st = (os, Inl s') \<and>
           (br_pc s' = B_While \<or> br_pc s' = B_Top) \<and>
           eff_run breathing_step (Suc n) c rnd st = (os, Inr (br_idx s')) \<and> delay_total os \<le> 8380"
proof -
  let ?n = "breathing_stop_measure (br_pc st)"
  obtain os s' where run: "eff_run breathing_step ?n c rnd st = (os, Inl s')"
      and ok: "breathing_pc_ok (br_pc s')" and m0: "breathing_stop_measure (br_pc s') = 0"
    using eff_run_countdown [where step = breathing_step and P = "\<lambda>s. breathing_pc_ok (br_pc s)"
        and m = "\<lambda>s. breathing_stop_measure (br_pc s)", OF breathing_stop_countdown [OF assms(1,2)] assms(3)]
    by blast
  have pc: "br_pc s' = B_While \<or> br_pc s' = B_Top" using breathing_stop_measure_0 [OF ok] m0 by simp
  then have "breathing_step c r s' = Done (br_idx s')" for r
    using assms(1) by (auto simp: breathing_step.simps)
  then have ret: "eff_run breathing_step (Suc ?n) c rnd st = (os, Inr (br_idx s'))"
    using run eff_run_add [of breathing_step ?n 1 c rnd st] by simp
  have "delay_total (fst (eff_run breathing_step ?n c rnd st)) \<le> breathing_stop_budget (br_pc st)"
    using eff_run_delay_budget [where step = breathing_step and c = c and rnd = rnd and s = st and n = ?n
        and P = "\<lambda>s. breathing_pc_ok (br_pc s)" and w = "\<lambda>s. breathing_stop_budget (br_pc s)",
        OF breathing_stop_budget_step [OF assms(1)] assms(3)] .
  then have "delay_total os \<le> 8380" using run breathing_stop_budget_le [OF assms(3)] by simp
  then show ?thesis using run pc ret breathing_stop_measure_le [OF assms(3)] by blast
qed

theorem breathing_stop_latency_witness:
  "\<exists>n os s'. n \<le> 1415 \<and>
     eff_run breathing_step n \<lparr>brightness_level = 1, led_on = False, transition_mode = 2, mode_changed = False\<rparr>
       (\<lambda>_. 0) ((breathing_start 0)\<lparr>br_pc := B_RiseChk 0\<rparr>) = (os, Inl s') \<and>
     (br_pc s' = B_While \<or> br_pc s' = B_Top) \<and>
     eff_run breathing_step (Suc n) \<lparr>brightness_level = 1, led_on = False, transition_mode = 2, mode_changed = False\<rparr>
       (\<lambda>_. 0) ((breathing_start 0)\<lparr>br_pc := B_RiseChk 0\<rparr>) = (os, Inr (br_idx s')) \<and>
     delay_total os \<le> 8380"
  by (rule breathing_stop_latency) (simp_all add: breathing_start_def breathing_pc_ok_def)

end
