(* ===== verification/Dissolve.thy ===== *)
theory Dissolve
  imports Effect
begin

text \<open>
  Mode 0, \<open>individual_dissolve_transition\<close> of \<open>src/src/transitons.c\<close>: a shared
  random colour faded in on all fixtures from white, then, while \<open>led_on &&
  transition_mode == 0\<close>, one fixture after the other fades from its colour to white,
  from white to a new random colour, and holds it for a random time. The effect
  reads \<open>led_on\<close> before each fixture and both globals at the loop test; it never
  reads \<open>mode_changed\<close>.
\<close>

section \<open>Calls and draws\<close>

text \<open>\<open>set_rgb_led(i, c.r, c.g, c.b)\<close> for a colour \<open>c\<close>.\<close>

definition led_call :: "nat \<Rightarrow> rgb_color_t \<Rightarrow> anim_out" where
  "led_call i col = SetLed i (rgb_r col) (rgb_g col) (rgb_b col)"

text \<open>
  \<open>int hold = HOLD_TIME_MIN_MS + (esp_random() % (HOLD_TIME_MAX_MS - HOLD_TIME_MIN_MS));\<close>:
  the draw is a \<open>uint32_t\<close>, so the remainder and the sum are taken in 32 bits.
\<close>

definition dissolve_hold :: "u32 \<Rightarrow> nat" where
  "dissolve_hold r =
     unat (word_of_nat HOLD_TIME_MIN_MS + r mod word_of_nat (HOLD_TIME_MAX_MS - HOLD_TIME_MIN_MS) :: u32)"

text \<open>\<open>float progress = (float)step / FADE_STEPS;\<close>\<close>

definition progress :: "nat \<Rightarrow> real" where
  "progress step = real step / real FADE_STEPS"

section \<open>The effect as a machine\<close>

text \<open>
  Program points: the draw of \<open>shared_color\<close>; the opening fade at step \<open>k\<close>,
  fixture \<open>i\<close> (\<open>i = NUM_LEDS\<close>: the sleep ending the step); the \<open>while\<close> test; the
  head of the fixture loop at \<open>i\<close> (the \<open>led_on\<close> test and the draw of
  \<open>next_color[i]\<close>); the call and the sleep of step \<open>k\<close> of the fade out to white
  and of the fade in; the hold.
\<close>

datatype dissolve_pc =
  D_Start | D_Init nat nat | D_While | D_Fix nat
| D_Out nat nat | D_OutDelay nat nat | D_In nat nat | D_InDelay nat nat | D_Hold nat

text \<open>
  The locals \<open>current_color[NUM_LEDS]\<close>, \<open>next_color[NUM_LEDS]\<close> and
  \<open>shared_color\<close>; the arrays are uninitialised in the code and each entry is
  written before it is read, so the start values are immaterial.
\<close>

record dissolve_st =
  ds_pc :: dissolve_pc
  ds_cur :: "rgb_color_t list"
  ds_next :: "rgb_color_t list"
  ds_shared :: rgb_color_t

definition dissolve_start :: dissolve_st where
  "dissolve_start =
     \<lparr>ds_pc = D_Start, ds_cur = replicate NUM_LEDS (rgb 0 0 0),
      ds_next = replicate NUM_LEDS (rgb 0 0 0), ds_shared = rgb 0 0 0\<rparr>"

fun dissolve_step :: "ctrl_state \<Rightarrow> u32 \<Rightarrow> dissolve_st \<Rightarrow> (dissolve_st, unit) eff_step" where
  "dissolve_step c rnd st =
     (case ds_pc st of
        D_Start \<Rightarrow> Emit (st\<lparr>ds_pc := D_Init 0 0, ds_shared := get_random_color rnd\<rparr>) None
      | D_Init k i \<Rightarrow>
          (if i < NUM_LEDS
           then Emit (st\<lparr>ds_pc := D_Init k (Suc i)\<rparr>)
                  (Some (led_call i (interpolate_easeInOut white (ds_shared st) (progress k))))
           else if k < FADE_STEPS
           then Emit (st\<lparr>ds_pc := D_Init (Suc k) 0\<rparr>) (Some (Delay FADE_DELAY_MS))
           else Emit (st\<lparr>ds_pc := D_While, ds_cur := replicate NUM_LEDS (ds_shared st)\<rparr>)
                  (Some (Delay FADE_DELAY_MS)))
      | D_While \<Rightarrow>
          (if led_on c \<and> transition_mode c = 0 then Emit (st\<lparr>ds_pc := D_Fix 0\<rparr>) None else Done ())
      | D_Fix i \<Rightarrow>
          (if i < NUM_LEDS
           then (if \<not> led_on c then Done ()
                 else Emit (st\<lparr>ds_pc := D_Out i 0, ds_next := (ds_next st)[i := get_random_color rnd]\<rparr>) None)
           else Emit (st\<lparr>ds_pc := D_While\<rparr>) None)
      | D_Out i k \<Rightarrow>
          Emit (st\<lparr>ds_pc := D_OutDelay i k\<rparr>)
            (Some (led_call i (interpolate_easeInOut (ds_cur st ! i) white (progress k))))
      | D_OutDelay i k \<Rightarrow>
          Emit (st\<lparr>ds_pc := (if k < FADE_STEPS then D_Out i (Suc k) else D_In i 0)\<rparr>)
            (Some (Delay FADE_DELAY_MS))
      | D_In i k \<Rightarrow>
          Emit (st\<lparr>ds_pc := D_InDelay i k\<rparr>)
            (Some (led_call i (interpolate_easeInOut white (ds_next st ! i) (progress k))))
      | D_InDelay i k \<Rightarrow>
          (if k < FADE_STEPS then Emit (st\<lparr>ds_pc := D_In i (Suc k)\<rparr>) (Some (Delay FADE_DELAY_MS))
           else Emit (st\<lparr>ds_pc := D_Hold i, ds_cur := (ds_cur st)[i := ds_next st ! i]\<rparr>)
                  (Some (Delay FADE_DELAY_MS)))
      | D_Hold i \<Rightarrow> Emit (st\<lparr>ds_pc := D_Fix (Suc i)\<rparr>) (Some (Delay (dissolve_hold rnd))))"

text \<open>The program points the machine can be at.\<close>

definition dissolve_pc_ok :: "dissolve_pc \<Rightarrow> bool" where
  "dissolve_pc_ok pc =
     (case pc of
        D_Init k i \<Rightarrow> k \<le> FADE_STEPS \<and> i \<le> NUM_LEDS
      | D_Fix i \<Rightarrow> i \<le> NUM_LEDS
      | D_Out i k \<Rightarrow> i < NUM_LEDS \<and> k \<le> FADE_STEPS
      | D_OutDelay i k \<Rightarrow> i < NUM_LEDS \<and> k \<le> FADE_STEPS
      | D_In i k \<Rightarrow> i < NUM_LEDS \<and> k \<le> FADE_STEPS
      | D_InDelay i k \<Rightarrow> i < NUM_LEDS \<and> k \<le> FADE_STEPS
      | D_Hold i \<Rightarrow> i < NUM_LEDS
      | _ \<Rightarrow> True)"

text \<open>The calls of one step of the opening fade, and of a whole fade of one fixture.\<close>

definition init_frame :: "rgb_color_t \<Rightarrow> nat \<Rightarrow> anim_out list" where
  "init_frame shared k =
     map (\<lambda>i. led_call i (interpolate_easeInOut white shared (progress k))) [0..<NUM_LEDS]
     @ [Delay FADE_DELAY_MS]"

definition fade_frames :: "nat \<Rightarrow> rgb_color_t \<Rightarrow> rgb_color_t \<Rightarrow> anim_out list" where
  "fade_frames i a b =
     concat (map (\<lambda>k. [led_call i (interpolate_easeInOut a b (progress k)), Delay FADE_DELAY_MS])
       [0..<Suc FADE_STEPS])"

text \<open>
  Steps to the return once the loop condition is false, and the sleep time on the
  way: the measure and the budget of the cancellation bound. From the head of
  fixture \<open>i\<close> the rest of the pass costs 406 steps and at most
  \<open>2 * 101 * 40 + 2999\<close> ms per fixture.
\<close>

definition dissolve_fix_steps :: "nat \<Rightarrow> nat" where
  "dissolve_fix_steps i = 1 + 406 * (NUM_LEDS - i)"

definition dissolve_fix_ms :: "nat \<Rightarrow> nat" where
  "dissolve_fix_ms i = 11079 * (NUM_LEDS - i)"

definition dissolve_measure :: "dissolve_pc \<Rightarrow> nat" where
  "dissolve_measure pc =
     (case pc of
        D_Start \<Rightarrow> 607
      | D_Init k i \<Rightarrow> 6 * (FADE_STEPS - k) + 6 - i
      | D_While \<Rightarrow> 0
      | D_Fix i \<Rightarrow> dissolve_fix_steps i
      | D_Out i k \<Rightarrow> 2 * (FADE_STEPS - k) + 205 + dissolve_fix_steps (Suc i)
      | D_OutDelay i k \<Rightarrow> 2 * (FADE_STEPS - k) + 204 + dissolve_fix_steps (Suc i)
      | D_In i k \<Rightarrow> 2 * (FADE_STEPS - k) + 3 + dissolve_fix_steps (Suc i)
      | D_InDelay i k \<Rightarrow> 2 * (FADE_STEPS - k) + 2 + dissolve_fix_steps (Suc i)
      | D_Hold i \<Rightarrow> 1 + dissolve_fix_steps (Suc i))"

definition dissolve_budget :: "dissolve_pc \<Rightarrow> nat" where
  "dissolve_budget pc =
     (case pc of
        D_Start \<Rightarrow> 4040
      | D_Init k i \<Rightarrow> 40 * (Suc FADE_STEPS - k)
      | D_While \<Rightarrow> 0
      | D_Fix i \<Rightarrow> dissolve_fix_ms i
      | D_Out i k \<Rightarrow> 40 * (Suc FADE_STEPS - k) + 4040 + 2999 + dissolve_fix_ms (Suc i)
      | D_OutDelay i k \<Rightarrow> 40 * (Suc FADE_STEPS - k) + 4040 + 2999 + dissolve_fix_ms (Suc i)
      | D_In i k \<Rightarrow> 40 * (Suc FADE_STEPS - k) + 2999 + dissolve_fix_ms (Suc i)
      | D_InDelay i k \<Rightarrow> 40 * (Suc FADE_STEPS - k) + 2999 + dissolve_fix_ms (Suc i)
      | D_Hold i \<Rightarrow> 2999 + dissolve_fix_ms (Suc i))"

declare dissolve_step.simps [simp del]

section \<open>Lemmas\<close>

lemma dissolve_hold_eq: "dissolve_hold r = 1000 + unat r mod 2000"
proof -
  have m: "unat (r mod 2000) = unat r mod 2000" by (simp add: unat_mod)
  have "unat (r mod 2000) < 2000" unfolding m by simp
  then have "unat (1000 + r mod 2000 :: u32) = 1000 + unat (r mod 2000)"
    using unat_add_lem [of "1000 :: u32" "r mod 2000"] by simp
  then show ?thesis by (simp add: dissolve_hold_def HOLD_TIME_MIN_MS_def HOLD_TIME_MAX_MS_def m)
qed

lemma dissolve_hold_le: "dissolve_hold r \<le> 2999"
  by (simp add: dissolve_hold_eq)

lemma dissolve_hold_ge: "1000 \<le> dissolve_hold r"
  by (simp add: dissolve_hold_eq)

lemma dissolve_cancel_step:
  assumes "\<not> (led_on c \<and> transition_mode c = 0)" "dissolve_pc_ok (ds_pc s)"
  shows "case dissolve_step c r s of
           Done _ \<Rightarrow> True
         | Emit s' out \<Rightarrow> dissolve_pc_ok (ds_pc s') \<and> dissolve_measure (ds_pc s') < dissolve_measure (ds_pc s)"
  using assms
  by (cases "ds_pc s")
     (auto simp: dissolve_step.simps dissolve_pc_ok_def dissolve_measure_def dissolve_fix_steps_def
        NUM_LEDS_def FADE_STEPS_def)

lemma dissolve_budget_step:
  assumes "\<not> (led_on c \<and> transition_mode c = 0)" "dissolve_pc_ok (ds_pc s)"
  shows "case dissolve_step c r s of
           Done _ \<Rightarrow> True
         | Emit s' out \<Rightarrow> dissolve_pc_ok (ds_pc s') \<and>
             delay_total (out_list out) + dissolve_budget (ds_pc s') \<le> dissolve_budget (ds_pc s)"
  using assms dissolve_hold_le [of r]
  by (cases "ds_pc s")
     (auto simp: dissolve_step.simps dissolve_pc_ok_def dissolve_budget_def dissolve_fix_ms_def
        led_call_def NUM_LEDS_def FADE_STEPS_def FADE_DELAY_MS_def)

lemma dissolve_measure_le: "dissolve_pc_ok pc \<Longrightarrow> dissolve_measure pc \<le> 2031"
  by (cases pc) (auto simp: dissolve_measure_def dissolve_pc_ok_def dissolve_fix_steps_def NUM_LEDS_def FADE_STEPS_def)

lemma dissolve_budget_le: "dissolve_pc_ok pc \<Longrightarrow> dissolve_budget pc \<le> 55395"
  by (cases pc) (auto simp: dissolve_budget_def dissolve_pc_ok_def dissolve_fix_ms_def NUM_LEDS_def FADE_STEPS_def)


lemma init_step_run:
  assumes "k \<le> FADE_STEPS"
  shows "eff_run dissolve_step (Suc NUM_LEDS) c rnd (st\<lparr>ds_pc := D_Init k 0\<rparr>) =
           (init_frame (ds_shared st) k,
            Inl (if k < FADE_STEPS then st\<lparr>ds_pc := D_Init (Suc k) 0\<rparr>
                 else st\<lparr>ds_pc := D_While, ds_cur := replicate NUM_LEDS (ds_shared st)\<rparr>))"
  unfolding init_frame_def
  using eff_run_frame [where S = "\<lambda>j. st\<lparr>ds_pc := D_Init k j\<rparr>" and i = 0 and N = NUM_LEDS
      and step = dissolve_step and c = c and rnd = rnd
      and f = "\<lambda>i. led_call i (interpolate_easeInOut white (ds_shared st) (progress k))"
      and d = "Delay FADE_DELAY_MS"
      and s' = "if k < FADE_STEPS then st\<lparr>ds_pc := D_Init (Suc k) 0\<rparr>
                 else st\<lparr>ds_pc := D_While, ds_cur := replicate NUM_LEDS (ds_shared st)\<rparr>"]
  by (simp add: dissolve_step.simps)

lemma init_phase_run:
  "eff_run dissolve_step (Suc NUM_LEDS * Suc FADE_STEPS) c rnd (st\<lparr>ds_pc := D_Init 0 0\<rparr>) =
     (concat (map (init_frame (ds_shared st)) [0..<Suc FADE_STEPS]),
      Inl (st\<lparr>ds_pc := D_While, ds_cur := replicate NUM_LEDS (ds_shared st)\<rparr>))"
  using eff_run_iter [where S = "\<lambda>j. if j < Suc FADE_STEPS then st\<lparr>ds_pc := D_Init j 0\<rparr>
        else st\<lparr>ds_pc := D_While, ds_cur := replicate NUM_LEDS (ds_shared st)\<rparr>"
      and N = "Suc FADE_STEPS" and L = "Suc NUM_LEDS" and f = "init_frame (ds_shared st)"
      and step = dissolve_step and c = c and rnd = rnd]
  by (simp add: init_step_run)

lemma out_step_run:
  assumes "k \<le> FADE_STEPS"
  shows "eff_run dissolve_step (Suc (Suc 0)) c rnd (st\<lparr>ds_pc := D_Out i k\<rparr>) =
           ([led_call i (interpolate_easeInOut (ds_cur st ! i) white (progress k)), Delay FADE_DELAY_MS],
            Inl (if k < FADE_STEPS then st\<lparr>ds_pc := D_Out i (Suc k)\<rparr> else st\<lparr>ds_pc := D_In i 0\<rparr>))"
  by (simp add: dissolve_step.simps)

lemma in_step_run:
  assumes "k \<le> FADE_STEPS"
  shows "eff_run dissolve_step (Suc (Suc 0)) c rnd (st\<lparr>ds_pc := D_In i k\<rparr>) =
           ([led_call i (interpolate_easeInOut white (ds_next st ! i) (progress k)), Delay FADE_DELAY_MS],
            Inl (if k < FADE_STEPS then st\<lparr>ds_pc := D_In i (Suc k)\<rparr>
                 else st\<lparr>ds_pc := D_Hold i, ds_cur := (ds_cur st)[i := ds_next st ! i]\<rparr>))"
  by (simp add: dissolve_step.simps)

lemma out_phase_run:
  "eff_run dissolve_step (Suc (Suc 0) * Suc FADE_STEPS) c rnd (st\<lparr>ds_pc := D_Out i 0\<rparr>) =
     (fade_frames i (ds_cur st ! i) white, Inl (st\<lparr>ds_pc := D_In i 0\<rparr>))"
  unfolding fade_frames_def
  using eff_run_iter [where S = "\<lambda>j. if j < Suc FADE_STEPS then st\<lparr>ds_pc := D_Out i j\<rparr>
        else st\<lparr>ds_pc := D_In i 0\<rparr>"
      and N = "Suc FADE_STEPS" and L = "Suc (Suc 0)" and step = dissolve_step and c = c and rnd = rnd
      and f = "\<lambda>k. [led_call i (interpolate_easeInOut (ds_cur st ! i) white (progress k)), Delay FADE_DELAY_MS]"]
  by (simp add: out_step_run)

lemma in_phase_run:
  "eff_run dissolve_step (Suc (Suc 0) * Suc FADE_STEPS) c rnd (st\<lparr>ds_pc := D_In i 0\<rparr>) =
     (fade_frames i white (ds_next st ! i),
      Inl (st\<lparr>ds_pc := D_Hold i, ds_cur := (ds_cur st)[i := ds_next st ! i]\<rparr>))"
  unfolding fade_frames_def
  using eff_run_iter [where S = "\<lambda>j. if j < Suc FADE_STEPS then st\<lparr>ds_pc := D_In i j\<rparr>
        else st\<lparr>ds_pc := D_Hold i, ds_cur := (ds_cur st)[i := ds_next st ! i]\<rparr>"
      and N = "Suc FADE_STEPS" and L = "Suc (Suc 0)" and step = dissolve_step and c = c and rnd = rnd
      and f = "\<lambda>k. [led_call i (interpolate_easeInOut white (ds_next st ! i) (progress k)), Delay FADE_DELAY_MS]"]
  by (simp add: in_step_run)


lemma delay_total_fade_frames: "delay_total (fade_frames i a b) = 4040"
  by (simp add: fade_frames_def delay_total_concat led_call_def FADE_DELAY_MS_def FADE_STEPS_def
      o_def sum_list_triv)

lemma dissolve_fixture_run:
  assumes "led_on c" "i < NUM_LEDS" "i < length (ds_next st)"
  shows "eff_run dissolve_step 406 c rnd (st\<lparr>ds_pc := D_Fix i\<rparr>) =
           (fade_frames i (ds_cur st ! i) white @ fade_frames i white (get_random_color (rnd 0))
              @ [Delay (dissolve_hold (rnd 405))],
            Inl (st\<lparr>ds_pc := D_Fix (Suc i), ds_cur := (ds_cur st)[i := get_random_color (rnd 0)],
                    ds_next := (ds_next st)[i := get_random_color (rnd 0)]\<rparr>))"
proof -
  define nc where "nc = get_random_color (rnd 0)"
  define st1 where "st1 = st\<lparr>ds_pc := D_Out i 0, ds_next := (ds_next st)[i := nc]\<rparr>"
  define st1' where "st1' = st1\<lparr>ds_pc := D_In i 0\<rparr>"
  define st2 where "st2 = st1'\<lparr>ds_pc := D_Hold i, ds_cur := (ds_cur st1')[i := ds_next st1' ! i]\<rparr>"
  have s1: "dissolve_step c (rnd 0) (st\<lparr>ds_pc := D_Fix i\<rparr>) = Emit st1 None"
    using assms by (simp add: dissolve_step.simps st1_def nc_def)
  have e1: "st1\<lparr>ds_pc := D_Out i 0\<rparr> = st1" "st1'\<lparr>ds_pc := D_In i 0\<rparr> = st1'"
    by (simp_all add: st1_def st1'_def)
  have c1: "ds_cur st1 = ds_cur st" "ds_cur st1' = ds_cur st" "ds_next st1' ! i = nc"
    using assms(3) by (simp_all add: st1_def st1'_def)
  have o: "\<And>r. eff_run dissolve_step (Suc (Suc 0) * Suc FADE_STEPS) c r st1 =
      (fade_frames i (ds_cur st ! i) white, Inl st1')"
    using out_phase_run [where st = st1 and i = i and c = c] unfolding e1 c1 st1'_def .
  have n: "\<And>r. eff_run dissolve_step (Suc (Suc 0) * Suc FADE_STEPS) c r st1' =
      (fade_frames i white nc, Inl st2)"
    using in_phase_run [where st = st1' and i = i and c = c] unfolding e1 c1 st2_def c1 .
  have h: "\<And>r. eff_run dissolve_step (Suc 0) c r st2 =
      ([Delay (dissolve_hold (r 0))], Inl (st2\<lparr>ds_pc := D_Fix (Suc i)\<rparr>))"
    by (simp add: dissolve_step.simps st2_def)
  have A: "eff_run dissolve_step (Suc (Suc 0) * Suc FADE_STEPS + (Suc (Suc 0) * Suc FADE_STEPS + Suc 0)) c
          (\<lambda>k. rnd (Suc k)) st1 =
        (fade_frames i (ds_cur st ! i) white @ fade_frames i white nc @ [Delay (dissolve_hold (rnd 405))],
         Inl (st2\<lparr>ds_pc := D_Fix (Suc i)\<rparr>))"
    by (simp only: eff_run_add o n h prod.case sum.case fst_conv snd_conv) (simp add: FADE_STEPS_def)
  have B: "eff_run dissolve_step (Suc (Suc (Suc 0) * Suc FADE_STEPS + (Suc (Suc 0) * Suc FADE_STEPS + Suc 0)))
             c rnd (st\<lparr>ds_pc := D_Fix i\<rparr>) =
        (fade_frames i (ds_cur st ! i) white @ fade_frames i white nc @ [Delay (dissolve_hold (rnd 405))],
         Inl (st2\<lparr>ds_pc := D_Fix (Suc i)\<rparr>))"
    using s1 A by (simp only: eff_run_Emit out_list.simps append_Nil fst_conv snd_conv)
  have num: "Suc (Suc (Suc 0) * Suc FADE_STEPS + (Suc (Suc 0) * Suc FADE_STEPS + Suc 0)) = 406"
    by (simp add: FADE_STEPS_def)
  have st2: "st2\<lparr>ds_pc := D_Fix (Suc i)\<rparr> =
      st\<lparr>ds_pc := D_Fix (Suc i), ds_cur := (ds_cur st)[i := nc], ds_next := (ds_next st)[i := nc]\<rparr>"
    using assms(3) by (simp add: st1_def st1'_def st2_def)
  show ?thesis using B unfolding num st2 nc_def .
qed

lemma dissolve_pass_run:
  assumes "led_on c" "length (ds_next st) = NUM_LEDS" "ds_pc st = D_Fix i" "i + n \<le> NUM_LEDS"
  shows "\<exists>os s'. eff_run dissolve_step (406 * n) c rnd st = (os, Inl s') \<and> ds_pc s' = D_Fix (i + n) \<and>
           length (ds_next s') = NUM_LEDS \<and> 9080 * n \<le> delay_total os"
  using assms(2-4)
proof (induction n arbitrary: st i rnd)
  case 0
  then show ?case by simp
next
  case (Suc n)
  have st: "st\<lparr>ds_pc := D_Fix i\<rparr> = st" using Suc.prems(2) by simp
  define nc where "nc = get_random_color (rnd 0)"
  define st' where "st' = st\<lparr>ds_pc := D_Fix (Suc i), ds_cur := (ds_cur st)[i := nc],
                    ds_next := (ds_next st)[i := nc]\<rparr>"
  define os1 where "os1 = fade_frames i (ds_cur st ! i) white @ fade_frames i white nc
              @ [Delay (dissolve_hold (rnd 405))]"
  have r1: "eff_run dissolve_step 406 c rnd st = (os1, Inl st')"
    using dissolve_fixture_run [OF assms(1), of i st rnd] Suc.prems
    by (simp add: st st'_def os1_def nc_def)
  have d1: "9080 \<le> delay_total os1"
    using dissolve_hold_ge [of "rnd 405"] by (simp add: os1_def delay_total_fade_frames)
  obtain os s' where r2: "eff_run dissolve_step (406 * n) c (\<lambda>k. rnd (k + 406)) st' = (os, Inl s')"
    and p: "ds_pc s' = D_Fix (Suc i + n)" "length (ds_next s') = NUM_LEDS" "9080 * n \<le> delay_total os"
    using Suc.IH [of st' "Suc i" "\<lambda>k. rnd (k + 406)"] Suc.prems by (auto simp: st'_def)
  have "eff_run dissolve_step (406 + 406 * n) c rnd st = (os1 @ os, Inl s')"
    by (simp only: eff_run_add) (simp add: r1 r2)
  then show ?case using d1 p by (intro exI [of _ "os1 @ os"] exI [of _ s']) simp
qed


text \<open>Every step keeps the program point valid and both arrays at \<open>NUM_LEDS\<close> entries.\<close>

lemma dissolve_step_ok:
  assumes "dissolve_pc_ok (ds_pc s)" "length (ds_cur s) = NUM_LEDS" "length (ds_next s) = NUM_LEDS"
  shows "case dissolve_step c r s of
           Done _ \<Rightarrow> True
         | Emit s' out \<Rightarrow> dissolve_pc_ok (ds_pc s') \<and> length (ds_cur s') = NUM_LEDS \<and>
             length (ds_next s') = NUM_LEDS"
  using assms
  by (cases "ds_pc s") (auto simp: dissolve_step.simps dissolve_pc_ok_def NUM_LEDS_def FADE_STEPS_def)

section \<open>Properties of the dissolve effect\<close>

text \<open>
  C31: The opening fade of the dissolve reads no global: under every control state
  (also with \<open>led_on\<close> false, another mode, or \<open>mode_changed\<close> raised) the first
  607 steps draw the shared colour and send the 101 frames fading all fixtures from
  white to it, and only then reach the loop test.
\<close>

theorem dissolve_init_ignores_control:
  "eff_run dissolve_step (Suc (Suc NUM_LEDS * Suc FADE_STEPS)) c rnd dissolve_start =
     (concat (map (init_frame (get_random_color (rnd 0))) [0..<Suc FADE_STEPS]),
      Inl (dissolve_start\<lparr>ds_pc := D_While, ds_cur := replicate NUM_LEDS (get_random_color (rnd 0)),
                            ds_shared := get_random_color (rnd 0)\<rparr>))"
proof -
  define st where "st = dissolve_start\<lparr>ds_shared := get_random_color (rnd 0)\<rparr>"
  have "dissolve_step c (rnd 0) dissolve_start = Emit (st\<lparr>ds_pc := D_Init 0 0\<rparr>) None"
    by (simp add: dissolve_step.simps dissolve_start_def st_def)
  then show ?thesis
    using init_phase_run [of c "\<lambda>k. rnd (Suc k)" st] by (simp add: st_def)
qed

text \<open>
  C32: One fixture cycle of the dissolve loop: while \<open>led_on\<close> holds, from the head of
  the loop at fixture \<open>i\<close> the effect draws the fixture's next colour, fades the
  fixture from its colour to white and from white to the new colour (101 frames
  each, 40 ms apart), stores the new colour, holds for the drawn time and moves to
  fixture \<open>i + 1\<close>: 406 steps.
\<close>

theorem dissolve_fixture_cycle:
  assumes "led_on c" "i < NUM_LEDS" "length (ds_next st) = NUM_LEDS"
  shows "eff_run dissolve_step 406 c rnd (st\<lparr>ds_pc := D_Fix i\<rparr>) =
           (fade_frames i (ds_cur st ! i) white @ fade_frames i white (get_random_color (rnd 0))
              @ [Delay (dissolve_hold (rnd 405))],
            Inl (st\<lparr>ds_pc := D_Fix (Suc i), ds_cur := (ds_cur st)[i := get_random_color (rnd 0)],
                    ds_next := (ds_next st)[i := get_random_color (rnd 0)]\<rparr>))"
  using dissolve_fixture_run [OF assms(1,2)] assms(2,3) by simp

theorem dissolve_fixture_cycle_witness:
  "eff_run dissolve_step 406 ctrl_init (\<lambda>_. 0) (dissolve_start\<lparr>ds_pc := D_Fix 0\<rparr>) =
     (fade_frames 0 (ds_cur dissolve_start ! 0) white @ fade_frames 0 white (get_random_color 0)
        @ [Delay (dissolve_hold 0)],
      Inl (dissolve_start\<lparr>ds_pc := D_Fix (Suc 0),
             ds_cur := (ds_cur dissolve_start)[0 := get_random_color 0],
             ds_next := (ds_next dissolve_start)[0 := get_random_color 0]\<rparr>))"
  using dissolve_fixture_cycle [of ctrl_init 0 dissolve_start "\<lambda>_. 0"]
  by (simp add: ctrl_init_def dissolve_start_def NUM_LEDS_def)

text \<open>
  C33: The hold after a fixture's fade lies in \<open>[HOLD_TIME_MIN_MS, HOLD_TIME_MAX_MS)\<close>:
  the draw modulo \<open>HOLD_TIME_MAX_MS - HOLD_TIME_MIN_MS\<close> reaches 2999 ms at most, so
  the maximum hold is never used.
\<close>

theorem dissolve_hold_range:
  "HOLD_TIME_MIN_MS \<le> dissolve_hold r \<and> dissolve_hold r < HOLD_TIME_MAX_MS \<and>
   dissolve_hold 0 = HOLD_TIME_MIN_MS \<and> dissolve_hold 1999 = HOLD_TIME_MAX_MS - 1"
  using dissolve_hold_ge [of r] dissolve_hold_le [of r]
  by (simp add: dissolve_hold_eq HOLD_TIME_MIN_MS_def HOLD_TIME_MAX_MS_def)

text \<open>
  C34: Termination of the dissolve once the loop condition fails: if \<open>led_on\<close> is
  false or the mode is not 0, from any program point the effect returns within
  2032 steps, having slept at most 55395 ms (the opening fade, or the rest of the
  pass over the five fixtures at 11079 ms each).
\<close>

theorem dissolve_cancel_latency:
  assumes "\<not> (led_on c \<and> transition_mode c = 0)" "dissolve_pc_ok (ds_pc st)"
  shows "\<exists>os r. eff_run dissolve_step 2032 c rnd st = (os, Inr r) \<and> delay_total os \<le> 55395"
proof -
  obtain os r where run: "eff_run dissolve_step (Suc (dissolve_measure (ds_pc st))) c rnd st = (os, Inr r)"
    using eff_run_returns [where step = dissolve_step and c = c and rnd = rnd and s = st
        and P = "\<lambda>s. dissolve_pc_ok (ds_pc s)" and m = "\<lambda>s. dissolve_measure (ds_pc s)",
        OF dissolve_cancel_step [OF assms(1)] assms(2)] by blast
  have run': "eff_run dissolve_step 2032 c rnd st = (os, Inr r)"
    using eff_run_more_fuel [OF run] dissolve_measure_le [OF assms(2)] by simp
  have "delay_total (fst (eff_run dissolve_step 2032 c rnd st)) \<le> dissolve_budget (ds_pc st)"
    using eff_run_delay_budget [where step = dissolve_step and c = c and rnd = rnd and s = st and n = 2032
        and P = "\<lambda>s. dissolve_pc_ok (ds_pc s)" and w = "\<lambda>s. dissolve_budget (ds_pc s)",
        OF dissolve_budget_step [OF assms(1)] assms(2)] .
  with run' dissolve_budget_le [OF assms(2)] show ?thesis by auto
qed

theorem dissolve_cancel_latency_witness:
  "\<exists>os r. eff_run dissolve_step 2032 \<lparr>brightness_level = 1, led_on = True, transition_mode = 1,
     mode_changed = True\<rparr> (\<lambda>_. 0) (dissolve_start\<lparr>ds_pc := D_Out 0 0\<rparr>) = (os, Inr r) \<and>
     delay_total os \<le> 55395"
  by (rule dissolve_cancel_latency) (simp_all add: dissolve_start_def dissolve_pc_ok_def NUM_LEDS_def)

text \<open>
  C35: The dissolve does not notice a mode change within a frame: with \<open>led_on\<close>
  true, whatever the mode and \<open>mode_changed\<close>, a pass started at fixture 0 runs
  all 2030 steps of the five fixture cycles without returning and sleeps at least
  45400 ms on the way, where the mode-change contract asks for a return within one
  frame period.
\<close>

theorem dissolve_cancel_slow:
  assumes "led_on c" "length (ds_next st) = NUM_LEDS" "ds_pc st = D_Fix 0"
  shows "\<exists>os s'. eff_run dissolve_step 2030 c rnd st = (os, Inl s') \<and> 45400 \<le> delay_total os"
  using dissolve_pass_run [OF assms, of NUM_LEDS rnd] by (auto simp: NUM_LEDS_def)

theorem dissolve_cancel_slow_witness:
  "\<exists>os s'. eff_run dissolve_step 2030 \<lparr>brightness_level = 1, led_on = True, transition_mode = 1,
     mode_changed = True\<rparr> (\<lambda>_. 0) (dissolve_start\<lparr>ds_pc := D_Fix 0\<rparr>) = (os, Inl s') \<and>
     45400 \<le> delay_total os"
  by (rule dissolve_cancel_slow) (simp_all add: dissolve_start_def NUM_LEDS_def)

end
