(* ===== verification/System.thy ===== *)
theory System
  imports Rainbow Breathing Dissolve
begin

text \<open>
  The animation task and the whole system. \<open>led_animation_task\<close> of
  \<open>src/src/main_app.c\<close> loops: while \<open>led_on\<close> is false it switches every fixture
  off and sleeps 500 ms, otherwise it calls \<open>apply_transition_by_mode(transition_mode)\<close>
  of \<open>src/src/transitons.c\<close>, which runs the effect of the mode (dissolve for any
  other value) until it returns and then clears \<open>mode_changed\<close>. The task is a
  machine whose steps are the effect's steps and the loop's own statements; the
  system interleaves its steps with the two steps of the input path (an interrupt, an
  iteration of \<open>button_task\<close>), and every call of \<open>set_rgb_led\<close> becomes the I2C
  writes it makes at the brightness level of the moment.
\<close>

section \<open>The animation task\<close>

text \<open>
  Program points: the self test before the loop (at its \<open>k\<close>-th call), the top of the \<open>while (1)\<close> loop, the 500 ms sleep of the
  power-off branch, inside one of the three effects, and the statement
  \<open>mode_changed = false\<close> after the effect has returned.
\<close>

datatype anim_pc =
  A_SelfTest nat | A_Loop | A_OffDelay | A_Dissolve dissolve_st | A_Rainbow rainbow_st | A_Breathing breathing_st
| A_Clear

text \<open>The task's point and the two \<open>static\<close> variables of the effects.\<close>

record anim_st =
  a_pc :: anim_pc
  a_hue :: real
  a_idx :: int

text \<open>\<open>static float hue = 0\<close>, \<open>static int color_idx = 0\<close>; the task starts with its self test.\<close>

definition anim_init :: anim_st where
  "anim_init = \<lparr>a_pc = A_SelfTest 0, a_hue = 0, a_idx = 0\<rparr>"

text \<open>The \<open>switch (mode)\<close> of \<open>apply_transition_by_mode\<close>: the effect entered.\<close>

definition apply_transition_by_mode :: "int \<Rightarrow> anim_st \<Rightarrow> anim_pc" where
  "apply_transition_by_mode mode a =
     (if mode = 0 then A_Dissolve dissolve_start
      else if mode = 1 then A_Rainbow (rainbow_start (a_hue a))
      else if mode = 2 then A_Breathing (breathing_start (a_idx a))
      else A_Dissolve dissolve_start)"

text \<open>\<open>turn_off_all_leds()\<close> as the calls it makes.\<close>

definition off_calls :: "anim_out list" where
  "off_calls = map (\<lambda>i. SetLed i 0 0 0) [0..<NUM_LEDS]"

text \<open>
  The start-up self test of \<open>led_animation_task\<close> as the calls it makes: all fixtures
  off, then each fixture red, green, blue and off in turn, then all white for a
  second, then all off again.
\<close>

definition self_test_calls :: "anim_out list" where
  "self_test_calls =
     off_calls @
     concat (map (\<lambda>i. [SetLed i 4095 0 0, Delay 300, SetLed i 0 4095 0, Delay 300,
                        SetLed i 0 0 4095, Delay 300, SetLed i 0 0 0, Delay 100]) [0..<NUM_LEDS]) @
     map (\<lambda>i. SetLed i 4095 4095 4095) [0..<NUM_LEDS] @ [Delay 1000] @
     off_calls @ [Delay 500]"

text \<open>
  One step of the task: the new control state (only \<open>mode_changed\<close> is written),
  the new task state and the calls made.
\<close>

fun anim_step :: "ctrl_state \<Rightarrow> u32 \<Rightarrow> anim_st \<Rightarrow> ctrl_state \<times> anim_st \<times> anim_out list" where
  "anim_step c r a =
     (case a_pc a of
        A_SelfTest k \<Rightarrow>
          (if k < length self_test_calls then (c, a\<lparr>a_pc := A_SelfTest (Suc k)\<rparr>, [self_test_calls ! k])
           else (c, a\<lparr>a_pc := A_Loop\<rparr>, []))
      | A_Loop \<Rightarrow>
          (if \<not> led_on c then (c, a\<lparr>a_pc := A_OffDelay\<rparr>, off_calls)
           else (c, a\<lparr>a_pc := apply_transition_by_mode (transition_mode c) a\<rparr>, []))
      | A_OffDelay \<Rightarrow> (c, a\<lparr>a_pc := A_Loop\<rparr>, [Delay 500])
      | A_Dissolve ds \<Rightarrow>
          (case dissolve_step c r ds of
             Emit ds' out \<Rightarrow> (c, a\<lparr>a_pc := A_Dissolve ds'\<rparr>, out_list out)
           | Done _ \<Rightarrow> (c, a\<lparr>a_pc := A_Clear\<rparr>, []))
      | A_Rainbow rs \<Rightarrow>
          (case rainbow_step c r rs of
             Emit rs' out \<Rightarrow> (c, a\<lparr>a_pc := A_Rainbow rs'\<rparr>, out_list out)
           | Done hue \<Rightarrow> (c, a\<lparr>a_pc := A_Clear, a_hue := hue\<rparr>, []))
      | A_Breathing bs \<Rightarrow>
          (case breathing_step c r bs of
             Emit bs' out \<Rightarrow> (c, a\<lparr>a_pc := A_Breathing bs'\<rparr>, out_list out)
           | Done idx \<Rightarrow> (c, a\<lparr>a_pc := A_Clear, a_idx := idx\<rparr>, []))
      | A_Clear \<Rightarrow> (c\<lparr>mode_changed := False\<rparr>, a\<lparr>a_pc := A_Loop\<rparr>, []))"

text \<open>A run of the task alone for \<open>n\<close> steps (no input in between).\<close>

fun anim_run :: "nat \<Rightarrow> ctrl_state \<Rightarrow> (nat \<Rightarrow> u32) \<Rightarrow> anim_st \<Rightarrow> anim_out list \<times> ctrl_state \<times> anim_st" where
  "anim_run 0 c rnd a = ([], c, a)"
| "anim_run (Suc n) c rnd a =
     (case anim_step c (rnd 0) a of
        (c', a', os) \<Rightarrow>
          (case anim_run n c' (\<lambda>k. rnd (Suc k)) a' of (os', c'', a'') \<Rightarrow> (os @ os', c'', a'')))"

text \<open>The mode whose effect the task is running, if it is inside one.\<close>

definition anim_mode :: "anim_pc \<Rightarrow> int option" where
  "anim_mode pc =
     (case pc of A_Dissolve _ \<Rightarrow> Some 0 | A_Rainbow _ \<Rightarrow> Some 1 | A_Breathing _ \<Rightarrow> Some 2 | _ \<Rightarrow> None)"

text \<open>The ranges the task relies on: array indexes and program points.\<close>

definition anim_ok :: "anim_st \<Rightarrow> bool" where
  "anim_ok a \<longleftrightarrow>
     0 \<le> a_idx a \<and> a_idx a < 12 \<and> 0 \<le> a_hue a \<and> a_hue a < 360 \<and>
     (case a_pc a of
        A_Dissolve ds \<Rightarrow> dissolve_pc_ok (ds_pc ds) \<and> length (ds_cur ds) = NUM_LEDS \<and>
                         length (ds_next ds) = NUM_LEDS
      | A_Rainbow rs \<Rightarrow> rainbow_pc_ok (rb_pc rs) \<and> 0 \<le> rb_hue rs \<and> rb_hue rs < 360
      | A_Breathing bs \<Rightarrow> breathing_pc_ok (br_pc bs) \<and> 0 \<le> br_idx bs \<and> br_idx bs < 12
      | A_SelfTest k \<Rightarrow> k \<le> length self_test_calls
      | _ \<Rightarrow> True)"

text \<open>
  Steps until the task is back at the top of its loop, once the running effect's
  loop condition has failed: the effects' measures, plus the return and the clearing
  of \<open>mode_changed\<close>; in the self test, the calls still to make and the step to the loop.
\<close>

definition anim_measure :: "anim_pc \<Rightarrow> nat" where
  "anim_measure pc =
     (case pc of
        A_SelfTest k \<Rightarrow> Suc (length self_test_calls - k)
      | A_Loop \<Rightarrow> 0
      | A_OffDelay \<Rightarrow> 1
      | A_Clear \<Rightarrow> 1
      | A_Dissolve ds \<Rightarrow> 2 + dissolve_measure (ds_pc ds)
      | A_Rainbow rs \<Rightarrow> 2 + rainbow_measure (rb_pc rs)
      | A_Breathing bs \<Rightarrow> 2 + breathing_stop_measure (br_pc bs))"

text \<open>A call that leaves the fixture dark: all three values 0, or a sleep.\<close>

primrec dark_call :: "anim_out \<Rightarrow> bool" where
  "dark_call (SetLed i r g b) \<longleftrightarrow> r = 0 \<and> g = 0 \<and> b = 0"
| "dark_call (Delay ms) \<longleftrightarrow> True"

section \<open>From calls to the bus\<close>

text \<open>
  The I2C writes of a list of calls at brightness level \<open>l\<close>: \<open>set_rgb_led\<close> with
  the index as its \<open>uint8_t\<close> parameter; a sleep writes nothing.
\<close>

fun calls_bus :: "int \<Rightarrow> anim_out list \<Rightarrow> u8 list list" where
  "calls_bus l [] = []"
| "calls_bus l (SetLed i r g b # os) = set_rgb_led l (of_nat i) r g b @ calls_bus l os"
| "calls_bus l (Delay ms # os) = calls_bus l os"

text \<open>
  A write that lights its channel: ON = 0 with OFF below 4095 drives the output low,
  and the common-anode fixture lit, for part of each PWM period.
\<close>

definition buf_lit :: "u8 list \<Rightarrow> bool" where
  "buf_lit b \<longleftrightarrow> buf_on b = 0 \<and> buf_off b < 4095"

section \<open>The system\<close>

record sys_st =
  s_ctrl :: ctrl_state
  s_btn :: btn_state
  s_anim :: anim_st

definition sys_init :: sys_st where
  "sys_init = \<lparr>s_ctrl = ctrl_init, s_btn = btn_init, s_anim = anim_init\<rparr>"

text \<open>The interrupt table after the three \<open>setup_button_interrupt\<close> calls of \<open>app_main\<close>.\<close>

definition button_isrs :: isr_table where
  "button_isrs =
     setup_button_interrupt BTN_BRIGHT 2
       (setup_button_interrupt BTN_TOGGLE 1 (setup_button_interrupt BTN_MODE 0 Map.empty))"

text \<open>
  One step of the system and the I2C writes it makes: a falling edge at time \<open>t\<close>
  on a pin with a registered handler, running \<open>button_isr_handler\<close> with the
  pin's argument; an iteration of \<open>button_task\<close> when the queue is not empty; or
  a step of the animation task with the draw \<open>r\<close>.
\<close>

inductive sys_step :: "sys_st \<Rightarrow> u8 list list \<Rightarrow> sys_st \<Rightarrow> bool" where
  sys_press: "button_isrs gpio = Some i \<Longrightarrow> sys_step s [] (s\<lparr>s_btn := button_isr_handler t i (s_btn s)\<rparr>)"
| sys_serve: "button_task_step (s_ctrl s) (s_btn s) = Some (c', b', w) \<Longrightarrow>
    sys_step s w (s\<lparr>s_ctrl := c', s_btn := b'\<rparr>)"
| sys_anim: "anim_step (s_ctrl s) r (s_anim s) = (c', a', os) \<Longrightarrow>
    sys_step s (calls_bus (brightness_level (s_ctrl s)) os) (s\<lparr>s_ctrl := c', s_anim := a'\<rparr>)"

inductive reach :: "sys_st \<Rightarrow> bool" where
  reach_init: "reach sys_init"
| reach_step: "reach s \<Longrightarrow> sys_step s w s' \<Longrightarrow> reach s'"

definition sys_ok :: "sys_st \<Rightarrow> bool" where
  "sys_ok s \<longleftrightarrow> ctrl_ok (s_ctrl s) \<and> btn_ok (s_btn s) \<and> anim_ok (s_anim s)"

declare anim_step.simps [simp del]

section \<open>Lemmas\<close>

lemma calls_bus_off_map:
  "calls_bus l (map (\<lambda>i. SetLed i 0 0 0) xs) = concat (map (\<lambda>i. set_rgb_led l (of_nat i) 0 0 0) xs)"
  by (induction xs) simp_all

lemma calls_bus_off_calls: "calls_bus l off_calls = turn_off_all_leds l"
  by (simp add: off_calls_def turn_off_all_leds_def calls_bus_off_map)

lemma anim_ok_start:
  assumes "anim_ok a"
  shows "anim_ok (a\<lparr>a_pc := apply_transition_by_mode m a\<rparr>)"
  using assms
  by (auto simp: anim_ok_def apply_transition_by_mode_def dissolve_start_def dissolve_pc_ok_def
      rainbow_start_def rainbow_pc_ok_def breathing_start_def breathing_pc_ok_def)

lemma anim_step_ctrl:
  "fst (anim_step c r a) = c \<or> fst (anim_step c r a) = c\<lparr>mode_changed := False\<rparr>"
  by (cases "a_pc a")
     (auto simp: anim_step.simps split: eff_step.splits)

lemma anim_step_ok:
  assumes "anim_ok a"
  shows "anim_ok (fst (snd (anim_step c r a)))"
proof (cases "a_pc a")
  case (A_Dissolve ds)
  then have "case dissolve_step c r ds of
           Done _ \<Rightarrow> True
         | Emit s' out \<Rightarrow> dissolve_pc_ok (ds_pc s') \<and> length (ds_cur s') = NUM_LEDS \<and>
             length (ds_next s') = NUM_LEDS"
    using assms by (intro dissolve_step_ok) (simp_all add: anim_ok_def)
  then show ?thesis using assms A_Dissolve
    by (cases "dissolve_step c r ds") (simp_all add: anim_step.simps anim_ok_def)
next
  case (A_Rainbow rs)
  then have "case rainbow_step c r rs of
           Done h \<Rightarrow> 0 \<le> h \<and> h < 360
         | Emit s' out \<Rightarrow> rainbow_pc_ok (rb_pc s') \<and> 0 \<le> rb_hue s' \<and> rb_hue s' < 360"
    using assms by (intro rainbow_step_ok) (simp_all add: anim_ok_def)
  then show ?thesis using assms A_Rainbow
    by (cases "rainbow_step c r rs") (simp_all add: anim_step.simps anim_ok_def)
next
  case (A_Breathing bs)
  then have "case breathing_step c r bs of
           Done idx \<Rightarrow> 0 \<le> idx \<and> idx < 12
         | Emit s' out \<Rightarrow> breathing_pc_ok (br_pc s') \<and> 0 \<le> br_idx s' \<and> br_idx s' < 12"
    using assms by (intro breathing_step_ok) (simp_all add: anim_ok_def)
  then show ?thesis using assms A_Breathing
    by (cases "breathing_step c r bs") (simp_all add: anim_step.simps anim_ok_def)
qed (use assms anim_ok_start in \<open>simp_all add: anim_step.simps anim_ok_def\<close>)

text \<open>
  Reaching a target: if every step from a state in \<open>P\<close> off the target stays in
  \<open>P\<close> and decreases the measure, the target is reached within the measure.
\<close>

lemma anim_run_reaches:
  assumes step: "\<And>c a r. P c a \<Longrightarrow> \<not> T c a \<Longrightarrow>
      P (fst (anim_step c r a)) (fst (snd (anim_step c r a))) \<and>
      m (fst (anim_step c r a)) (fst (snd (anim_step c r a))) < m c a"
    and "P c a"
  shows "\<exists>k \<le> m c a. P (fst (snd (anim_run k c rnd a))) (snd (snd (anim_run k c rnd a))) \<and>
                     T (fst (snd (anim_run k c rnd a))) (snd (snd (anim_run k c rnd a)))"
  using assms(2)
proof (induction "m c a" arbitrary: c a rnd rule: less_induct)
  case less
  show ?case
  proof (cases "T c a")
    case True
    then show ?thesis using less.prems by (intro exI [of _ 0]) simp
  next
    case False
    obtain c' a' os where st: "anim_step c (rnd 0) a = (c', a', os)" by (cases "anim_step c (rnd 0) a")
    have P': "P c' a'" and lt: "m c' a' < m c a"
      using step [OF less.prems False, of "rnd 0"] st by simp_all
    obtain k where k: "k \<le> m c' a'"
      and PT: "P (fst (snd (anim_run k c' (\<lambda>k. rnd (Suc k)) a'))) (snd (snd (anim_run k c' (\<lambda>k. rnd (Suc k)) a'))) \<and>
               T (fst (snd (anim_run k c' (\<lambda>k. rnd (Suc k)) a'))) (snd (snd (anim_run k c' (\<lambda>k. rnd (Suc k)) a')))"
      using less.hyps [OF lt P', of "\<lambda>k. rnd (Suc k)"] by blast
    have "snd (anim_run (Suc k) c rnd a) = snd (anim_run k c' (\<lambda>k. rnd (Suc k)) a')"
      using st by (simp add: split_def)
    then show ?thesis using k lt PT by (intro exI [of _ "Suc k"]) simp
  qed
qed


text \<open>Once the running effect's loop condition fails, each step brings the task closer to its loop.\<close>

lemma anim_stop_step:
  assumes "anim_ok a" "\<And>e. anim_mode (a_pc a) = Some e \<Longrightarrow> \<not> (led_on c \<and> transition_mode c = e)"
    "a_pc a \<noteq> A_Loop"
  shows "anim_measure (a_pc (fst (snd (anim_step c r a)))) < anim_measure (a_pc a)"
proof (cases "a_pc a")
  case (A_Dissolve ds)
  then have "case dissolve_step c r ds of
           Done _ \<Rightarrow> True
         | Emit s' out \<Rightarrow> dissolve_pc_ok (ds_pc s') \<and> dissolve_measure (ds_pc s') < dissolve_measure (ds_pc ds)"
    using assms by (intro dissolve_cancel_step) (auto simp: anim_ok_def anim_mode_def)
  then show ?thesis using A_Dissolve
    by (cases "dissolve_step c r ds") (simp_all add: anim_step.simps anim_measure_def)
next
  case (A_Rainbow rs)
  then have "case rainbow_step c r rs of
           Done _ \<Rightarrow> True
         | Emit s' out \<Rightarrow> rainbow_pc_ok (rb_pc s') \<and> rainbow_measure (rb_pc s') < rainbow_measure (rb_pc rs)"
    using assms by (intro rainbow_stop_step) (auto simp: anim_ok_def anim_mode_def)
  then show ?thesis using A_Rainbow
    by (cases "rainbow_step c r rs") (simp_all add: anim_step.simps anim_measure_def)
next
  case (A_Breathing bs)
  then have "case breathing_step c r bs of
           Done _ \<Rightarrow> True
         | Emit s' out \<Rightarrow> breathing_pc_ok (br_pc s') \<and>
             breathing_stop_measure (br_pc s') < breathing_stop_measure (br_pc bs)"
    using assms by (intro breathing_stop_step) (auto simp: anim_ok_def anim_mode_def)
  then show ?thesis using A_Breathing
    by (cases "breathing_step c r bs") (simp_all add: anim_step.simps anim_measure_def)
next
  case (A_SelfTest k)
  then show ?thesis by (simp add: anim_step.simps anim_measure_def diff_less_mono2)
qed (use assms in \<open>simp_all add: anim_step.simps anim_measure_def\<close>)

lemma self_test_calls_length: "length self_test_calls = 57"
  by (simp add: self_test_calls_def off_calls_def NUM_LEDS_def upt_rec)

text \<open>The self test from its \<open>k\<close>-th call: the remaining calls, then the loop, under any control state.\<close>

lemma self_test_run_from:
  "k + n = length self_test_calls \<Longrightarrow>
   anim_run (Suc n) c rnd (a\<lparr>a_pc := A_SelfTest k\<rparr>) = (drop k self_test_calls, c, a\<lparr>a_pc := A_Loop\<rparr>)"
proof (induction n arbitrary: k rnd)
  case 0
  then show ?case by (simp add: anim_step.simps)
next
  case (Suc n)
  then have "k < length self_test_calls" "Suc k + n = length self_test_calls" by simp_all
  then show ?case using Suc.IH [of "Suc k" "\<lambda>k. rnd (Suc k)"]
    by (simp add: anim_step.simps Cons_nth_drop_Suc)
qed

lemma anim_measure_le:
  assumes "anim_ok a"
  shows "anim_measure (a_pc a) \<le> 2033"
proof (cases "a_pc a")
  case (A_Dissolve ds)
  then show ?thesis using assms dissolve_measure_le [of "ds_pc ds"] by (simp add: anim_measure_def anim_ok_def)
next
  case (A_Rainbow rs)
  then show ?thesis
    by (auto simp: anim_measure_def rainbow_measure_def NUM_LEDS_def split: rainbow_pc.split)
next
  case (A_Breathing bs)
  then show ?thesis using assms breathing_stop_measure_le [of "br_pc bs"] by (simp add: anim_measure_def anim_ok_def)
qed (simp_all add: anim_measure_def self_test_calls_length)

lemma anim_step_ctrl_keeps:
  "led_on (fst (anim_step c r a)) = led_on c \<and>
   transition_mode (fst (anim_step c r a)) = transition_mode c \<and>
   brightness_level (fst (anim_step c r a)) = brightness_level c"
  using anim_step_ctrl [of c r a] by auto

text \<open>While the power is off, the task at the top of its loop only switches fixtures off and sleeps.\<close>

lemma anim_run_dark:
  assumes "\<not> led_on c" "a_pc a = A_Loop \<or> a_pc a = A_OffDelay"
  shows "list_all dark_call (fst (anim_run n c rnd a))"
  using assms
proof (induction n arbitrary: a rnd)
  case 0
  then show ?case by simp
next
  case (Suc n)
  obtain c' a' os where st: "anim_step c (rnd 0) a = (c', a', os)" by (cases "anim_step c (rnd 0) a")
  have "c' = c" "list_all dark_call os" "a_pc a' = A_Loop \<or> a_pc a' = A_OffDelay"
    using Suc.prems st by (auto simp: anim_step.simps off_calls_def list_all_iff)
  then show ?case using Suc.IH [of a' "\<lambda>k. rnd (Suc k)"] Suc.prems st by (simp add: split_def)
qed

lemma anim_mode_start:
  "0 \<le> m \<Longrightarrow> m < 3 \<Longrightarrow> anim_mode (apply_transition_by_mode m a) = Some m"
  by (auto simp: apply_transition_by_mode_def anim_mode_def)

text \<open>A non-zero scaled duty lights the channel.\<close>

lemma set_pwm_duty_lit:
  assumes "adjusted_duty l duty \<noteq> 0" "unat (adjusted_duty l duty) \<le> 4095"
  shows "buf_lit (set_pwm_duty l 0 duty)"
proof -
  have le: "adjusted_duty l duty \<le> 4095" using assms(2) by (simp add: word_le_nat_alt)
  have "unat (4095 - adjusted_duty l duty) = 4095 - unat (adjusted_duty l duty)"
    using le by (simp add: unat_sub)
  moreover have "0 < unat (adjusted_duty l duty)" using assms(1) by (simp add: unat_gt_0)
  ultimately have "4095 - adjusted_duty l duty < 4095" by (simp add: word_less_nat_alt)
  then show ?thesis
    using decode_set_pwm_duty [of 0 l duty] assms(1) by (simp add: pwm_drive_def buf_lit_def decode_pwm_def)
qed

text \<open>\<open>app_main\<close> registers the same handlers as the unused \<open>buttons_init\<close>.\<close>

lemma button_isrs_buttons_init: "button_isrs = buttons_init Map.empty"
  by (simp add: button_isrs_def buttons_init_def)

lemma sys_anim_eq:
  "anim_step (s_ctrl s) r (s_anim s) = (c', a', os) \<Longrightarrow> w = calls_bus (brightness_level (s_ctrl s)) os \<Longrightarrow>
   s' = s\<lparr>s_ctrl := c', s_anim := a'\<rparr> \<Longrightarrow> sys_step s w s'"
  using sys_anim by blast

lemma sys_serve_eq:
  "button_task_step (s_ctrl s) (s_btn s) = Some (c', b', w) \<Longrightarrow> s' = s\<lparr>s_ctrl := c', s_btn := b'\<rparr> \<Longrightarrow>
   sys_step s w s'"
  using sys_serve by blast

lemma sys_press_eq:
  "button_isrs gpio = Some i \<Longrightarrow> s' = s\<lparr>s_btn := button_isr_handler t i (s_btn s)\<rparr> \<Longrightarrow> sys_step s [] s'"
  using sys_press by blast

text \<open>A run of the animation task alone is a run of the system.\<close>

lemma reach_anim_run:
  "reach s \<Longrightarrow> anim_run n (s_ctrl s) rnd (s_anim s) = (os, c', a') \<Longrightarrow>
   reach (s\<lparr>s_ctrl := c', s_anim := a'\<rparr>)"
proof (induction n arbitrary: s rnd os c' a')
  case 0
  have "s\<lparr>s_ctrl := s_ctrl s, s_anim := s_anim s\<rparr> = s" by (cases s) simp
  then show ?case using 0 by auto
next
  case (Suc n)
  obtain c1 a1 os1 where st: "anim_step (s_ctrl s) (rnd 0) (s_anim s) = (c1, a1, os1)"
    by (cases "anim_step (s_ctrl s) (rnd 0) (s_anim s)")
  have "reach (s\<lparr>s_ctrl := c1, s_anim := a1\<rparr>)"
    using Suc.prems(1) sys_anim [OF st] by (rule reach_step)
  moreover obtain os2 where "anim_run n c1 (\<lambda>k. rnd (Suc k)) a1 = (os2, c', a')"
    using Suc.prems(2) st by (auto split: prod.splits)
  ultimately show ?case using Suc.IH [of "s\<lparr>s_ctrl := c1, s_anim := a1\<rparr>"] by simp
qed

lemma sys_step_ok:
  assumes "sys_step s w s'" "sys_ok s"
  shows "sys_ok s'"
  using assms(1)
proof (cases rule: sys_step.cases)
  case (sys_press gpio i t)
  then show ?thesis using assms(2) btn_ok_isr by (simp add: sys_ok_def)
next
  case (sys_serve c' b')
  then show ?thesis using assms(2) button_task_step_ctrl_ok btn_ok_task by (auto simp: sys_ok_def)
next
  case (sys_anim r c' a' os)
  then have c: "c' = fst (anim_step (s_ctrl s) r (s_anim s))" and a: "a' = fst (snd (anim_step (s_ctrl s) r (s_anim s)))"
    by simp_all
  have "ctrl_ok c'" using assms(2) anim_step_ctrl_keeps [of "s_ctrl s" r "s_anim s"]
    by (simp add: c sys_ok_def ctrl_ok_def)
  moreover have "anim_ok a'" using assms(2) anim_step_ok by (simp add: a sys_ok_def)
  ultimately show ?thesis using sys_anim assms(2) by (simp add: sys_ok_def)
qed

section \<open>Properties of the system\<close>

text \<open>
  The start-up self test reads no global: under every control state, with the
  power off too, the first 58 steps of the animation task make exactly the 57 calls
  of the self test and leave the control state unchanged, with the task at the top
  of its loop. The test sleeps 6.5 s in all, lights every fixture full white, and
  its last six calls leave every fixture dark.
\<close>

lemma self_test_ignores_control:
  "anim_run 58 c rnd anim_init = (self_test_calls, c, anim_init\<lparr>a_pc := A_Loop\<rparr>) \<and>
   length self_test_calls = 57 \<and> delay_total self_test_calls = 6500 \<and>
   set (map (\<lambda>i. SetLed i 4095 4095 4095) [0..<NUM_LEDS]) \<subseteq> set self_test_calls \<and>
   list_all dark_call (drop 51 self_test_calls)"
proof (intro conjI)
  show "anim_run 58 c rnd anim_init = (self_test_calls, c, anim_init\<lparr>a_pc := A_Loop\<rparr>)"
    using self_test_run_from [of 0 57 c rnd anim_init]
    by (simp add: self_test_calls_length anim_init_def)
qed (simp_all add: self_test_calls_def off_calls_def NUM_LEDS_def delay_total_def upt_rec)

text \<open>
  C38: Switching the power off darkens the fixtures for good, eventually: with
  \<open>led_on\<close> false and no further input, from any valid state of the animation task
  the task is back at the top of its loop within 2033 steps, and from then on it
  only sends all-zero colours and sleeps.
\<close>

theorem power_off_dark:
  assumes "\<not> led_on c" "anim_ok a"
  shows "\<exists>k \<le> 2033. a_pc (snd (snd (anim_run k c rnd a))) = A_Loop \<and>
           \<not> led_on (fst (snd (anim_run k c rnd a))) \<and>
           (\<forall>n rnd'. list_all dark_call
              (fst (anim_run n (fst (snd (anim_run k c rnd a))) rnd' (snd (snd (anim_run k c rnd a))))))"
proof -
  obtain k where k: "k \<le> anim_measure (a_pc a)"
    and PT: "(\<not> led_on (fst (snd (anim_run k c rnd a))) \<and> anim_ok (snd (snd (anim_run k c rnd a)))) \<and>
             a_pc (snd (snd (anim_run k c rnd a))) = A_Loop"
    using anim_run_reaches [where P = "\<lambda>c a. \<not> led_on c \<and> anim_ok a" and T = "\<lambda>c a. a_pc a = A_Loop"
        and m = "\<lambda>c a. anim_measure (a_pc a)" and c = c and a = a and rnd = rnd]
      assms anim_step_ok anim_stop_step anim_step_ctrl_keeps by blast
  then show ?thesis
    using anim_measure_le [OF assms(2)] anim_run_dark by (intro exI [of _ k]) auto
qed


theorem power_off_dark_witness:
  "\<exists>k \<le> 2033. a_pc (snd (snd (anim_run k (ctrl_init\<lparr>led_on := False\<rparr>) (\<lambda>_. 0)
       (anim_init\<lparr>a_pc := A_Breathing (breathing_start 0)\<rparr>)))) = A_Loop \<and>
     \<not> led_on (fst (snd (anim_run k (ctrl_init\<lparr>led_on := False\<rparr>) (\<lambda>_. 0)
       (anim_init\<lparr>a_pc := A_Breathing (breathing_start 0)\<rparr>)))) \<and>
     (\<forall>n rnd'. list_all dark_call
        (fst (anim_run n (fst (snd (anim_run k (ctrl_init\<lparr>led_on := False\<rparr>) (\<lambda>_. 0)
           (anim_init\<lparr>a_pc := A_Breathing (breathing_start 0)\<rparr>))))
           rnd' (snd (snd (anim_run k (ctrl_init\<lparr>led_on := False\<rparr>) (\<lambda>_. 0)
           (anim_init\<lparr>a_pc := A_Breathing (breathing_start 0)\<rparr>)))))))"
  by (rule power_off_dark) (simp_all add: anim_ok_def anim_init_def breathing_start_def breathing_pc_ok_def)

text \<open>
  C39: A mode change reaches the fixtures: with the power on and no further input,
  from any valid state of the animation task the effect of the selected mode is
  running within 2034 steps, whatever effect was running before.
\<close>

theorem mode_switch_latency:
  assumes "led_on c" "ctrl_ok c" "anim_ok a"
  shows "\<exists>k \<le> 2034. anim_mode (a_pc (snd (snd (anim_run k c rnd a)))) = Some (transition_mode c)"
proof -
  define M where "M = transition_mode c"
  define P :: "ctrl_state \<Rightarrow> anim_st \<Rightarrow> bool"
    where "P = (\<lambda>c' a'. led_on c' \<and> transition_mode c' = M \<and> ctrl_ok c' \<and> anim_ok a')"
  define T :: "ctrl_state \<Rightarrow> anim_st \<Rightarrow> bool"
    where "T = (\<lambda>c' a'. anim_mode (a_pc a') = Some M)"
  define m :: "ctrl_state \<Rightarrow> anim_st \<Rightarrow> nat"
    where "m = (\<lambda>c' a'. if anim_mode (a_pc a') = Some M then 0 else Suc (anim_measure (a_pc a')))"
  have M: "0 \<le> M" "M < 3" using assms(2) by (simp_all add: M_def ctrl_ok_def)
  have step: "P (fst (anim_step c' r a')) (fst (snd (anim_step c' r a'))) \<and>
      m (fst (anim_step c' r a')) (fst (snd (anim_step c' r a'))) < m c' a'"
    if "P c' a'" "\<not> T c' a'" for c' a' r
  proof -
    have ok: "P (fst (anim_step c' r a')) (fst (snd (anim_step c' r a')))"
      using that(1) anim_step_ok anim_step_ctrl [of c' r a'] by (auto simp: P_def ctrl_ok_def)
    show ?thesis
    proof (cases "a_pc a' = A_Loop")
      case True
      then have "anim_mode (a_pc (fst (snd (anim_step c' r a')))) = Some M"
        using that(1) M anim_mode_start by (simp add: anim_step.simps P_def)
      then show ?thesis using ok that(2) by (simp add: m_def T_def)
    next
      case False
      have "anim_measure (a_pc (fst (snd (anim_step c' r a')))) < anim_measure (a_pc a')"
        using that False by (intro anim_stop_step) (auto simp: P_def T_def)
      then show ?thesis using ok that(2) by (simp add: m_def T_def)
    qed
  qed
  have P0: "P c a" using assms by (simp add: P_def M_def)
  obtain k where "k \<le> m c a" "T (fst (snd (anim_run k c rnd a))) (snd (snd (anim_run k c rnd a)))"
    using anim_run_reaches [where P = P and T = T and m = m and c = c and a = a and rnd = rnd, OF step P0]
    by blast
  moreover have "m c a \<le> 2034" using anim_measure_le [OF assms(3)] by (simp add: m_def)
  ultimately show ?thesis by (intro exI [of _ k]) (simp add: T_def M_def)
qed

theorem mode_switch_latency_witness:
  "\<exists>k \<le> 2034. anim_mode (a_pc (snd (snd (anim_run k
     \<lparr>brightness_level = 1, led_on = True, transition_mode = 1, mode_changed = True\<rparr> (\<lambda>_. 0)
     (anim_init\<lparr>a_pc := A_Dissolve dissolve_start\<rparr>))))) =
   Some (transition_mode \<lparr>brightness_level = 1, led_on = True, transition_mode = 1, mode_changed = True\<rparr>)"
  by (rule mode_switch_latency)
     (simp_all add: ctrl_ok_def anim_ok_def anim_init_def dissolve_start_def dissolve_pc_ok_def)


text \<open>
  C37: Every state the system reaches, under any interleaving of interrupts,
  iterations of \<open>button_task\<close> and steps of the animation task, keeps the ranges
  the code's array accesses rely on: mode and brightness level in \<open>{0, 1, 2}\<close>,
  the debounce table at three entries, the queue within its ten slots, the colour
  index in \<open>[0, 12)\<close>, the hue in \<open>[0, 360)\<close>, the dissolve arrays at five entries
  and every effect at a valid program point.
\<close>

theorem sys_reach_ok:
  assumes "reach s"
  shows "sys_ok s"
  using assms
proof induction
  case reach_init
  then show ?case by (simp add: sys_ok_def sys_init_def btn_ok_def btn_init_def anim_ok_def anim_init_def)
next
  case (reach_step s w s')
  then show ?case using sys_step_ok by blast
qed

theorem sys_reach_ok_witness: "sys_ok sys_init"
  by (rule sys_reach_ok) (rule reach_init)

text \<open>
  C40: Power-off does not keep the fixtures dark: in a run from the initial state,
  right after \<open>button_task\<close> has handled the power toggle (writing the full-off
  encoding to every channel and clearing \<open>led_on\<close>), the next step of the
  animation task lights fixture 0 again, because the opening fade of the dissolve
  reads no global.
\<close>

theorem power_off_relight:
  "\<exists>s0 w0 s w s'. reach s0 \<and> sys_step s0 w0 s \<and> w0 = turn_off_all_leds (brightness_level (s_ctrl s0)) \<and>
     \<not> led_on (s_ctrl s) \<and> sys_step s w s' \<and> list_ex buf_lit w"
proof -
  define red where "red = get_random_color 0"
  define a1 where "a1 = anim_init\<lparr>a_pc := A_Dissolve dissolve_start\<rparr>"
  define a2 where "a2 = anim_init\<lparr>a_pc := A_Dissolve (dissolve_start\<lparr>ds_pc := D_Init 0 0, ds_shared := red\<rparr>)\<rparr>"
  define a3 where "a3 = anim_init\<lparr>a_pc := A_Dissolve (dissolve_start\<lparr>ds_pc := D_Init 0 1, ds_shared := red\<rparr>)\<rparr>"
  define b1 where "b1 = button_isr_handler 500000 1 btn_init"
  define c1 where "c1 = ctrl_init\<lparr>led_on := False\<rparr>"
  define s0 where "s0 = sys_init\<lparr>s_anim := anim_init\<lparr>a_pc := A_Loop\<rparr>\<rparr>"
  define s1 where "s1 = sys_init\<lparr>s_anim := a1\<rparr>"
  define s2 where "s2 = sys_init\<lparr>s_anim := a2\<rparr>"
  define s3 where "s3 = sys_init\<lparr>s_btn := b1, s_anim := a2\<rparr>"
  define s4 where "s4 = \<lparr>s_ctrl = c1, s_btn = btn_init\<lparr>last_btn_press_time := [0, 500, 0]\<rparr>, s_anim = a2\<rparr>"
  define s5 where "s5 = s4\<lparr>s_anim := a3\<rparr>"
  have b1: "b1 = btn_init\<lparr>button_evt_queue := [BTN_EVENT_TOGGLE], last_btn_press_time := [0, 500, 0]\<rparr>"
    by (simp add: b1_def button_isr_handler_def debounce_ok_def btn_init_def DEBOUNCE_TIME_def xQueueSendFromISR_def
        QUEUE_LENGTH_def button_event_of_idx_def c_div_def)
  have run0: "anim_run (Suc 57) (s_ctrl sys_init) (\<lambda>_. 0) (s_anim sys_init) =
          (drop 0 self_test_calls, s_ctrl sys_init, anim_init\<lparr>a_pc := A_Loop\<rparr>)"
    using self_test_run_from [of 0 57 "s_ctrl sys_init" "\<lambda>_. 0" anim_init]
    by (simp add: self_test_calls_length sys_init_def anim_init_def)
  have r0: "reach s0" using reach_anim_run [OF reach_init run0] by (simp add: s0_def sys_init_def)
  have st1: "sys_step s0 [] s1"
    by (rule sys_anim_eq [where r = 0])
       (simp add: anim_step.simps s0_def sys_init_def anim_init_def ctrl_init_def apply_transition_by_mode_def,
        simp_all add: s0_def s1_def a1_def sys_init_def anim_init_def ctrl_init_def)
  have st2: "sys_step s1 [] s2"
    by (rule sys_anim_eq [where r = 0])
       (simp add: anim_step.simps dissolve_step.simps s1_def a1_def sys_init_def ctrl_init_def
          anim_init_def dissolve_start_def,
        simp_all add: s1_def s2_def a1_def a2_def red_def dissolve_start_def sys_init_def ctrl_init_def
          anim_init_def)
  have st3: "sys_step s2 [] s3"
    by (rule sys_press_eq [where gpio = BTN_TOGGLE and i = 1 and t = 500000])
       (simp_all add: s2_def s3_def b1_def sys_init_def button_isrs_def setup_button_interrupt_def
          BTN_TOGGLE_def BTN_BRIGHT_def BTN_MODE_def)
  have st4: "sys_step s3 (turn_off_all_leds (brightness_level (s_ctrl s3))) s4"
    by (rule sys_serve_eq)
       (simp_all add: s3_def s4_def b1 button_task_step_def sys_init_def ctrl_init_def c1_def btn_init_def)
  have lit: "list_ex buf_lit (calls_bus 1 [SetLed 0 4095 4095 4095])"
  proof -
    have "adjusted_duty 1 4095 \<noteq> 0" "unat (adjusted_duty 1 4095) \<le> 4095"
      by (simp_all add: adjusted_duty_def brightness_vals_def)
    then have "buf_lit (set_pwm_duty 1 0 4095)" by (rule set_pwm_duty_lit)
    then show ?thesis by (simp add: set_rgb_led_def NUM_LEDS_def CHANNELS_PER_LED_def)
  qed
  have white: "interpolate_easeInOut white red (progress 0) = rgb 4095 4095 4095"
    by (simp add: interpolate_easeInOut_def progress_def white_def rgb_def)
  have st5: "sys_step s4 (calls_bus 1 [SetLed 0 4095 4095 4095]) s5"
    by (rule sys_anim_eq [where r = 0])
       (simp add: anim_step.simps dissolve_step.simps s4_def a2_def c1_def ctrl_init_def
          NUM_LEDS_def led_call_def white rgb_def,
        simp_all add: s4_def s5_def a2_def a3_def c1_def ctrl_init_def)
  have "reach s3" using reach_step [OF reach_step [OF reach_step [OF r0 st1] st2] st3] .
  moreover have "\<not> led_on (s_ctrl s4)" by (simp add: s4_def c1_def)
  ultimately show ?thesis using st4 st5 lit by blast
qed

end
