(* ===== verification/Pca9685.thy ===== *)
theory Pca9685
  imports Pwm
begin

text \<open>
  The controller side of the transport. The code's set-up of the PCA9685 in
  \<open>src/src/main_app.c\<close> (\<open>pca9685_write_byte\<close>, \<open>pca9685_init\<close> and the prescale
  write in \<open>app_main\<close>) as the I2C buffers it writes, and a model of the
  controller's register file after the NXP PCA9685 data sheet: a byte per register
  address, the register pointer given by the first byte of a write and advanced
  after each data byte when \<open>MODE1.AI\<close> is set, and writes to \<open>PRE_SCALE\<close>
  ignored unless \<open>MODE1.SLEEP\<close> is set. The abstraction \<open>pca_abs\<close> reads the
  register file as the (ON, OFF) pair of each of the 16 channels; the channel
  writes of \<open>Pwm\<close> refine updates of that abstract state.
\<close>

unbundle bit_operations_syntax

section \<open>Set-up writes of the code\<close>

definition PCA9685_MODE1 :: u8 where
  "PCA9685_MODE1 = 0x00"

definition PCA9685_MODE2 :: u8 where
  "PCA9685_MODE2 = 0x01"

definition PCA9685_PRESCALE :: u8 where
  "PCA9685_PRESCALE = 0xFE"

text \<open>\<open>uint8_t write_buf[2] = {reg_addr, data};\<close> sent to the device at \<open>0x40\<close>.\<close>

definition pca9685_write_byte :: "u8 \<Rightarrow> u8 \<Rightarrow> u8 list" where
  "pca9685_write_byte reg_addr data = [reg_addr, data]"

text \<open>
  \<open>pca9685_init\<close>: sleep, totem-pole outputs, prescale 6, then restart with
  auto-increment. The two 10 ms sleeps only give the oscillator time to start.
\<close>

definition pca9685_init :: "u8 list list" where
  "pca9685_init =
     [pca9685_write_byte PCA9685_MODE1 0x10,
      pca9685_write_byte PCA9685_MODE2 0x04,
      pca9685_write_byte PCA9685_PRESCALE 6,
      pca9685_write_byte PCA9685_MODE1 0xA0]"

text \<open>The bus writes of \<open>app_main\<close> before the tasks start: the init and \<open>PRESCALE := 25\<close>.\<close>

definition app_main_bus_setup :: "u8 list list" where
  "app_main_bus_setup = pca9685_init @ [pca9685_write_byte PCA9685_PRESCALE 25]"

section \<open>The register file\<close>

type_synonym pca_regs = "u8 \<Rightarrow> u8"

text \<open>
  Power-on values: \<open>MODE1 = 0x11\<close> (SLEEP, ALLCALL), \<open>MODE2 = 0x04\<close>, the three
  sub-addresses and the all-call address, \<open>PRE_SCALE = 0x1E\<close>, and every
  \<open>LEDn_OFF_H\<close> and \<open>ALL_LED_OFF_H\<close> at \<open>0x10\<close> (full off); all other registers 0.
\<close>

definition pca_reset :: pca_regs where
  "pca_reset r =
     (if r = 0x00 then 0x11 else if r = 0x01 then 0x04
      else if r = 0x02 then 0xE2 else if r = 0x03 then 0xE4 else if r = 0x04 then 0xE8
      else if r = 0x05 then 0xE0 else if r = 0xFE then 0x1E else if r = 0xFD then 0x10
      else if 9 \<le> unat r \<and> unat r \<le> 0x45 \<and> (unat r - 9) mod 4 = 0 then 0x10 else 0)"

text \<open>One data byte into register \<open>reg\<close>; \<open>PRE_SCALE\<close> only while asleep.\<close>

definition pca_store :: "pca_regs \<Rightarrow> u8 \<Rightarrow> u8 \<Rightarrow> pca_regs" where
  "pca_store regs reg v =
     (if reg = PCA9685_PRESCALE \<and> \<not> bit (regs PCA9685_MODE1) 4 then regs else regs(reg := v))"

text \<open>
  The register pointer after a data byte: the next address with \<open>MODE1.AI\<close>, the
  same otherwise. (The device wraps the pointer from \<open>0x45\<close> to \<open>0x00\<close>; the code
  never writes across that address, so the successor is taken modulo 256.)
\<close>

definition pca_next :: "pca_regs \<Rightarrow> u8 \<Rightarrow> u8" where
  "pca_next regs reg = (if bit (regs PCA9685_MODE1) 5 then reg + 1 else reg)"

fun pca_write_from :: "pca_regs \<Rightarrow> u8 \<Rightarrow> u8 list \<Rightarrow> pca_regs" where
  "pca_write_from regs reg [] = regs"
| "pca_write_from regs reg (v # vs) =
     (let regs' = pca_store regs reg v in pca_write_from regs' (pca_next regs' reg) vs)"

text \<open>An I2C write: the first byte sets the register pointer, the others are data.\<close>

definition pca_write :: "pca_regs \<Rightarrow> u8 list \<Rightarrow> pca_regs" where
  "pca_write regs buf = (case buf of [] \<Rightarrow> regs | reg # vs \<Rightarrow> pca_write_from regs reg vs)"

definition pca_apply :: "pca_regs \<Rightarrow> u8 list list \<Rightarrow> pca_regs" where
  "pca_apply regs bufs = foldl pca_write regs bufs"

text \<open>The PWM frequency of the data sheet: \<open>25 MHz / (4096 * (PRE_SCALE + 1))\<close>.\<close>

definition pca_update_rate :: "pca_regs \<Rightarrow> real" where
  "pca_update_rate regs = 25000000 / (4096 * (real (unat (regs PCA9685_PRESCALE)) + 1))"

section \<open>The abstract channel state\<close>

text \<open>Register \<open>j\<close> of the block of channel \<open>n\<close>: \<open>LEDn_ON_L\<close> is at \<open>6 + 4 n\<close>.\<close>

definition chan_reg :: "nat \<Rightarrow> nat \<Rightarrow> u8" where
  "chan_reg n j = of_nat (6 + 4 * n + j)"

definition chan_drive :: "pca_regs \<Rightarrow> nat \<Rightarrow> u16 \<times> u16" where
  "chan_drive regs n =
     (buf_word (regs (chan_reg n 0)) (regs (chan_reg n 1)),
      buf_word (regs (chan_reg n 2)) (regs (chan_reg n 3)))"

text \<open>The abstract state: the (ON, OFF) pair of each of the 16 channels.\<close>

definition pca_abs :: "pca_regs \<Rightarrow> (u16 \<times> u16) list" where
  "pca_abs regs = map (chan_drive regs) [0..<16]"

text \<open>Auto-increment on: the multi-byte channel writes of the code reach all four registers.\<close>

definition pca_ai :: "pca_regs \<Rightarrow> bool" where
  "pca_ai regs \<longleftrightarrow> bit (regs PCA9685_MODE1) 5"

section \<open>Lemmas\<close>

lemma unat_chan_reg: "n < 16 \<Longrightarrow> j < 4 \<Longrightarrow> unat (chan_reg n j) = 6 + 4 * n + j"
  unfolding chan_reg_def by (rule unat_word_of_nat_small) simp

lemma chan_reg_eq_iff:
  assumes "n < 16" "j < 4" "n' < 16" "j' < 4"
  shows "chan_reg n j = chan_reg n' j' \<longleftrightarrow> n = n' \<and> j = j'"
proof
  assume "chan_reg n j = chan_reg n' j'"
  then have "unat (chan_reg n j) = unat (chan_reg n' j')" by simp
  then have e: "4 * n + j = 4 * n' + j'" using assms by (simp add: unat_chan_reg)
  have "(4 * n + j) div 4 = n" "(4 * n' + j') div 4 = n'" using assms by simp_all
  then have "n = n'" using e by metis
  then show "n = n' \<and> j = j'" using e by simp
qed simp

lemma chan_reg_special:
  assumes "n < 16" "j < 4"
  shows "chan_reg n j \<noteq> PCA9685_MODE1 \<and> chan_reg n j \<noteq> PCA9685_PRESCALE"
proof -
  have u: "unat (chan_reg n j) = 6 + 4 * n + j" using assms by (rule unat_chan_reg)
  have "unat (chan_reg n j) \<noteq> unat PCA9685_MODE1" "unat (chan_reg n j) \<noteq> unat PCA9685_PRESCALE"
    using u assms by (simp_all add: PCA9685_MODE1_def PCA9685_PRESCALE_def)
  then show ?thesis by auto
qed

lemma chan_reg_base: "(0x06 :: u8) + 4 * ch = chan_reg (unat ch) 0"
  by (simp add: chan_reg_def)

lemma pca_write_from_ai:
  assumes "pca_ai regs" "reg \<noteq> PCA9685_MODE1" "reg \<noteq> PCA9685_PRESCALE"
  shows "pca_write_from regs reg (v # vs) = pca_write_from (regs(reg := v)) (reg + 1) vs"
    and "pca_ai (regs(reg := v))"
  using assms by (simp_all add: pca_store_def pca_next_def pca_ai_def)

lemma pca_write_set_pwm:
  assumes "pca_ai regs" "unat ch < 16"
  shows "pca_write regs (pca9685_set_pwm ch on off) =
           regs(chan_reg (unat ch) 0 := ucast (on AND 0xFF), chan_reg (unat ch) 1 := ucast (drop_bit 8 on AND 0xFF),
                chan_reg (unat ch) 2 := ucast (off AND 0xFF), chan_reg (unat ch) 3 := ucast (drop_bit 8 off AND 0xFF))"
proof -
  have sp: "\<And>j. j < 4 \<Longrightarrow> chan_reg (unat ch) j \<noteq> PCA9685_MODE1 \<and> chan_reg (unat ch) j \<noteq> PCA9685_PRESCALE"
    using assms(2) by (intro chan_reg_special) simp_all
  define r where "r = (\<lambda>j. chan_reg (unat ch) j)"
  have s: "r 0 + 1 = r 1" "r 1 + 1 = r 2" "r 2 + 1 = r 3"
    by (simp_all add: r_def chan_reg_def)
  have sp': "r j \<noteq> PCA9685_MODE1" "r j \<noteq> PCA9685_PRESCALE" if "j < 4" for j
    using sp [OF that] by (simp_all add: r_def)
  have ai: "pca_ai r'" "pca_ai (r'(r j := v))" if "pca_ai r'" "j < 4" for r' j v
    using that pca_write_from_ai(2) [OF that(1) sp'[OF that(2)]] by simp_all
  have w: "pca_write_from r' (r j) (v # vs) = pca_write_from (r'(r j := v)) (r j + 1) vs"
    if "pca_ai r'" "j < 4" for r' j v vs
    using pca_write_from_ai(1) [OF that(1) sp'[OF that(2)]] .
  let ?v1 = "ucast (on AND 0xFF) :: u8" and ?v2 = "ucast (drop_bit 8 on AND 0xFF) :: u8"
  let ?v3 = "ucast (off AND 0xFF) :: u8" and ?v4 = "ucast (drop_bit 8 off AND 0xFF) :: u8"
  have "pca_write_from regs (r 0) [?v1, ?v2, ?v3, ?v4] =
        pca_write_from (regs(r 0 := ?v1)) (r 1) [?v2, ?v3, ?v4]"
    by (simp only: w [OF assms(1), of 0] s(1))
  also have "\<dots> = pca_write_from (regs(r 0 := ?v1, r 1 := ?v2)) (r 2) [?v3, ?v4]"
    by (simp only: w [OF ai(2) [OF assms(1), of 0], of 1] s(2))
  also have "\<dots> = pca_write_from (regs(r 0 := ?v1, r 1 := ?v2, r 2 := ?v3)) (r 3) [?v4]"
    by (simp only: w [OF ai(2) [OF ai(2) [OF assms(1), of 0], of 1], of 2] s(3))
  also have "\<dots> = regs(r 0 := ?v1, r 1 := ?v2, r 2 := ?v3, r 3 := ?v4)"
    by (simp only: w [OF ai(2) [OF ai(2) [OF ai(2) [OF assms(1), of 0], of 1], of 2], of 3]
        pca_write_from.simps(1))
  finally show ?thesis
    unfolding pca9685_set_pwm_def pca_write_def list.case chan_reg_base r_def [symmetric] .
qed

lemma chan_block_update:
  assumes "n < 16" "c < 16" "j < 4"
  shows "(regs(chan_reg c 0 := a, chan_reg c 1 := b, chan_reg c 2 := d, chan_reg c 3 := e)) (chan_reg n j) =
           (if n = c then [a, b, d, e] ! j else regs (chan_reg n j))"
proof -
  have "j = 0 \<or> j = 1 \<or> j = 2 \<or> j = 3" using assms(3) by arith
  then show ?thesis using assms by (auto simp: chan_reg_eq_iff)
qed

text \<open>A channel write leaves the configuration registers \<open>MODE1\<close> and \<open>PRE_SCALE\<close> alone.\<close>

lemma pca_set_pwm_cfg:
  assumes "pca_ai regs" "unat ch < 16"
  shows "pca_write regs (pca9685_set_pwm ch on off) PCA9685_MODE1 = regs PCA9685_MODE1"
    and "pca_write regs (pca9685_set_pwm ch on off) PCA9685_PRESCALE = regs PCA9685_PRESCALE"
proof -
  have "PCA9685_MODE1 \<noteq> chan_reg (unat ch) j \<and> PCA9685_PRESCALE \<noteq> chan_reg (unat ch) j" if "j < 4" for j
    using chan_reg_special [OF assms(2) that] by (auto dest: sym)
  from this [of 0] this [of 1] this [of 2] this [of 3]
  show "pca_write regs (pca9685_set_pwm ch on off) PCA9685_MODE1 = regs PCA9685_MODE1"
       "pca_write regs (pca9685_set_pwm ch on off) PCA9685_PRESCALE = regs PCA9685_PRESCALE"
    using assms by (simp_all add: pca_write_set_pwm)
qed

lemma pca_ai_set_pwm:
  assumes "pca_ai regs" "unat ch < 16"
  shows "pca_ai (pca_write regs (pca9685_set_pwm ch on off))"
  using assms pca_set_pwm_cfg(1) [OF assms] by (simp add: pca_ai_def)

lemma pca_abs_set_pwm:
  assumes "pca_ai regs" "unat ch < 16"
  shows "pca_abs (pca_write regs (pca9685_set_pwm ch on off)) = (pca_abs regs)[unat ch := (on, off)]"
proof (rule nth_equalityI)
  show "length (pca_abs (pca_write regs (pca9685_set_pwm ch on off))) = length ((pca_abs regs)[unat ch := (on, off)])"
    by (simp add: pca_abs_def)
next
  fix n assume "n < length (pca_abs (pca_write regs (pca9685_set_pwm ch on off)))"
  then have n: "n < 16" by (simp add: pca_abs_def)
  define R where "R = pca_write regs (pca9685_set_pwm ch on off)"
  have b: "R (chan_reg n j) =
      (if n = unat ch then [ucast (on AND 0xFF), ucast (drop_bit 8 on AND 0xFF), ucast (off AND 0xFF),
                            ucast (drop_bit 8 off AND 0xFF)] ! j
       else regs (chan_reg n j))" if "j < 4" for j
    unfolding R_def pca_write_set_pwm [OF assms] using n assms(2) that by (rule chan_block_update)
  have "chan_drive R n = (if n = unat ch then (on, off) else chan_drive regs n)"
    unfolding chan_drive_def using b [of 0] b [of 1] b [of 2] b [of 3] by simp
  then show "pca_abs R ! n = (pca_abs regs)[unat ch := (on, off)] ! n"
    using n assms(2) by (simp add: pca_abs_def nth_list_update)
qed

lemma set_pwm_duty_as_set_pwm:
  "set_pwm_duty l ch duty = pca9685_set_pwm ch (fst (pwm_drive l duty)) (snd (pwm_drive l duty))"
  by (simp add: set_pwm_duty_def pwm_drive_def Let_def)

lemma pca_apply_Cons [simp]: "pca_apply regs (b # bs) = pca_apply (pca_write regs b) bs"
  by (simp add: pca_apply_def)

lemma pca_apply_Nil [simp]: "pca_apply regs [] = regs"
  by (simp add: pca_apply_def)

lemma pca_apply_append: "pca_apply regs (xs @ ys) = pca_apply (pca_apply regs xs) ys"
  by (simp add: pca_apply_def)

lemma pca_set_pwm_duty:
  assumes "pca_ai regs" "unat ch < 16"
  shows "pca_abs (pca_write regs (set_pwm_duty l ch d)) = (pca_abs regs)[unat ch := pwm_drive l d]"
    and "pca_ai (pca_write regs (set_pwm_duty l ch d))"
    and "pca_write regs (set_pwm_duty l ch d) PCA9685_MODE1 = regs PCA9685_MODE1"
    and "pca_write regs (set_pwm_duty l ch d) PCA9685_PRESCALE = regs PCA9685_PRESCALE"
  using pca_abs_set_pwm [OF assms] pca_ai_set_pwm [OF assms] pca_set_pwm_cfg [OF assms]
  by (simp_all add: set_pwm_duty_as_set_pwm)

lemma pca_set_rgb_led:
  assumes "pca_ai regs" "unat i < NUM_LEDS"
  shows "pca_abs (pca_apply regs (set_rgb_led l i r g b)) =
           (pca_abs regs)[3 * unat i := pwm_drive l r, 3 * unat i + 1 := pwm_drive l g,
                          3 * unat i + 2 := pwm_drive l b]"
    and "pca_ai (pca_apply regs (set_rgb_led l i r g b))"
    and "pca_apply regs (set_rgb_led l i r g b) PCA9685_MODE1 = regs PCA9685_MODE1"
    and "pca_apply regs (set_rgb_led l i r g b) PCA9685_PRESCALE = regs PCA9685_PRESCALE"
proof -
  have u: "unat (i * 3 + of_nat k) = 3 * unat i + k" if "k < 3" for k
    using assms(2) that by (rule unat_led_channel)
  have u0: "unat (i * 3) = 3 * unat i" using u [of 0] by simp
  have u1: "unat (i * 3 + 1) = 3 * unat i + 1" using u [of 1] by simp
  have u2: "unat (i * 3 + 2) = 3 * unat i + 2" using u [of 2] by simp
  have lt: "3 * unat i + 2 < 16" using assms(2) by (simp add: NUM_LEDS_def)
  note s = pca_set_pwm_duty
  show "pca_abs (pca_apply regs (set_rgb_led l i r g b)) =
           (pca_abs regs)[3 * unat i := pwm_drive l r, 3 * unat i + 1 := pwm_drive l g,
                          3 * unat i + 2 := pwm_drive l b]"
       "pca_ai (pca_apply regs (set_rgb_led l i r g b))"
       "pca_apply regs (set_rgb_led l i r g b) PCA9685_MODE1 = regs PCA9685_MODE1"
       "pca_apply regs (set_rgb_led l i r g b) PCA9685_PRESCALE = regs PCA9685_PRESCALE"
    using lt assms(1) by (simp_all add: set_rgb_led_in_range [OF assms(2)] s u0 u1 u2)
qed

lemma pca_set_rgb_led_out_of_range:
  "NUM_LEDS \<le> unat i \<Longrightarrow> pca_apply regs (set_rgb_led l i r g b) = regs"
  by (simp add: set_rgb_led_def)

lemma pwm_drive_zero: "pwm_drive l 0 = (4096, 0)"
  by (simp add: pwm_drive_def adjusted_duty_def)

lemma pca_turn_off_prefix:
  assumes "pca_ai regs" "k \<le> NUM_LEDS"
  shows "pca_abs (pca_apply regs (concat (map (\<lambda>i. set_rgb_led l (of_nat i) 0 0 0) [0..<k]))) =
           map (\<lambda>n. if n < 3 * k then (4096, 0) else pca_abs regs ! n) [0..<16] \<and>
         pca_ai (pca_apply regs (concat (map (\<lambda>i. set_rgb_led l (of_nat i) 0 0 0) [0..<k])))"
  using assms(2)
proof (induction k)
  case 0
  have "pca_abs regs = map (\<lambda>n. pca_abs regs ! n) [0..<16]"
    by (rule nth_equalityI) (simp_all add: pca_abs_def)
  then show ?case using assms(1) by simp
next
  case (Suc k)
  define R where "R = pca_apply regs (concat (map (\<lambda>i. set_rgb_led l (of_nat i) 0 0 0) [0..<k]))"
  have IH: "pca_abs R = map (\<lambda>n. if n < 3 * k then (4096, 0) else pca_abs regs ! n) [0..<16]" "pca_ai R"
    using Suc by (simp_all add: R_def)
  have k: "unat (of_nat k :: u8) = k" "unat (of_nat k :: u8) < NUM_LEDS"
    using Suc.prems by (simp_all add: NUM_LEDS_def unat_word_of_nat_small)
  have e: "pca_apply regs (concat (map (\<lambda>i. set_rgb_led l (of_nat i) 0 0 0) [0..<Suc k])) =
           pca_apply R (set_rgb_led l (of_nat k) 0 0 0)"
    by (simp add: R_def pca_apply_append)
  have "pca_abs (pca_apply R (set_rgb_led l (of_nat k) 0 0 0)) =
          map (\<lambda>n. if n < 3 * Suc k then (4096, 0) else pca_abs regs ! n) [0..<16]"
    unfolding pca_set_rgb_led(1) [OF IH(2) k(2)] IH(1) k(1) pwm_drive_zero
    using Suc.prems by (intro nth_equalityI) (auto simp: nth_list_update NUM_LEDS_def)
  then show ?case using pca_set_rgb_led(2) [OF IH(2) k(2)] e by simp
qed

lemma pca_turn_off_all_leds:
  assumes "pca_ai regs"
  shows "pca_abs (pca_apply regs (turn_off_all_leds l)) = replicate 15 (4096, 0) @ [pca_abs regs ! 15]"
proof -
  have "pca_abs (pca_apply regs (turn_off_all_leds l)) =
          map (\<lambda>n. if n < 15 then (4096, 0) else pca_abs regs ! n) [0..<16]"
    using pca_turn_off_prefix [OF assms, of NUM_LEDS l] by (simp add: turn_off_all_leds_def NUM_LEDS_def)
  also have "\<dots> = replicate 15 (4096, 0) @ [pca_abs regs ! 15]"
    by (rule nth_equalityI) (auto simp: nth_append intro!: arg_cong [of _ _ "(!) (pca_abs regs)"])
  finally show ?thesis .
qed

lemma pca_setup_regs:
  "pca_apply pca_reset app_main_bus_setup PCA9685_MODE1 = 0xA0 \<and>
   pca_apply pca_reset app_main_bus_setup PCA9685_PRESCALE = 6 \<and>
   pca_apply pca_reset app_main_bus_setup PCA9685_MODE2 = 0x04"
  by (simp add: app_main_bus_setup_def pca9685_init_def pca9685_write_byte_def pca_write_def
      pca_store_def pca_next_def PCA9685_MODE1_def PCA9685_MODE2_def PCA9685_PRESCALE_def pca_reset_def)

section \<open>Properties of the controller set-up and the channel writes\<close>

text \<open>
  C2: Refinement of the channel writes. With auto-increment on, the three writes
  of \<open>set_rgb_led l i r g b\<close> update the abstract channel state exactly at channels
  \<open>3 i\<close>, \<open>3 i + 1\<close>, \<open>3 i + 2\<close> with the drives \<open>set_pwm_duty\<close> computes, and
  keep auto-increment on; an index at or past \<open>NUM_LEDS\<close> changes nothing.
\<close>

theorem set_rgb_led_refines:
  assumes "pca_ai regs"
  shows "pca_abs (pca_apply regs (set_rgb_led l i r g b)) =
           (if unat i < NUM_LEDS
            then (pca_abs regs)[3 * unat i := pwm_drive l r, 3 * unat i + 1 := pwm_drive l g,
                                3 * unat i + 2 := pwm_drive l b]
            else pca_abs regs) \<and>
         pca_ai (pca_apply regs (set_rgb_led l i r g b))"
  using assms pca_set_rgb_led [OF assms] pca_set_rgb_led_out_of_range [of i regs l r g b]
  by (cases "unat i < NUM_LEDS") simp_all

theorem set_rgb_led_refines_witness:
  "pca_abs (pca_apply (pca_apply pca_reset app_main_bus_setup) (set_rgb_led 1 2 4095 0 0)) =
     (if unat (2 :: u8) < NUM_LEDS
      then (pca_abs (pca_apply pca_reset app_main_bus_setup))[3 * unat (2 :: u8) := pwm_drive 1 4095,
             3 * unat (2 :: u8) + 1 := pwm_drive 1 0, 3 * unat (2 :: u8) + 2 := pwm_drive 1 0]
      else pca_abs (pca_apply pca_reset app_main_bus_setup)) \<and>
   pca_ai (pca_apply (pca_apply pca_reset app_main_bus_setup) (set_rgb_led 1 2 4095 0 0))"
  by (rule set_rgb_led_refines) (simp add: pca_ai_def pca_setup_regs)

text \<open>
  C8: \<open>app_main\<close>'s set-up writes configure the controller from any register
  contents, not only from its power-on state (a reset of the ESP32 leaves the
  PCA9685 powered and its registers as they were): \<open>MODE1 = 0xA0\<close> (auto-increment
  on, awake), \<open>MODE2 = 0x04\<close>, \<open>PRE_SCALE = 6\<close>, because \<open>pca9685_init\<close> sets
  \<open>SLEEP\<close> before its prescale write and the later write of 25 comes after
  \<open>SLEEP\<close> is cleared and is ignored; every other register keeps its value. The PWM
  runs at about 872 Hz, neither the 800 Hz of the comment in \<open>pca9685_init\<close> nor
  the 1000 Hz of the comment in \<open>app_main\<close>.
\<close>

theorem app_main_setup_any_state:
  "pca_apply regs app_main_bus_setup =
     regs(PCA9685_MODE1 := 0xA0, PCA9685_MODE2 := 0x04, PCA9685_PRESCALE := 6) \<and>
   871 < pca_update_rate (pca_apply regs app_main_bus_setup) \<and>
   pca_update_rate (pca_apply regs app_main_bus_setup) < 872"
proof -
  have regs: "pca_apply regs app_main_bus_setup =
     regs(PCA9685_MODE1 := 0xA0, PCA9685_MODE2 := 0x04, PCA9685_PRESCALE := 6)"
    by (auto simp: app_main_bus_setup_def pca9685_init_def pca9685_write_byte_def pca_write_def
        pca_store_def PCA9685_MODE1_def PCA9685_MODE2_def PCA9685_PRESCALE_def fun_upd_twist)
  then show ?thesis by (simp add: pca_update_rate_def PCA9685_MODE1_def PCA9685_MODE2_def PCA9685_PRESCALE_def)
qed

end
