(* ===== verification/Bus.thy ===== *)
theory Bus
  imports System Pca9685
begin

text \<open>
  The I2C transfers and their failures. Every write of the code goes through
  \<open>i2c_master_write_to_device\<close> (in \<open>pca9685_set_pwm\<close> and
  \<open>pca9685_write_byte\<close> of \<open>src/src/main_app.c\<close>); a transfer that stops early
  delivers the bytes the controller acknowledged, a prefix of the buffer, and returns
  an error. \<open>i2c_apply\<close> applies a sequence of buffers, each with the number of
  bytes delivered, to the register file of \<open>Pca9685\<close>. \<open>chan_apply\<close> is the
  abstract effect of a sequence of channel writes on the 16 (ON, OFF) pairs, read off
  the buffers' bytes. The lemmas show that channel writes, even torn ones, touch only
  their own channel's registers, that complete channel writes refine
  \<open>chan_apply\<close>, and what a lost set-up write does.
\<close>

section \<open>ESP-IDF results and the transfer\<close>

text \<open>\<open>esp_err_t\<close> is an \<open>int\<close>: \<open>ESP_OK = 0\<close>, \<open>ESP_FAIL = -1\<close>.\<close>

definition ESP_OK :: int where
  "ESP_OK = 0"

definition ESP_FAIL :: int where
  "ESP_FAIL = -1"

text \<open>
  \<open>i2c_master_write_to_device\<close> when the device acknowledges \<open>k\<close> bytes: the
  bytes delivered, and the result, \<open>ESP_OK\<close> exactly when the whole buffer got
  through. (ESP-IDF reports a timeout as \<open>ESP_ERR_TIMEOUT\<close> and a missing
  acknowledge as \<open>ESP_FAIL\<close>; the code only compares the result with \<open>ESP_OK\<close>.)
\<close>

definition i2c_master_write_to_device :: "nat \<Rightarrow> u8 list \<Rightarrow> u8 list \<times> int" where
  "i2c_master_write_to_device k buf = (take k buf, if length buf \<le> k then ESP_OK else ESP_FAIL)"

text \<open>A sequence of transfers, each buffer with the number of bytes acknowledged.\<close>

definition i2c_apply :: "pca_regs \<Rightarrow> (u8 list \<times> nat) list \<Rightarrow> pca_regs" where
  "i2c_apply regs bks = foldl (\<lambda>r (b, k). pca_write r (fst (i2c_master_write_to_device k b))) regs bks"

section \<open>The abstract channel state\<close>

text \<open>The effect of channel writes on the (ON, OFF) pairs, from the decoded buffers.\<close>

definition chan_apply :: "(u16 \<times> u16) list \<Rightarrow> u8 list list \<Rightarrow> (u16 \<times> u16) list" where
  "chan_apply d w = foldl (\<lambda>d b. d[buf_channel b := (buf_on b, buf_off b)]) d w"

text \<open>
  The registers the tasks must never change: \<open>MODE1\<close>, \<open>PRE_SCALE\<close> and the
  block of channel 15, which no fixture uses.
\<close>

definition cfg_regs :: "u8 set" where
  "cfg_regs = {PCA9685_MODE1, PCA9685_PRESCALE} \<union> chan_reg 15 ` {..<4}"

section \<open>Lemmas\<close>

lemma chan_reg_Suc: "chan_reg n j + 1 = chan_reg n (Suc j)"
  by (simp add: chan_reg_def)

lemma i2c_apply_Nil [simp]: "i2c_apply regs [] = regs"
  by (simp add: i2c_apply_def)

lemma i2c_apply_Cons [simp]:
  "i2c_apply regs ((b, k) # bks) = i2c_apply (pca_write regs (take k b)) bks"
  by (simp add: i2c_apply_def i2c_master_write_to_device_def)

text \<open>Complete transfers are the writes of the fault-free model.\<close>

lemma i2c_apply_complete:
  "list_all (\<lambda>(b, k). length b \<le> k) bks \<Longrightarrow> i2c_apply regs bks = pca_apply regs (map fst bks)"
  by (induction bks arbitrary: regs) auto

text \<open>With auto-increment on, data bytes into a channel block stay in that block.\<close>

lemma pca_write_from_block:
  assumes "pca_ai regs" "c < 16" "n + length vs \<le> 4" "\<forall>j<4. r \<noteq> chan_reg c j"
  shows "pca_write_from regs (chan_reg c n) vs r = regs r \<and> pca_ai (pca_write_from regs (chan_reg c n) vs)"
  using assms
proof (induction vs arbitrary: regs n)
  case Nil
  then show ?case by simp
next
  case (Cons v vs)
  have sp: "chan_reg c n \<noteq> PCA9685_MODE1" "chan_reg c n \<noteq> PCA9685_PRESCALE"
    using chan_reg_special [of c n] Cons.prems(2,3) by simp_all
  define R where "R = regs(chan_reg c n := v)"
  have ai: "pca_ai R" using pca_write_from_ai(2) [OF Cons.prems(1) sp] by (simp add: R_def)
  have step: "pca_write_from regs (chan_reg c n) (v # vs) = pca_write_from R (chan_reg c (Suc n)) vs"
    using pca_write_from_ai(1) [OF Cons.prems(1) sp] by (simp add: chan_reg_Suc R_def)
  have "r \<noteq> chan_reg c n" using Cons.prems(3,4) by simp
  then have "R r = regs r" by (simp add: R_def)
  moreover have "pca_write_from R (chan_reg c (Suc n)) vs r = R r \<and> pca_ai (pca_write_from R (chan_reg c (Suc n)) vs)"
    using Cons.IH [OF ai, of "Suc n"] Cons.prems(2-4) by simp
  ultimately show ?case using step by simp
qed

text \<open>A channel write, complete or cut short, changes only its own channel's registers.\<close>

lemma pca_write_prefix_keep:
  assumes "pca_ai regs" "unat ch < 16" "\<forall>j<4. r \<noteq> chan_reg (unat ch) j"
  shows "pca_write regs (take k (pca9685_set_pwm ch on off)) r = regs r \<and>
         pca_ai (pca_write regs (take k (pca9685_set_pwm ch on off)))"
proof -
  obtain vs where vs: "pca9685_set_pwm ch on off = chan_reg (unat ch) 0 # vs" "length vs = 4"
    by (simp add: pca9685_set_pwm_def chan_reg_base)
  show ?thesis
  proof (cases k)
    case 0
    then show ?thesis using assms(1) by (simp add: pca_write_def)
  next
    case (Suc k')
    then have "pca_write regs (take k (pca9685_set_pwm ch on off)) =
               pca_write_from regs (chan_reg (unat ch) 0) (take k' vs)"
      by (simp add: vs pca_write_def)
    then show ?thesis using pca_write_from_block [OF assms(1,2), of 0 "take k' vs" r] assms(3) vs(2)
      by simp
  qed
qed

lemma cfg_regs_outside:
  assumes "unat ch < 15" "j < 4" "r \<in> cfg_regs"
  shows "r \<noteq> chan_reg (unat ch) j"
proof -
  have "chan_reg (unat ch) j \<noteq> chan_reg 15 j'" if "j' < 4" for j'
    using assms(1,2) that by (simp add: chan_reg_eq_iff)
  then show ?thesis
    using assms chan_reg_special [of "unat ch" j] by (auto simp: cfg_regs_def)
qed

lemma set_rgb_led_bufs:
  assumes "b \<in> set (set_rgb_led l i r g bl)"
  shows "\<exists>ch on off. unat ch < 15 \<and> b = pca9685_set_pwm ch on off"
proof (cases "unat i < NUM_LEDS")
  case True
  have u: "unat (i * 3 + of_nat k) < 15" if "k < 3" for k
    using unat_led_channel [OF True that] True that by (simp add: NUM_LEDS_def)
  have "unat (i * 3) < 15" "unat (i * 3 + 1) < 15" "unat (i * 3 + 2) < 15"
    using u [of 0] u [of 1] u [of 2] by simp_all
  then show ?thesis using assms by (auto simp: set_rgb_led_in_range [OF True] set_pwm_duty_as_set_pwm)
next
  case False
  then show ?thesis using assms by (simp add: set_rgb_led_def)
qed

text \<open>Every buffer the calls of the tasks put on the bus is a write of a fixture channel.\<close>

lemma calls_bus_bufs:
  "b \<in> set (calls_bus l os) \<Longrightarrow> \<exists>ch on off. unat ch < 15 \<and> b = pca9685_set_pwm ch on off"
proof (induction l os rule: calls_bus.induct)
  case (2 l i r g bl os)
  then show ?case using set_rgb_led_bufs [of b l "of_nat i" r g bl] by auto
qed simp_all

text \<open>Fixture channel writes, whatever reaches the controller, keep auto-increment and the configuration.\<close>

lemma i2c_apply_keep:
  assumes "pca_ai regs" "\<forall>bk\<in>set bks. \<exists>ch on off. unat ch < 15 \<and> fst bk = pca9685_set_pwm ch on off"
  shows "pca_ai (i2c_apply regs bks) \<and> (\<forall>r\<in>cfg_regs. i2c_apply regs bks r = regs r)"
  using assms
proof (induction bks arbitrary: regs)
  case Nil
  then show ?case by simp
next
  case (Cons bk bks)
  obtain b k where bk: "bk = (b, k)" by (cases bk)
  obtain ch on off where ch: "unat ch < 15" "b = pca9685_set_pwm ch on off"
    using Cons.prems(2) bk by auto
  define R where "R = pca_write regs (take k b)"
  have keep: "R r = regs r \<and> pca_ai R" if "r \<in> cfg_regs" for r
    using pca_write_prefix_keep [OF Cons.prems(1), of ch r k on off] ch cfg_regs_outside [OF ch(1) _ that]
    by (simp add: R_def)
  have R: "pca_ai R" "\<forall>r\<in>cfg_regs. R r = regs r"
    using keep [of PCA9685_MODE1] keep by (simp_all add: cfg_regs_def)
  show ?case using Cons.IH [OF R(1)] Cons.prems(2) R(2) by (simp add: bk R_def [symmetric])
qed

lemma chan_drive_cfg:
  "\<forall>r\<in>cfg_regs. regs' r = regs r \<Longrightarrow> pca_abs regs' ! 15 = pca_abs regs ! 15"
  by (simp add: cfg_regs_def pca_abs_def chan_drive_def)

text \<open>Complete fixture channel writes refine \<open>chan_apply\<close>.\<close>

lemma pca_apply_chan_apply:
  assumes "pca_ai regs" "\<forall>b\<in>set w. \<exists>ch on off. unat ch < 16 \<and> b = pca9685_set_pwm ch on off"
  shows "pca_abs (pca_apply regs w) = chan_apply (pca_abs regs) w \<and> pca_ai (pca_apply regs w)"
  using assms
proof (induction w arbitrary: regs)
  case Nil
  then show ?case by (simp add: chan_apply_def)
next
  case (Cons b w)
  obtain ch on off where ch: "unat ch < 16" "b = pca9685_set_pwm ch on off" using Cons.prems(2) by auto
  have d: "buf_channel b = unat ch" "buf_on b = on" "buf_off b = off"
    using decode_pca9685_set_pwm [of ch on off] ch by (simp_all add: decode_pwm_def)
  have "pca_abs (pca_write regs b) = (pca_abs regs)[buf_channel b := (buf_on b, buf_off b)]"
    using pca_abs_set_pwm [OF Cons.prems(1) ch(1)] ch(2) d by simp
  then show ?case using Cons.IH [OF pca_ai_set_pwm [OF Cons.prems(1) ch(1)]] Cons.prems(2) ch(2)
    by (simp add: chan_apply_def)
qed

text \<open>A set-up byte reaches its register only when both bytes are acknowledged.\<close>

lemma write_byte_prefix:
  "pca_write regs (take k (pca9685_write_byte reg v)) = (if 2 \<le> k then pca_store regs reg v else regs)"
  by (cases k; cases "k - 1") (auto simp: pca9685_write_byte_def pca_write_def)

text \<open>
  With auto-increment off every data byte of a channel write goes to \<open>LEDn_ON_L\<close>,
  which ends up holding the last one, the high byte of OFF.
\<close>

lemma pca_write_set_pwm_no_ai:
  assumes "\<not> pca_ai regs" "unat ch < 16"
  shows "pca_write regs (pca9685_set_pwm ch on off) =
           regs(chan_reg (unat ch) 0 := ucast (drop_bit 8 off AND 0xFF))"
proof -
  define r0 where "r0 = chan_reg (unat ch) 0"
  have sp: "r0 \<noteq> PCA9685_MODE1" "r0 \<noteq> PCA9685_PRESCALE"
    using chan_reg_special [of "unat ch" 0] assms(2) by (simp_all add: r0_def)
  have "\<not> bit (regs PCA9685_MODE1) 5" using assms(1) by (simp add: pca_ai_def)
  then show ?thesis using sp
    by (simp add: pca9685_set_pwm_def pca_write_def chan_reg_base r0_def [symmetric]
        pca_store_def pca_next_def)
qed

lemma pca_store_MODE1:
  "pca_store regs reg v PCA9685_MODE1 = (if reg = PCA9685_MODE1 then v else regs PCA9685_MODE1)"
  by (simp add: pca_store_def PCA9685_MODE1_def PCA9685_PRESCALE_def)

section \<open>Properties of the transfers\<close>

text \<open>
  C19: The set-up writes are unchecked: \<open>pca9685_write_byte\<close> returns the
  transfer's result and \<open>pca9685_init\<close> and \<open>app_main\<close> ignore it. If the
  write that wakes the controller (\<open>MODE1 := 0xA0\<close>, the fourth) does not get
  through, then whatever happens to the other four, the controller stays asleep
  (\<open>MODE1.SLEEP\<close> set) with auto-increment off, and every later channel write
  puts all four data bytes into \<open>LEDn_ON_L\<close>, which ends up holding the high byte
  of OFF, leaving \<open>LEDn_ON_H\<close>, \<open>LEDn_OFF_L\<close> and \<open>LEDn_OFF_H\<close> as they were.
\<close>

theorem init_wake_write_lost:
  assumes "length ks = 5" "ks ! 3 < 2" "unat ch < 16"
  shows "bit (i2c_apply pca_reset (zip app_main_bus_setup ks) PCA9685_MODE1) 4 \<and>
         \<not> pca_ai (i2c_apply pca_reset (zip app_main_bus_setup ks)) \<and>
         pca_write (i2c_apply pca_reset (zip app_main_bus_setup ks)) (pca9685_set_pwm ch on off) =
           (i2c_apply pca_reset (zip app_main_bus_setup ks))
             (chan_reg (unat ch) 0 := ucast (drop_bit 8 off AND 0xFF))"
proof -
  obtain k0 k1 k2 k3 k4 where ks: "ks = [k0, k1, k2, k3, k4]"
    using assms(1) by (auto simp: length_Suc_conv numeral_eq_Suc)
  define R where "R = i2c_apply pca_reset (zip app_main_bus_setup ks)"
  have "k3 < 2" using assms(2) by (simp add: ks)
  have "R PCA9685_MODE1 = (if 2 \<le> k0 then 0x10 else 0x11)"
  proof -
    have "PCA9685_MODE2 \<noteq> PCA9685_MODE1" "PCA9685_PRESCALE \<noteq> PCA9685_MODE1"
      "pca_reset PCA9685_MODE1 = 0x11"
      by (simp_all add: PCA9685_MODE1_def PCA9685_MODE2_def PCA9685_PRESCALE_def pca_reset_def)
    then show ?thesis
      using \<open>k3 < 2\<close> by (simp add: R_def ks app_main_bus_setup_def pca9685_init_def write_byte_prefix
          pca_store_MODE1)
  qed
  then have m: "bit (R PCA9685_MODE1) 4" "\<not> pca_ai R" by (simp_all add: pca_ai_def)
  then show ?thesis using pca_write_set_pwm_no_ai [OF m(2) assms(3), of on off] by (simp add: R_def)
qed

theorem init_wake_write_lost_witness:
  "bit (i2c_apply pca_reset (zip app_main_bus_setup [2, 2, 2, 0, 2]) PCA9685_MODE1) 4 \<and>
   \<not> pca_ai (i2c_apply pca_reset (zip app_main_bus_setup [2, 2, 2, 0, 2])) \<and>
   pca_write (i2c_apply pca_reset (zip app_main_bus_setup [2, 2, 2, 0, 2])) (pca9685_set_pwm 0 0 0) =
     (i2c_apply pca_reset (zip app_main_bus_setup [2, 2, 2, 0, 2]))
       (chan_reg (unat (0 :: u8)) 0 := ucast (drop_bit 8 (0 :: u16) AND 0xFF))"
  by (rule init_wake_write_lost) simp_all

end
