(* ===== verification/Boot.thy ===== *)
theory Boot
  imports Bus
begin

text \<open>
  Start-up and the whole device. \<open>app_main\<close> of \<open>src/src/main_app.c\<close> configures
  the I2C driver, writes the controller's set-up bytes, creates the event queue and
  starts the two tasks; its three outcomes are a value of \<open>boot\<close>. \<open>hw_reach\<close>
  pairs the controller's register file (\<open>Pca9685\<close>) with the system state
  (\<open>System\<close>): every I2C write of a system step is applied to the registers. The
  lemmas show that every write of the running system is a channel write, so the
  configuration set at boot is kept for good.
\<close>

section \<open>\<open>app_main\<close>\<close>

text \<open>
  \<open>i2c_master_init\<close>, given the results of \<open>i2c_param_config\<close> and
  \<open>i2c_driver_install\<close>: the first error is returned, the driver is not
  installed after a configuration error.
\<close>

definition i2c_master_init :: "int \<Rightarrow> int \<Rightarrow> int" where
  "i2c_master_init param_ret install_ret = (if param_ret \<noteq> ESP_OK then param_ret else install_ret)"

text \<open>
  The outcomes of \<open>app_main\<close>: \<open>ESP_ERROR_CHECK\<close> aborts when
  \<open>i2c_master_init\<close> returns an error; when \<open>xQueueCreate\<close> returns \<open>NULL\<close>
  the function returns after the set-up writes and no task is started; otherwise
  the two tasks run from the initial state of the system.
\<close>

datatype boot = Boot_Abort | Boot_Idle "u8 list list" | Boot_Run "u8 list list" sys_st

definition app_main :: "int \<Rightarrow> int \<Rightarrow> bool \<Rightarrow> boot" where
  "app_main param_ret install_ret queue_ok =
     (if i2c_master_init param_ret install_ret \<noteq> ESP_OK then Boot_Abort
      else if \<not> queue_ok then Boot_Idle app_main_bus_setup
      else Boot_Run app_main_bus_setup sys_init)"

section \<open>The device\<close>

text \<open>
  Reachable pairs of register file and system state: the state \<open>app_main\<close> starts
  the tasks in, with the registers after its set-up writes from the power-on
  values, and every system step with its writes applied in order, each transfer
  delivering any prefix of its buffer (\<open>ks\<close>: the bytes acknowledged; the code
  only logs a failed transfer and goes on).
\<close>

inductive hw_reach :: "pca_regs \<Rightarrow> sys_st \<Rightarrow> bool" where
  hw_boot: "app_main ESP_OK ESP_OK True = Boot_Run w s \<Longrightarrow> hw_reach (pca_apply pca_reset w) s"
| hw_step: "hw_reach regs s \<Longrightarrow> sys_step s w s' \<Longrightarrow> length ks = length w \<Longrightarrow>
    hw_reach (i2c_apply regs (zip w ks)) s'"

text \<open>The controller configuration \<open>app_main\<close> sets up, with channel 15 (no fixture) at its reset value.\<close>

definition hw_cfg_ok :: "pca_regs \<Rightarrow> bool" where
  "hw_cfg_ok regs \<longleftrightarrow>
     regs PCA9685_MODE1 = 0xA0 \<and> regs PCA9685_PRESCALE = 6 \<and> pca_abs regs ! 15 = (0, 4096)"

section \<open>Lemmas\<close>

lemma calls_bus_append: "calls_bus l (xs @ ys) = calls_bus l xs @ calls_bus l ys"
  by (induction l xs rule: calls_bus.induct) simp_all

text \<open>Every write of a system step is a sequence of \<open>set_rgb_led\<close> writes.\<close>

lemma sys_step_writes:
  assumes "sys_step s w s'"
  shows "\<exists>l os. w = calls_bus l os"
  using assms
proof cases
  case (sys_press gpio i t)
  then show ?thesis by (intro exI [of _ 0] exI [of _ "[]"]) simp
next
  case (sys_serve c' b')
  then obtain evt rest where "handle_button_event (s_ctrl s) evt = (c', w)"
    by (auto simp: button_task_step_def split: list.splits prod.splits)
  then have "w = [] \<or> w = calls_bus (brightness_level (s_ctrl s)) off_calls"
    by (cases evt) (auto simp: Let_def calls_bus_off_calls)
  then show ?thesis by (metis calls_bus.simps(1))
next
  case (sys_anim r c' a' os)
  then show ?thesis by blast
qed

text \<open>
  The calls of the tasks keep auto-increment, the configuration registers and
  channel 15: with auto-increment on, only the fixtures' channels are written.
\<close>

lemma pca_calls_bus:
  assumes "pca_ai regs"
  shows "pca_ai (pca_apply regs (calls_bus l os)) \<and>
         pca_apply regs (calls_bus l os) PCA9685_MODE1 = regs PCA9685_MODE1 \<and>
         pca_apply regs (calls_bus l os) PCA9685_PRESCALE = regs PCA9685_PRESCALE \<and>
         pca_abs (pca_apply regs (calls_bus l os)) ! 15 = pca_abs regs ! 15"
  using assms
proof (induction l os arbitrary: regs rule: calls_bus.induct)
  case (2 l i r g b os)
  define R where "R = pca_apply regs (set_rgb_led l (of_nat i) r g b)"
  have R: "pca_ai R \<and> R PCA9685_MODE1 = regs PCA9685_MODE1 \<and>
           R PCA9685_PRESCALE = regs PCA9685_PRESCALE \<and> pca_abs R ! 15 = pca_abs regs ! 15"
  proof (cases "unat (of_nat i :: u8) < NUM_LEDS")
    case True
    then show ?thesis using pca_set_rgb_led [OF "2.prems" True, of l r g b]
      by (simp add: R_def nth_list_update NUM_LEDS_def)
  next
    case False
    then show ?thesis using "2.prems" pca_set_rgb_led_out_of_range [of "of_nat i" regs l r g b]
      by (simp add: R_def)
  qed
  then show ?case using "2.IH" [of R] by (simp add: pca_apply_append R_def [symmetric])
qed simp_all

lemma hw_cfg_ok_ai: "hw_cfg_ok regs \<Longrightarrow> pca_ai regs"
  by (simp add: hw_cfg_ok_def pca_ai_def)

lemma sys_step_bufs:
  assumes "sys_step s w s'" "b \<in> set w"
  shows "\<exists>ch on off. unat ch < 15 \<and> b = pca9685_set_pwm ch on off"
proof -
  obtain l os where "w = calls_bus l os" using sys_step_writes [OF assms(1)] by blast
  then show ?thesis using assms(2) calls_bus_bufs by blast
qed

lemma hw_cfg_ok_step:
  assumes "hw_cfg_ok regs" "sys_step s w s'"
  shows "hw_cfg_ok (i2c_apply regs (zip w ks))"
proof -
  have "\<forall>bk\<in>set (zip w ks). \<exists>ch on off. unat ch < 15 \<and> fst bk = pca9685_set_pwm ch on off"
    using sys_step_bufs [OF assms(2)] by (auto dest: set_zip_leftD)
  then have "\<forall>r\<in>cfg_regs. i2c_apply regs (zip w ks) r = regs r"
    using i2c_apply_keep [OF hw_cfg_ok_ai [OF assms(1)]] by blast
  then show ?thesis using assms(1) chan_drive_cfg [of "i2c_apply regs (zip w ks)" regs]
    by (simp add: hw_cfg_ok_def cfg_regs_def)
qed

lemma hw_cfg_ok_boot: "hw_cfg_ok (pca_apply pca_reset app_main_bus_setup)"
proof -
  have "pca_apply pca_reset app_main_bus_setup (chan_reg 15 j) = pca_reset (chan_reg 15 j)" if "j < 4" for j
  proof -
    have u: "unat (chan_reg 15 j) = 66 + j" using that by (simp add: unat_chan_reg)
    have "chan_reg 15 j \<noteq> PCA9685_MODE2"
    proof
      assume "chan_reg 15 j = PCA9685_MODE2"
      then have "unat (chan_reg 15 j) = 1" by (simp add: PCA9685_MODE2_def)
      with u show False by simp
    qed
    moreover have "chan_reg 15 j \<noteq> PCA9685_MODE1 \<and> chan_reg 15 j \<noteq> PCA9685_PRESCALE"
      using that by (intro chan_reg_special) simp_all
    ultimately show ?thesis
      by (simp add: app_main_bus_setup_def pca9685_init_def pca9685_write_byte_def pca_write_def
          pca_store_def pca_next_def)
  qed
  then have "chan_drive (pca_apply pca_reset app_main_bus_setup) 15 = chan_drive pca_reset 15"
    by (simp add: chan_drive_def)
  also have "\<dots> = (0, 4096)"
    by (simp add: chan_drive_def chan_reg_def pca_reset_def buf_word_def)
  finally show ?thesis using pca_setup_regs by (simp add: hw_cfg_ok_def pca_abs_def)
qed

text \<open>
  After the set-up writes and the self test of \<open>led_animation_task\<close>, at any
  brightness level, the controller holds every fixture channel full off and
  channel 15 at its reset value: the main loop starts from dark fixtures.
\<close>

lemma boot_self_test_dark:
  "pca_abs (pca_apply (pca_apply pca_reset app_main_bus_setup) (calls_bus l self_test_calls)) =
     replicate 15 (4096, 0) @ [(0, 4096)]"
proof -
  define R0 where "R0 = pca_apply pca_reset app_main_bus_setup"
  define xs where "xs = off_calls @
     concat (map (\<lambda>i. [SetLed i 4095 0 0, Delay 300, SetLed i 0 4095 0, Delay 300,
                        SetLed i 0 0 4095, Delay 300, SetLed i 0 0 0, Delay 100]) [0..<NUM_LEDS]) @
     map (\<lambda>i. SetLed i 4095 4095 4095) [0..<NUM_LEDS] @ [Delay 1000]"
  define R1 where "R1 = pca_apply R0 (calls_bus l xs)"
  have c0: "hw_cfg_ok R0" using hw_cfg_ok_boot by (simp add: R0_def)
  have r1: "pca_ai R1 \<and> pca_abs R1 ! 15 = (0, 4096)"
    using pca_calls_bus [OF hw_cfg_ok_ai [OF c0], of l xs] c0 by (simp add: R1_def hw_cfg_ok_def)
  have "calls_bus l self_test_calls = calls_bus l xs @ turn_off_all_leds l"
    by (simp add: self_test_calls_def xs_def calls_bus_append calls_bus_off_calls)
  then have "pca_apply R0 (calls_bus l self_test_calls) = pca_apply R1 (turn_off_all_leds l)"
    by (simp add: R1_def pca_apply_append)
  then show ?thesis using pca_turn_off_all_leds [of R1 l] r1 by (simp add: R0_def)
qed

text \<open>
  The invariant of the device: the system state is reachable and valid, and the
  controller keeps the configuration set at boot.
\<close>

lemma hw_reach_inv: "hw_reach regs s \<Longrightarrow> reach s \<and> sys_ok s \<and> hw_cfg_ok regs"
proof (induction rule: hw_reach.induct)
  case (hw_boot w s)
  then have "s = sys_init" "w = app_main_bus_setup" by (simp_all add: app_main_def i2c_master_init_def split: if_splits)
  moreover have "sys_ok sys_init"
    by (simp add: sys_ok_def sys_init_def btn_ok_def btn_init_def anim_ok_def anim_init_def)
  ultimately show ?case using reach_init hw_cfg_ok_boot by simp
next
  case (hw_step regs s w s' ks)
  then show ?case by (blast intro: reach_step hw_cfg_ok_step sys_step_ok)
qed

text \<open>A run of the animation task, one step more at the end.\<close>

lemma anim_run_snoc:
  "anim_run (Suc n) c rnd a =
     (case anim_run n c rnd a of
        (os, c', a') \<Rightarrow> (case anim_step c' (rnd n) a' of (c'', a'', os') \<Rightarrow> (os @ os', c'', a'')))"
proof (induction n arbitrary: c rnd a)
  case 0
  then show ?case by (simp split: prod.splits)
next
  case (Suc n)
  show ?case
    using Suc.IH [of "fst (anim_step c (rnd 0) a)" "\<lambda>k. rnd (Suc k)" "fst (snd (anim_step c (rnd 0) a))"]
    by (simp del: anim_run.simps(2) add: anim_run.simps(2) [of "Suc n"] anim_run.simps(2) [of n] split_def)
qed

text \<open>The animation task alone never changes the globals the input path owns.\<close>

lemma anim_run_ctrl_keeps:
  "led_on (fst (snd (anim_run n c rnd a))) = led_on c \<and>
   brightness_level (fst (snd (anim_run n c rnd a))) = brightness_level c"
proof (induction n arbitrary: c rnd a)
  case 0
  then show ?case by simp
next
  case (Suc n)
  then show ?case using anim_step_ctrl_keeps [of c "rnd 0" a] by (simp add: split_def)
qed

section \<open>Properties of the device\<close>

text \<open>
  C14: The configuration set at boot holds for the life of the device: in every
  state reached from \<open>app_main\<close>, under any interleaving of interrupts,
  iterations of \<open>button_task\<close> and animation steps, with every I2C write applied
  to the controller whatever part of it the controller acknowledged, the system
  state is reachable, auto-increment is on,
  \<open>MODE1 = 0xA0\<close>, \<open>PRE_SCALE = 6\<close> (so the PWM stays at about 872 Hz), and
  channel 15, which no fixture uses, keeps its full-off reset value: the tasks only
  ever write the fixtures' channels.
\<close>

theorem hw_reach_cfg:
  assumes "hw_reach regs s"
  shows "reach s \<and> pca_ai regs \<and> regs PCA9685_MODE1 = 0xA0 \<and> regs PCA9685_PRESCALE = 6 \<and>
         871 < pca_update_rate regs \<and> pca_update_rate regs < 872 \<and> pca_abs regs ! 15 = (0, 4096)"
  using hw_reach_inv [OF assms] by (simp add: hw_cfg_ok_def pca_ai_def pca_update_rate_def)

theorem hw_reach_cfg_witness:
  "reach sys_init \<and> pca_ai (pca_apply pca_reset app_main_bus_setup) \<and>
   pca_apply pca_reset app_main_bus_setup PCA9685_MODE1 = 0xA0 \<and>
   pca_apply pca_reset app_main_bus_setup PCA9685_PRESCALE = 6 \<and>
   871 < pca_update_rate (pca_apply pca_reset app_main_bus_setup) \<and>
   pca_update_rate (pca_apply pca_reset app_main_bus_setup) < 872 \<and>
   pca_abs (pca_apply pca_reset app_main_bus_setup) ! 15 = (0, 4096)"
  by (rule hw_reach_cfg) (rule hw_boot, simp add: app_main_def i2c_master_init_def)

text \<open>
  C6: Refinement of the system's writes. With auto-increment on, the I2C writes of
  any step of the system, delivered completely, change the abstract channel state
  exactly as \<open>chan_apply\<close> of the decoded buffers, keep auto-increment on, and
  address only the fixtures' channels 0 to 14.
\<close>

theorem sys_step_refines:
  assumes "pca_ai regs" "sys_step s w s'"
  shows "pca_abs (pca_apply regs w) = chan_apply (pca_abs regs) w \<and> pca_ai (pca_apply regs w) \<and>
         list_all (\<lambda>b. buf_channel b < 15) w"
proof -
  have ch: "\<exists>ch on off. unat ch < 16 \<and> b = pca9685_set_pwm ch on off \<and> buf_channel b < 15"
    if bw: "b \<in> set w" for b
  proof -
    obtain ch on off where ch: "unat ch < 15" "b = pca9685_set_pwm ch on off"
      using sys_step_bufs [OF assms(2) bw] by blast
    moreover have "buf_channel (pca9685_set_pwm ch on off) = unat ch"
      using decode_pca9685_set_pwm [of ch on off] ch(1) by (simp add: decode_pwm_def)
    ultimately show ?thesis by (intro exI [of _ ch] exI [of _ on] exI [of _ off]) simp
  qed
  then have "\<forall>b\<in>set w. \<exists>ch on off. unat ch < 16 \<and> b = pca9685_set_pwm ch on off" by blast
  then have "pca_abs (pca_apply regs w) = chan_apply (pca_abs regs) w \<and> pca_ai (pca_apply regs w)"
    using pca_apply_chan_apply [OF assms(1)] by blast
  moreover have "list_all (\<lambda>b. buf_channel b < 15) w" using ch by (fastforce simp: list_all_iff)
  ultimately show ?thesis by blast
qed

theorem sys_step_refines_witness:
  "pca_abs (pca_apply (pca_apply pca_reset app_main_bus_setup) (calls_bus 1 [SetLed 0 0 0 0])) =
     chan_apply (pca_abs (pca_apply pca_reset app_main_bus_setup)) (calls_bus 1 [SetLed 0 0 0 0]) \<and>
   pca_ai (pca_apply (pca_apply pca_reset app_main_bus_setup) (calls_bus 1 [SetLed 0 0 0 0])) \<and>
   list_all (\<lambda>b. buf_channel b < 15) (calls_bus 1 [SetLed 0 0 0 0])"
proof -
  have ai: "pca_ai (pca_apply pca_reset app_main_bus_setup)"
    using pca_setup_regs by (simp add: pca_ai_def)
  have st: "sys_step sys_init (calls_bus 1 [SetLed 0 0 0 0])
              (sys_init\<lparr>s_anim := anim_init\<lparr>a_pc := A_SelfTest 1\<rparr>\<rparr>)"
  proof -
    have "anim_step ctrl_init 0 anim_init = (ctrl_init, anim_init\<lparr>a_pc := A_SelfTest 1\<rparr>, [SetLed 0 0 0 0])"
      by (simp add: anim_step.simps anim_init_def self_test_calls_def off_calls_def NUM_LEDS_def upt_rec)
    then show ?thesis
      using sys_anim [where s = sys_init and r = 0 and c' = ctrl_init
          and a' = "anim_init\<lparr>a_pc := A_SelfTest 1\<rparr>" and os = "[SetLed 0 0 0 0]"]
      by (simp add: sys_init_def ctrl_init_def)
  qed
  show ?thesis using sys_step_refines [OF ai st] .
qed

text \<open>
  C13: Power-off reaches the controller, whatever the bus did before. In every
  state of the device with \<open>led_on\<close> false, with no further input, within 2034
  steps of the animation task the controller holds every fixture channel full off
  (and channel 15 at its reset value) once the transfers of those steps complete:
  the task finishes its effect, comes back to its loop and calls
  \<open>turn_off_all_leds\<close>, which rewrites all fifteen channels, so a channel left lit
  or torn by an earlier failed transfer is repaired.
\<close>

theorem power_off_reaches_controller:
  assumes "hw_reach regs s" "\<not> led_on (s_ctrl s)"
  shows "\<exists>k \<le> 2034. pca_abs (pca_apply regs (calls_bus (brightness_level (s_ctrl s))
           (fst (anim_run k (s_ctrl s) rnd (s_anim s))))) = replicate 15 (4096, 0) @ [(0, 4096)]"
proof -
  define c a l where "c = s_ctrl s" and "a = s_anim s" and "l = brightness_level (s_ctrl s)"
  have inv: "sys_ok s \<and> hw_cfg_ok regs" using hw_reach_inv [OF assms(1)] by simp
  then have ok: "anim_ok a" by (simp add: sys_ok_def a_def)
  have nc: "\<not> led_on c" using assms(2) by (simp add: c_def)
  obtain k where k: "k \<le> anim_measure (a_pc a)"
    and PT: "(\<not> led_on (fst (snd (anim_run k c rnd a))) \<and> anim_ok (snd (snd (anim_run k c rnd a)))) \<and>
             a_pc (snd (snd (anim_run k c rnd a))) = A_Loop"
    using anim_run_reaches [where P = "\<lambda>c a. \<not> led_on c \<and> anim_ok a" and T = "\<lambda>c a. a_pc a = A_Loop"
        and m = "\<lambda>c a. anim_measure (a_pc a)" and c = c and a = a and rnd = rnd]
      nc ok anim_step_ok anim_stop_step anim_step_ctrl_keeps by blast
  obtain os c' a' where run: "anim_run k c rnd a = (os, c', a')" by (cases "anim_run k c rnd a")
  have c': "\<not> led_on c'" "a_pc a' = A_Loop" "brightness_level c' = l"
    using PT run anim_run_ctrl_keeps [of k c rnd a] by (simp_all add: l_def c_def)
  then have st: "anim_step c' (rnd k) a' = (c', a'\<lparr>a_pc := A_OffDelay\<rparr>, off_calls)"
    by (simp add: anim_step.simps)
  have runS: "fst (anim_run (Suc k) c rnd a) = os @ off_calls"
    unfolding anim_run_snoc run using st by simp
  have ai: "pca_ai regs" and ch15: "pca_abs regs ! 15 = (0, 4096)"
    using inv by (simp_all add: hw_cfg_ok_def pca_ai_def)
  define R where "R = pca_apply regs (calls_bus l os)"
  have R: "pca_ai R" "pca_abs R ! 15 = (0, 4096)"
    using pca_calls_bus [OF ai, of l os] ch15 by (simp_all add: R_def)
  have "pca_apply regs (calls_bus l (fst (anim_run (Suc k) c rnd a))) = pca_apply R (turn_off_all_leds l)"
    unfolding runS by (simp add: calls_bus_append calls_bus_off_calls pca_apply_append R_def)
  then have "pca_abs (pca_apply regs (calls_bus l (fst (anim_run (Suc k) c rnd a)))) =
               replicate 15 (4096, 0) @ [(0, 4096)]"
    using pca_turn_off_all_leds [OF R(1), of l] R(2) by simp
  moreover have "Suc k \<le> 2034" using k anim_measure_le [OF ok] by simp
  ultimately show ?thesis by (intro exI [of _ "Suc k"]) (simp add: c_def a_def l_def)
qed

theorem power_off_reaches_controller_witness:
  "\<exists>k \<le> 2034. pca_abs (pca_apply
       (i2c_apply (pca_apply pca_reset app_main_bus_setup) (zip (turn_off_all_leds 1) (replicate 15 5)))
       (calls_bus 1 (fst (anim_run k (ctrl_init\<lparr>led_on := False\<rparr>) (\<lambda>_. 0) anim_init)))) =
     replicate 15 (4096, 0) @ [(0, 4096)]"
proof -
  define b1 where "b1 = button_isr_handler 500000 1 btn_init"
  have b1: "b1 = btn_init\<lparr>button_evt_queue := [BTN_EVENT_TOGGLE], last_btn_press_time := [0, 500, 0]\<rparr>"
    by (simp add: b1_def button_isr_handler_def debounce_ok_def btn_init_def DEBOUNCE_TIME_def xQueueSendFromISR_def
        QUEUE_LENGTH_def button_event_of_idx_def c_div_def)
  have h0: "hw_reach (pca_apply pca_reset app_main_bus_setup) sys_init"
    by (rule hw_boot) (simp add: app_main_def i2c_master_init_def)
  have "sys_step sys_init [] (sys_init\<lparr>s_btn := b1\<rparr>)"
    by (rule sys_press_eq [where gpio = BTN_TOGGLE and i = 1 and t = 500000])
       (simp_all add: b1_def sys_init_def button_isrs_def setup_button_interrupt_def
          BTN_TOGGLE_def BTN_BRIGHT_def BTN_MODE_def)
  then have h1: "hw_reach (pca_apply pca_reset app_main_bus_setup) (sys_init\<lparr>s_btn := b1\<rparr>)"
    using hw_step [OF h0, of "[]" _ "[]"] by simp
  have st: "sys_step (sys_init\<lparr>s_btn := b1\<rparr>) (turn_off_all_leds 1)
      (sys_init\<lparr>s_ctrl := ctrl_init\<lparr>led_on := False\<rparr>, s_btn := btn_init\<lparr>last_btn_press_time := [0, 500, 0]\<rparr>\<rparr>)"
    by (rule sys_serve_eq) (simp_all add: b1 button_task_step_def sys_init_def ctrl_init_def btn_init_def)
  have "length (replicate 15 (5 :: nat)) = length (turn_off_all_leds 1)"
    by (simp add: turn_off_all_leds_eq)
  then have h2: "hw_reach (i2c_apply (pca_apply pca_reset app_main_bus_setup) (zip (turn_off_all_leds 1) (replicate 15 5)))
      (sys_init\<lparr>s_ctrl := ctrl_init\<lparr>led_on := False\<rparr>, s_btn := btn_init\<lparr>last_btn_press_time := [0, 500, 0]\<rparr>\<rparr>)"
    by (rule hw_step [OF h1 st])
  show ?thesis
    using power_off_reaches_controller [OF h2, of "\<lambda>_. 0"] by (simp add: sys_init_def ctrl_init_def)
qed

end
