(* ===== verification/Logging.thy ===== *)
theory Logging
  imports Boot
begin

text \<open>
  The console output. Every \<open>ESP_LOGI\<close>, \<open>ESP_LOGW\<close> and \<open>ESP_LOGE\<close> call of
  \<open>src/src/main_app.c\<close> and \<open>src/src/buttons.c\<close> is a line of the log: its level
  and a message carrying the values the format string prints (the text itself is
  Korean prose with emoji and is not reproduced). Each operation's lines are a
  function of the same inputs as the operation. \<open>dev_reach\<close> is the whole device
  with its console: the system steps of \<open>System\<close>, every transfer with any
  outcome as in \<open>Boot\<close>, and the lines each step prints. The log ends in the
  console invariant: the last mode, power and brightness lines always tell the
  current values of the globals.
\<close>

section \<open>Log lines\<close>

datatype log_level = LOG_I | LOG_W | LOG_E

text \<open>
  The messages, in the order of the source: \<open>pca9685_set_pwm\<close>'s error (channel
  and \<open>esp_err_t\<close>), \<open>pca9685_init\<close>'s completion, the animation task's start and
  self-test lines, \<open>app_main\<close>'s lines, \<open>setup_button_interrupt\<close>'s (index and
  pin), and \<open>button_task\<close>'s four cases.
\<close>

datatype log_msg =
  MSG_I2C_WRITE_FAIL u8 int | MSG_PCA_READY
| MSG_TASK_START | MSG_SELFTEST_START | MSG_SELFTEST_DONE
| MSG_APP_BANNER | MSG_APP_START | MSG_I2C_READY | MSG_QUEUE_FAIL | MSG_TASKS_STARTED
| MSG_BUTTON_SETUP int int
| MSG_MODE int | MSG_POWER bool | MSG_BRIGHT int | MSG_UNKNOWN_EVENT int

type_synonym log_line = "log_level \<times> log_msg"

section \<open>The lines of each operation\<close>

text \<open>\<open>pca9685_set_pwm\<close>: one error line when the transfer's result is not \<open>ESP_OK\<close>.\<close>

definition pca9685_set_pwm_log :: "u8 \<Rightarrow> int \<Rightarrow> log_line list" where
  "pca9685_set_pwm_log channel err =
     (if err \<noteq> ESP_OK then [(LOG_E, MSG_I2C_WRITE_FAIL channel err)] else [])"

definition pca9685_init_log :: "log_line list" where
  "pca9685_init_log = [(LOG_I, MSG_PCA_READY)]"

text \<open>
  \<open>led_animation_task\<close>: the start line before the first \<open>turn_off_all_leds\<close>, the
  self-test line after it (before the sixth call), and the closing line after the
  last sleep, when the task goes to its loop.
\<close>

definition anim_log :: "anim_pc \<Rightarrow> log_line list" where
  "anim_log pc =
     (case pc of
        A_SelfTest k \<Rightarrow>
          (if k = 0 then [(LOG_I, MSG_TASK_START)]
           else if k = length off_calls then [(LOG_I, MSG_SELFTEST_START)]
           else if k = length self_test_calls then [(LOG_I, MSG_SELFTEST_DONE)]
           else [])
      | _ \<Rightarrow> [])"

definition setup_button_interrupt_log :: "int \<Rightarrow> int \<Rightarrow> log_line list" where
  "setup_button_interrupt_log gpio btn_idx = [(LOG_I, MSG_BUTTON_SETUP btn_idx gpio)]"

text \<open>
  \<open>app_main\<close>'s own lines for each outcome: the banner, then nothing more when
  \<open>ESP_ERROR_CHECK\<close> aborts, the queue error when \<open>xQueueCreate\<close> fails, or the
  three button lines and the closing line.
\<close>

definition app_main_log :: "int \<Rightarrow> int \<Rightarrow> bool \<Rightarrow> log_line list" where
  "app_main_log param_ret install_ret queue_ok =
     [(LOG_I, MSG_APP_BANNER), (LOG_I, MSG_APP_START), (LOG_I, MSG_APP_BANNER)] @
     (if i2c_master_init param_ret install_ret \<noteq> ESP_OK then []
      else [(LOG_I, MSG_I2C_READY)] @ pca9685_init_log @
        (if \<not> queue_ok then [(LOG_E, MSG_QUEUE_FAIL)]
         else setup_button_interrupt_log BTN_MODE 0 @ setup_button_interrupt_log BTN_TOGGLE 1 @
              setup_button_interrupt_log BTN_BRIGHT 2 @ [(LOG_I, MSG_TASKS_STARTED)]))"

text \<open>
  \<open>button_task\<close>: the line after the \<open>case\<close> has run, reading the globals it has
  just written (after \<open>turn_off_all_leds\<close> for the toggle).
\<close>

definition button_task_log :: "ctrl_state \<Rightarrow> button_event_t \<Rightarrow> log_line" where
  "button_task_log c evt =
     (let c' = fst (handle_button_event c evt)
      in case evt of
           BTN_EVENT_MODE \<Rightarrow> (LOG_I, MSG_MODE (transition_mode c'))
         | BTN_EVENT_TOGGLE \<Rightarrow> (LOG_I, MSG_POWER (led_on c'))
         | BTN_EVENT_BRIGHT \<Rightarrow> (LOG_I, MSG_BRIGHT (brightness_level c'))
         | BTN_EVENT_OTHER i \<Rightarrow> (LOG_W, MSG_UNKNOWN_EVENT i))"

text \<open>
  The error lines of a sequence of channel transfers; the channel printed is the
  \<open>uint8_t\<close> parameter of \<open>pca9685_set_pwm\<close>, read back from the register byte.
\<close>

definition bus_log :: "(u8 list \<times> nat) list \<Rightarrow> log_line list" where
  "bus_log bks =
     concat (map (\<lambda>(b, k). pca9685_set_pwm_log (of_nat (buf_channel b)) (snd (i2c_master_write_to_device k b))) bks)"

section \<open>The device with its console\<close>

text \<open>
  Register file, system state and log. The steps are those of \<open>sys_step\<close>, with
  the transfers of \<open>hw_reach\<close> and the lines printed: an iteration of
  \<open>button_task\<close> prints the error lines of its writes, then its own line; an
  animation step prints the task's lines, then the error lines of its writes.
\<close>

inductive dev_reach :: "pca_regs \<Rightarrow> sys_st \<Rightarrow> log_line list \<Rightarrow> bool" where
  dev_boot: "app_main ESP_OK ESP_OK True = Boot_Run w s \<Longrightarrow>
    dev_reach (pca_apply pca_reset w) s (app_main_log ESP_OK ESP_OK True)"
| dev_press: "dev_reach regs s lg \<Longrightarrow> button_isrs gpio = Some i \<Longrightarrow>
    dev_reach regs (s\<lparr>s_btn := button_isr_handler t i (s_btn s)\<rparr>) lg"
| dev_serve: "dev_reach regs s lg \<Longrightarrow> button_evt_queue (s_btn s) = evt # rest \<Longrightarrow>
    handle_button_event (s_ctrl s) evt = (c', w) \<Longrightarrow> length ks = length w \<Longrightarrow>
    dev_reach (i2c_apply regs (zip w ks)) (s\<lparr>s_ctrl := c', s_btn := (s_btn s)\<lparr>button_evt_queue := rest\<rparr>\<rparr>)
      (lg @ bus_log (zip w ks) @ [button_task_log (s_ctrl s) evt])"
| dev_anim: "dev_reach regs s lg \<Longrightarrow> anim_step (s_ctrl s) r (s_anim s) = (c', a', os) \<Longrightarrow>
    w = calls_bus (brightness_level (s_ctrl s)) os \<Longrightarrow> length ks = length w \<Longrightarrow>
    dev_reach (i2c_apply regs (zip w ks)) (s\<lparr>s_ctrl := c', s_anim := a'\<rparr>)
      (lg @ anim_log (a_pc (s_anim s)) @ bus_log (zip w ks))"

text \<open>
  What a reader of the console believes about the globals: the documented initial
  values, updated by every mode, power and brightness line.
\<close>

fun console_upd :: "ctrl_state \<Rightarrow> log_line \<Rightarrow> ctrl_state" where
  "console_upd c (_, MSG_MODE m) = c\<lparr>transition_mode := m\<rparr>"
| "console_upd c (_, MSG_POWER b) = c\<lparr>led_on := b\<rparr>"
| "console_upd c (_, MSG_BRIGHT l) = c\<lparr>brightness_level := l\<rparr>"
| "console_upd c _ = c"

definition console_view :: "log_line list \<Rightarrow> ctrl_state" where
  "console_view lg = foldl console_upd ctrl_init lg"

section \<open>Lemmas\<close>

text \<open>The error lines are exactly the failed transfers, in order.\<close>

lemma bus_log_failed:
  "bus_log bks =
     map (\<lambda>(b, k). (LOG_E, MSG_I2C_WRITE_FAIL (of_nat (buf_channel b)) ESP_FAIL))
       (filter (\<lambda>(b, k). k < length b) bks)"
  by (induction bks) (auto simp: bus_log_def pca9685_set_pwm_log_def i2c_master_write_to_device_def
      ESP_OK_def ESP_FAIL_def)

lemma console_upd_bus_log: "foldl console_upd c (bus_log bks) = c"
  by (induction bks arbitrary: c) (auto simp: bus_log_def pca9685_set_pwm_log_def)

lemma console_upd_anim_log: "foldl console_upd c (anim_log pc) = c"
  by (simp add: anim_log_def split: anim_pc.split)

lemma console_view_append: "console_view (xs @ ys) = foldl console_upd (console_view xs) ys"
  by (simp add: console_view_def)

text \<open>The globals a reader of the console follows.\<close>

definition console_agrees :: "ctrl_state \<Rightarrow> ctrl_state \<Rightarrow> bool" where
  "console_agrees v c \<longleftrightarrow>
     transition_mode v = transition_mode c \<and> led_on v = led_on c \<and> brightness_level v = brightness_level c"

lemma console_agrees_task:
  assumes "console_agrees v c"
  shows "console_agrees (console_upd v (button_task_log c evt)) (fst (handle_button_event c evt))"
  using assms by (cases evt) (simp_all add: console_agrees_def button_task_log_def Let_def)

lemma dev_reach_hw: "dev_reach regs s lg \<Longrightarrow> hw_reach regs s"
proof (induction rule: dev_reach.induct)
  case (dev_boot w s)
  then show ?case by (rule hw_boot)
next
  case (dev_press regs s lg gpio i t)
  then show ?case using hw_step [OF _ sys_press [of gpio i s t], of regs "[]"] by simp
next
  case (dev_serve regs s lg evt rest c' w ks)
  then have "sys_step s w (s\<lparr>s_ctrl := c', s_btn := (s_btn s)\<lparr>button_evt_queue := rest\<rparr>\<rparr>)"
    by (intro sys_serve) (simp add: button_task_step_def)
  then show ?case using dev_serve hw_step by blast
next
  case (dev_anim regs s lg r c' a' os w ks)
  then show ?case using hw_step sys_anim by blast
qed

section \<open>Properties of the console\<close>

text \<open>
  C29: The console never goes stale. In every state of the device reached from
  \<open>app_main\<close>, under any interleaving of interrupts, iterations of
  \<open>button_task\<close> and animation steps and whatever the outcome of each I2C
  transfer, the values printed by the last mode, power and brightness lines (the
  initial values before any) are the current \<open>transition_mode\<close>, \<open>led_on\<close> and
  \<open>brightness_level\<close>: \<open>button_task\<close> prints after it writes, and no other
  step writes these globals or prints such a line.
\<close>

theorem console_tracks_globals:
  assumes "dev_reach regs s lg"
  shows "transition_mode (console_view lg) = transition_mode (s_ctrl s) \<and>
         led_on (console_view lg) = led_on (s_ctrl s) \<and>
         brightness_level (console_view lg) = brightness_level (s_ctrl s)"
proof -
  have "console_agrees (console_view lg) (s_ctrl s)"
    using assms
  proof induction
    case (dev_boot w s)
    then show ?case
      by (auto simp: app_main_def i2c_master_init_def app_main_log_def pca9685_init_log_def
          setup_button_interrupt_log_def console_view_def console_agrees_def sys_init_def)
  next
    case (dev_press regs s lg gpio i t)
    then show ?case by simp
  next
    case (dev_serve regs s lg evt rest c' w ks)
    then show ?case using console_agrees_task [of "console_view lg" "s_ctrl s" evt]
      by (simp add: console_view_append console_upd_bus_log)
  next
    case (dev_anim regs s lg r c' a' os w ks)
    then show ?case using anim_step_ctrl_keeps [of "s_ctrl s" r "s_anim s"]
      by (simp add: console_view_append console_upd_bus_log console_upd_anim_log console_agrees_def)
  qed
  then show ?thesis by (simp add: console_agrees_def)
qed

theorem console_tracks_globals_witness:
  "transition_mode (console_view (app_main_log ESP_OK ESP_OK True)) = transition_mode (s_ctrl sys_init) \<and>
   led_on (console_view (app_main_log ESP_OK ESP_OK True)) = led_on (s_ctrl sys_init) \<and>
   brightness_level (console_view (app_main_log ESP_OK ESP_OK True)) = brightness_level (s_ctrl sys_init)"
  by (rule console_tracks_globals [where regs = "pca_apply pca_reset app_main_bus_setup"])
     (rule dev_boot, simp add: app_main_def i2c_master_init_def)

end
