(* ===== verification/Spec2Isabelle.thy ===== *)
theory Spec2Isabelle
  imports Logging
begin

text \<open>
  \<^bold>\<open>A verification development for the ESP32 RGB transition light.\<close>

  \<^medskip>
  \<^bold>\<open>The program.\<close> The firmware (\<open>src/src/\<close>) drives five RGB fixtures through
  a PCA9685 12-bit PWM controller on I2C. \<open>app_main\<close> configures the I2C driver,
  puts the controller to sleep, sets its prescaler and wakes it with auto-increment
  on (\<open>pca9685_init\<close>), creates the event queue and starts two FreeRTOS tasks,
  which share a few globals:
  \<^item> the input path (\<open>buttons.c\<close>): \<open>button_isr_handler\<close> debounces three buttons
    (400 ms per button) and posts \<open>button_event_t\<close> values to a ten-slot queue;
    \<open>button_task\<close> takes them one at a time and updates \<open>transition_mode\<close>
    (and raises \<open>mode_changed\<close>), \<open>led_on\<close> (switching everything off when it
    clears it) or \<open>brightness_level\<close>;
  \<^item> the animation path (\<open>main_app.c\<close>, \<open>transitons.c\<close>):
    \<open>led_animation_task\<close> runs a fixed self test of the fixtures, then loops, switching everything off while \<open>led_on\<close> is
    false and otherwise calling \<open>apply_transition_by_mode\<close>, which runs one of three
    effects (dissolve, rainbow, breathing) until it returns and then clears
    \<open>mode_changed\<close>; the effects compute colours (\<open>interpolate_easeInOut\<close>, an
    HSV sweep, a raised-cosine envelope with gamma) and send them with
    \<open>set_rgb_led\<close>, which scales each channel by the brightness level, inverts it for
    the common-anode wiring and writes one I2C buffer per channel.

  \<^medskip>
  \<^bold>\<open>The library.\<close>
  \<^item> \<open>Prelude\<close>: the machine types (\<open>u8\<close>, \<open>u16\<close>, \<open>u32\<close> as words), C's
    conversion of a \<open>float\<close> to an integer (\<open>c_trunc\<close>, truncation toward zero),
    C's \<open>/\<close> and \<open>%\<close> on integers (\<open>c_div\<close>, \<open>c_mod\<close>), and the word facts shared
    by the components.
  \<^item> \<open>Color\<close> (\<open>transitons.c\<close>, \<open>transitions.h\<close>): \<open>rgb_color_t\<close> as a record of
    three \<open>u16\<close>, \<open>base_colors\<close>, \<open>get_random_color\<close> (the draw of
    \<open>esp_random()\<close> is an input word), \<open>ease_in_out\<close> and \<open>ease_channel\<close> (the
    local shaping and one channel of \<open>interpolate_easeInOut\<close>, with the \<open>int\<close>
    cast and the store into \<open>uint16_t\<close> written out). Claims C1, C3 to C5 and C26: exact end
    points, channels between the endpoints on \<open>[0, 1]\<close>, equivalence of the
    code's polynomial with the specified curve, palette membership of a random draw,
    and the exact count of draws per palette entry (the modulo bias of \<open>% 12\<close>,
    counted with the lemmas \<open>card_mod_class\<close> and \<open>card_unat_pred\<close> of \<open>Prelude\<close>);
    the lemma \<open>interpolate_easeInOut_extrapolation_wraps\<close>: wrap-around outside
    \<open>[0, 1]\<close>.
  \<^item> \<open>Pwm\<close> (\<open>main_app.c\<close>): \<open>adjusted_duty\<close> and \<open>set_pwm_duty\<close> (the shaper),
    \<open>pca9685_set_pwm\<close> (the five bytes of one write), \<open>set_rgb_led\<close> and
    \<open>turn_off_all_leds\<close>, each returning the list of I2C buffers it writes: the
    writes are fire and forget in the code, so the bus is a log. \<open>decode_pwm\<close> reads
    a buffer back as (channel, ON, OFF) and \<open>pwm_drive\<close> is the pair
    \<open>set_pwm_duty\<close> sends. Claims C7 and C9 to C12: the zero-duty encoding,
    bounds of the inverted duty, the monotonicity of the drive in the duty and the
    level that the specification asks for, the buffer round trip, the index check;
    the lemmas \<open>set_rgb_led_channel_map\<close> (the channel map) and
    \<open>set_pwm_duty_low_full_scale\<close> (the specification's dim scenario).
  \<^item> \<open>Pca9685\<close> (\<open>main_app.c\<close> and the NXP PCA9685 data sheet): the set-up
    writes of the code (\<open>pca9685_write_byte\<close>, \<open>pca9685_init\<close>,
    \<open>app_main_bus_setup\<close>: the init and the later \<open>PRESCALE := 25\<close>), and the
    controller's register file as \<open>u8 \<Rightarrow> u8\<close> with the data sheet's write
    semantics (\<open>pca_write\<close>: register pointer, auto-increment by \<open>MODE1.AI\<close>,
    \<open>PRE_SCALE\<close> written only while \<open>MODE1.SLEEP\<close> is set). \<open>pca_abs\<close>
    abstracts the registers to the (ON, OFF) pairs of the 16 channels. Claims C2 and
    C8: \<open>set_rgb_led\<close> refines the update of three abstract channels; the set-up
    writes configure the controller from any register contents, as after a reset
    of the ESP32 alone (auto-increment on, prescale 6, about 872 Hz, every other
    register kept).
  \<^item> \<open>Control\<close> (\<open>buttons.c\<close>, \<open>buttons.h\<close>, globals of \<open>main_app.c\<close>): the record
    \<open>ctrl_state\<close> of the four shared globals, \<open>handle_button_event\<close> (the
    \<open>switch\<close> of \<open>button_task\<close>), \<open>button_isr_handler\<close> with the record
    \<open>btn_state\<close> (debounce table and queue), \<open>button_task_step\<close> (one iteration of
    the task's loop), the runs \<open>isr_run\<close> and \<open>input_run\<close>, and the wiring:
    the pins \<open>BTN_MODE\<close>, \<open>BTN_TOGGLE\<close>, \<open>BTN_BRIGHT\<close> and the interrupt table
    (pin to handler argument) built by \<open>setup_button_interrupt\<close> and
    \<open>buttons_init\<close>. Claims C15 to C18 and C20:
    the mode event, the power toggle, the invariant of every input run, the minimum
    interval between debounced presses, and the press dropped by a full queue; the
    lemma \<open>early_press_ignored\<close>: presses in the first 400 ms are lost.
  \<^item> \<open>Effect\<close> (\<open>transitons.c\<close>): what the three effects share. A call of
    \<open>set_rgb_led\<close> or \<open>vTaskDelay\<close> is an \<open>anim_out\<close>; an effect is a step
    function \<open>ctrl_state \<Rightarrow> u32 \<Rightarrow> 's \<Rightarrow> ('s, 'r) eff_step\<close>, each step making at
    most one call and reading the globals where the code reads them, and
    \<open>eff_run\<close> runs it for a number of steps (fuel) under a fixed control state with a
    stream of \<open>esp_random()\<close> values. The generic lemmas give termination from a
    decreasing measure (\<open>eff_run_returns\<close>), a sleep budget
    (\<open>eff_run_delay_budget\<close>), the calls of a frame and of a loop of frames
    (\<open>eff_run_frame\<close>, \<open>eff_run_iter\<close>) and the composition of runs.
  \<^item> \<open>Rainbow\<close> (\<open>rainbow_transition_mode\<close>): the static hue is returned by the
    machine (\<open>Done hue\<close>), so the caller keeps it across calls. Claims C21 to C25:
    the hue wraps every 120 frames, saturated 12-bit colours, one frame of calls, the
    return at the end of the current frame once the control state changes, and that
    \<open>mode_changed\<close> is never read.
  \<^item> \<open>Breathing\<close> (\<open>breathing_loop_transition\<close>): static \<open>color_idx\<close> likewise.
    Claims C27, C28 and C30: the channel bounds of both phases, one whole
    breath of 202 frames run regardless of \<open>led_on\<close>, the return within 9 steps and 340 ms
    once \<open>mode_changed\<close> is raised, and (C36), once power is off or the mode has changed
    with \<open>mode_changed\<close> clear, no return before the next loop test, which is
    reached within 1415 steps and 8380 ms and returns (the exact count of
    \<open>eff_run_countdown\<close> in \<open>Effect\<close>).
  \<^item> \<open>Dissolve\<close> (\<open>individual_dissolve_transition\<close>): the local arrays are lists
    of length \<open>NUM_LEDS\<close>. Claims C31 to C35: the opening fade runs under every
    control state, one fixture cycle of 406 steps, the hold in \<open>[1000, 3000)\<close>, the
    return within 2032 steps and 55.4 s once the loop condition fails, and a pass of
    at least 45.4 s that no mode change interrupts.
  \<^item> \<open>System\<close> (\<open>led_animation_task\<close>, \<open>apply_transition_by_mode\<close>, the tasks of \<open>app_main\<close>):
    \<open>anim_step\<close> is one step of the animation task, whose state \<open>anim_st\<close> holds
    the program point (the \<open>k\<close>-th call of the self test, the loop, the power-off
    sleep, inside an effect, the clearing of \<open>mode_changed\<close>) and the effects'
    statics; \<open>self_test_calls\<close> are the 57 calls of the self test; the effect's steps are its
    steps. \<open>calls_bus\<close> turns the calls into the I2C writes of \<open>set_rgb_led\<close> at
    the current level. \<open>sys_step\<close> is the inductive step relation of the system: an
    interrupt on a pin of \<open>button_isrs\<close> (the table of \<open>app_main\<close>'s three
    \<open>setup_button_interrupt\<close> calls, equal to \<open>buttons_init\<close>'s), an iteration of \<open>button_task\<close> or an animation step, in any order;
    \<open>reach\<close> is reachability from \<open>sys_init\<close>, where the task starts its self
    test. The lemma \<open>self_test_ignores_control\<close>: the self test reads no global and
    lasts 6.5 s. Claims C37 to C40: the
    reachable-state invariant (every range an array access relies on), darkness for
    good after a power-off within 2033 animation steps, the selected effect running
    within 2034 steps of a mode change, and a run from boot that relights a fixture
    right after the power toggle switched everything off.
  \<^item> \<open>Boot\<close> (\<open>app_main\<close>, \<open>i2c_master_init\<close>): its three outcomes (abort when the I2C driver fails,
    return without tasks when the queue cannot be created, the tasks running from
    \<open>sys_init\<close>), and \<open>hw_reach\<close>, the reachable pairs of register file and
    system state, each system step's writes applied to the controller. Every write of
    the running system is a sequence of \<open>set_rgb_led\<close> writes
    (\<open>sys_step_writes\<close>), which keeps the configuration registers
    (\<open>pca_calls_bus\<close>); after the self test the controller is dark
    (\<open>boot_self_test_dark\<close>). Claim C14: the configuration set at boot holds in
    every reachable state of the device, whatever the outcome of each transfer.
    Claim C6: the writes of every system step refine \<open>chan_apply\<close> on the
    abstract channel state. Claim C13: with the power off and no further input,
    within 2034 animation steps the controller holds every fixture channel full off,
    whatever earlier failed transfers left (\<open>anim_run_snoc\<close> extends a run by its
    last step; \<open>hw_reach_inv\<close> is the device invariant).
  \<^item> \<open>Bus\<close> (\<open>i2c_master_write_to_device\<close> as called by \<open>pca9685_set_pwm\<close>
    and \<open>pca9685_write_byte\<close>): a transfer delivers the prefix of its buffer the
    controller acknowledged and returns \<open>ESP_OK\<close> only when all of it got through
    (\<open>i2c_master_write_to_device\<close>, \<open>i2c_apply\<close>, modelled from the ESP-IDF
    documentation); \<open>chan_apply\<close> is the abstract effect of channel writes on the
    16 (ON, OFF) pairs, read from the decoded buffers. A channel write, complete or
    torn, touches only its own block (\<open>pca_write_prefix_keep\<close>). Claim C19: a
    lost wake-up write of \<open>pca9685_init\<close> leaves the controller asleep without
    auto-increment.
  \<^item> \<open>Logging\<close> (every \<open>ESP_LOGx\<close> call): the lines of each operation as a
    level and a message with the printed values (\<open>button_task_log\<close>,
    \<open>pca9685_set_pwm_log\<close>, \<open>app_main_log\<close>, \<open>anim_log\<close>,
    \<open>setup_button_interrupt_log\<close>, \<open>pca9685_init_log\<close>), \<open>bus_log\<close> (one error
    line per failed transfer, \<open>bus_log_failed\<close>), and \<open>dev_reach\<close>, the device
    with its console, which refines \<open>hw_reach\<close> (\<open>dev_reach_hw\<close>). Claim C29:
    the console's last mode, power and brightness lines always show the globals.

  \<^medskip>
  \<^bold>\<open>Fuel and bounds.\<close> A run's fuel counts steps, one per call, draw or test of
  the code. Each bound of a termination or latency claim is the maximum of a measure
  over the valid program points, plus one for the returning step: \<open>breathing_measure\<close>
  (8, with \<open>mode_changed\<close> raised), \<open>breathing_stop_measure\<close> (1415, loop
  condition false), \<open>dissolve_measure\<close> (2031), \<open>rainbow_measure\<close> (6), and for
  the task \<open>anim_measure\<close> (2033, which also covers the 58 steps of the self
  test), one more for starting the selected effect (C39) or for the power-off branch's
  \<open>turn_off_all_leds\<close> (C13). The
  sleep bounds are the maxima of the matching budgets (\<open>breathing_budget\<close>,
  \<open>breathing_stop_budget\<close>, \<open>dissolve_budget\<close>). The functional runs take
  exactly the number of steps of the code's loops (e.g. \<open>(NUM_LEDS + 2) * 202\<close> for
  a breath, 406 for a dissolve fixture), so more fuel is never needed, and
  \<open>eff_run_more_fuel\<close> shows that fuel beyond a return changes nothing.

  \<^medskip>
  \<^bold>\<open>Modelling choices.\<close> \<open>float\<close> arithmetic is exact arithmetic on \<open>real\<close>;
  every conversion back to an integer type is written out as the C conversion
  (truncation, then the store modulo \<open>2^16\<close>). Single-precision rounding is not
  modelled: a computed channel may differ by one count from the hardware's where a
  product is not exactly representable. \<open>esp_random()\<close> and
  \<open>esp_timer_get_time()\<close> are inputs of the operations that call them. The
  FreeRTOS queue is a list with the capacity given to \<open>xQueueCreate\<close>, and
  \<open>xQueueSendFromISR\<close> drops an item sent to a full queue, as documented. The
  handler of one button event runs to completion before the animation task runs
  again (the button task has the higher priority).

  \<^medskip>
  \<^bold>\<open>Interleaving.\<close> The input path may run between any two steps of the
  animation task, which is where FreeRTOS can preempt it (the button task has the
  higher priority); the steps of the animation task end at its calls and at most
  of its reads of the globals. The step relation is coarser than the hardware in
  three places: the reads of a loop test (\<open>led_on\<close> and the mode) are one step;
  \<open>set_rgb_led\<close> reads \<open>brightness_level\<close> once per call where the code reads it
  in each of its three \<open>set_pwm_duty\<close> calls; and an iteration of \<open>button_task\<close>,
  with its 15 transfers, is atomic with respect to the animation task, although the
  I2C driver blocks and lets the lower-priority task run. Orders of reads and writes
  that need these finer interleavings are not sequences of \<open>sys_step\<close>; no claim
  is about them. Timestamps of interrupts are
  arbitrary in \<open>sys_step\<close>, so the invariant holds for every clock; the debounce
  claims of \<open>Control\<close> fix the order of presses. In \<open>dev_reach\<close> all of \<open>app_main\<close>'s lines come before
  the tasks' lines; on the device the tasks start before \<open>app_main\<close> prints its
  last line, which may then appear after their first ones.

  \<^medskip>
  \<^bold>\<open>What the model shows.\<close> Most of the specification holds of the code (colour
  arithmetic, the PWM encoding, the input path, the breathing cancellation). Where
  it does not: the prescale write of 25 in \<open>app_main\<close> comes after
  \<open>pca9685_init\<close> has woken the controller and is ignored, so the PWM runs at
  about 872 Hz, neither the 800 Hz nor the 1000 Hz of the comments (C8, C14); the
  self test lights the fixtures for 6.5 s after boot whatever the power state
  (\<open>self_test_ignores_control\<close>); the palette draw favours the first four
  colours by one draw in 357913941 (C26); the breath and the opening fade of the dissolve go on after a
  power-off (C28, C31, C40), so fixtures are relit after \<open>turn_off_all_leds\<close>; the
  rainbow and the dissolve never read \<open>mode_changed\<close> (C25, C35), so a mode change
  waits for the end of a frame or of a whole pass of at least 45 s; the dissolve hold
  never reaches \<open>HOLD_TIME_MAX_MS\<close> (C33); the dim tier gives 3295 where the
  specification's factor gives 3297 (\<open>set_pwm_duty_low_full_scale\<close>); presses in the first 400 ms after boot and
  presses dropped by a full queue are lost (\<open>early_press_ignored\<close>, C20); the
  results of the set-up writes are ignored, so a lost wake-up write leaves the
  controller asleep and every channel write lands in \<open>LEDn_ON_L\<close> (C19); a failed
  channel write is logged and never retried, and may leave its channel torn between
  old and new bytes, though it cannot disturb the configuration (C14).

  \<^medskip>
  \<^bold>\<open>Not modelled.\<close> Of \<open>i2c_master_init\<close> only the error propagation is
  modelled, with the driver calls' results as inputs; the \<open>i2c_config_t\<close> values
  (pins, pull-ups, clock) are electrical configuration no code reads. Of \<open>setup_button_interrupt\<close> only the registration of the
  handler is modelled; \<open>gpio_config\<close> and \<open>gpio_install_isr_service\<close> set
  electrical modes and their results are ignored by the code. The text of the log
  lines (Korean prose with emoji) is not reproduced, only their level and the values
  they print; \<open>esp_err_to_name\<close> is the error code itself; the line
  \<open>ESP_ERROR_CHECK\<close> prints before aborting comes from ESP-IDF, not from the
  code. The globals \<open>led_colors\<close>, \<open>target_colors\<close> and
  \<open>led_params\<close> are declared but never read or written, as are the type
  \<open>transition_params_t\<close> of \<open>transitions.h\<close> and the macros
  \<open>TOTAL_CHANNELS\<close>, \<open>PWM_RESOLUTION\<close> (the code writes 4095 literally) and
  \<open>DEBOUNCE_TIME_MS\<close> of \<open>transitons.c\<close>; the rest of the source not mapped is
  includes, \<open>extern\<close> declarations, prototypes and the I2C pin macros. The 10 ms sleeps of
  \<open>pca9685_init\<close> are timing of the set-up only and the register model has no
  clock. The register model stores \<open>MODE1\<close> as written: on the chip, writing 1 to
  \<open>RESTART\<close> (bit 7) clears it, so \<open>MODE1\<close> reads \<open>0x20\<close> after the wake-up
  write where the model holds \<open>0xA0\<close>; the bits the model uses, \<open>AI\<close> and
  \<open>SLEEP\<close>, are the same. The delays of the effects are kept in milliseconds;
  \<open>vTaskDelay\<close>'s conversion to ticks (\<open>pdMS_TO_TICKS\<close>,
  \<open>hold / portTICK_PERIOD_MS\<close>) and its rounding are not modelled.
  The controller's oscillator start-up after \<open>RESTART\<close>, its
  \<open>ALL_LED\<close> registers and its outputs' electrical behaviour are beyond the
  register model.
\<close>

end
